(* ===== verification/Cled_Prelude.thy ===== *)
theory Cled_Prelude
  imports Main "HOL-Library.Word" "HOL-Library.Sublist" "HOL-Library.Multiset"
begin

text \<open>
  Shared vocabulary of the development: the machine types the Rust code uses, the list operations
  behind \<open>iter().find\<close>, \<open>iter_mut().find\<close>, \<open>position\<close>/\<open>remove\<close> and \<open>retain\<close>, and big- and
  little-endian bytes of words.
\<close>

section \<open>Machine types\<close>

type_synonym byte = "8 word"
type_synonym u16 = "16 word"
type_synonym u32 = "32 word"
type_synonym u64 = "64 word"

text \<open>A Rust \<open>Result\<close>: \<open>Inl\<close> is \<open>Err\<close>, \<open>Inr\<close> is \<open>Ok\<close>.\<close>

abbreviation Err :: "'e \<Rightarrow> 'e + 'a" where "Err \<equiv> Inl"
abbreviation Ok :: "'a \<Rightarrow> 'e + 'a" where "Ok \<equiv> Inr"

section \<open>Durations\<close>

text \<open>A \<open>Duration\<close> is its number of nanoseconds.\<close>

definition millis :: "nat \<Rightarrow> nat" where
  "millis n = n * 1000000"

definition secs :: "nat \<Rightarrow> nat" where
  "secs n = n * 1000000000"

section \<open>List operations of the Rust iterators\<close>

text \<open>\<open>iter_mut().find(P)\<close> followed by an assignment: changes the first match only.\<close>

fun upd_first :: "('a \<Rightarrow> bool) \<Rightarrow> ('a \<Rightarrow> 'a) \<Rightarrow> 'a list \<Rightarrow> 'a list" where
  "upd_first P f [] = []"
| "upd_first P f (x # xs) = (if P x then f x # xs else x # upd_first P f xs)"

text \<open>\<open>position(P)\<close> followed by \<open>remove(index)\<close>: drops the first match only.\<close>

fun remove_first :: "('a \<Rightarrow> bool) \<Rightarrow> 'a list \<Rightarrow> 'a list" where
  "remove_first P [] = []"
| "remove_first P (x # xs) = (if P x then xs else x # remove_first P xs)"

lemma length_upd_first [simp]: "length (upd_first P f xs) = length xs"
  by (induction xs) auto

lemma map_upd_first:
  "(\<And>x. P x \<Longrightarrow> g (f x) = g x) \<Longrightarrow> map g (upd_first P f xs) = map g xs"
  by (induction xs) auto

lemma find_upd_first_same:
  "(\<And>x. P x \<Longrightarrow> P (f x)) \<Longrightarrow> find P (upd_first P f xs) = map_option f (find P xs)"
  by (induction xs) auto

lemma find_upd_first_other:
  "(\<And>x. P x \<Longrightarrow> \<not> Q x \<and> \<not> Q (f x)) \<Longrightarrow> find Q (upd_first P f xs) = find Q xs"
  by (induction xs) auto

lemma set_upd_first: "set (upd_first P f xs) \<subseteq> set xs \<union> f ` set xs"
  by (induction xs) auto

lemma set_remove_first: "set (remove_first P xs) \<subseteq> set xs"
  by (induction xs) auto

lemma distinct_map_remove_first:
  "distinct (map g xs) \<Longrightarrow> distinct (map g (remove_first P xs))"
  using set_remove_first by (induction xs) (auto, fastforce)

lemma find_remove_first_other:
  "(\<And>x. P x \<Longrightarrow> \<not> Q x) \<Longrightarrow> find Q (remove_first P xs) = find Q xs"
  by (induction xs) auto

lemma remove_first_filter:
  "distinct (map g xs) \<Longrightarrow> remove_first (\<lambda>x. g x = k) xs = filter (\<lambda>x. g x \<noteq> k) xs"
  by (induction xs) (auto simp: rev_image_eqI intro!: filter_True [symmetric])

lemma find_filter_other:
  "(\<And>x. Q x \<Longrightarrow> P x) \<Longrightarrow> find Q (filter P xs) = find Q xs"
  by (induction xs) auto

lemma find_filter_none [simp]:
  "find (\<lambda>x. g x = k) (filter (\<lambda>x. g x \<noteq> k) xs) = None"
  by (induction xs) auto

lemma find_append:
  "find P (xs @ ys) = (case find P xs of None \<Rightarrow> find P ys | Some x \<Rightarrow> Some x)"
  by (induction xs) auto

lemma find_SomeD: "find P xs = Some x \<Longrightarrow> P x \<and> x \<in> set xs"
  by (induction xs) (auto split: if_splits)

lemma find_None_iff_ball: "find P xs = None \<longleftrightarrow> (\<forall>x\<in>set xs. \<not> P x)"
  by (induction xs) auto

lemma find_distinct_Some:
  "distinct (map g xs) \<Longrightarrow> x \<in> set xs \<Longrightarrow> find (\<lambda>y. g y = g x) xs = Some x"
  by (induction xs) (auto simp: rev_image_eqI)

lemma distinct_map_filter_append:
  "distinct (map g xs) \<Longrightarrow> distinct (map g (filter (\<lambda>x. g x \<noteq> g y) xs @ [y]))"
  by (auto simp: distinct_map_filter)

section \<open>Words as bytes\<close>

text \<open>\<open>to_le_bytes\<close>, \<open>to_be_bytes\<close> and their inverses, by repeated division by 256.\<close>

fun le_digits :: "nat \<Rightarrow> nat \<Rightarrow> byte list" where
  "le_digits 0 x = []"
| "le_digits (Suc n) x = of_nat x # le_digits n (x div 256)"

fun le_value :: "byte list \<Rightarrow> nat" where
  "le_value [] = 0"
| "le_value (b # bs) = unat b + 256 * le_value bs"

definition le_bytes :: "'a::len word \<Rightarrow> byte list" where
  "le_bytes w = le_digits (LENGTH('a) div 8) (unat w)"

definition le_word :: "byte list \<Rightarrow> 'a::len word" where
  "le_word bs = of_nat (le_value bs)"

definition be_bytes :: "'a::len word \<Rightarrow> byte list" where
  "be_bytes w = rev (le_bytes w)"

definition be_word :: "byte list \<Rightarrow> 'a::len word" where
  "be_word bs = le_word (rev bs)"

lemma length_le_digits [simp]: "length (le_digits n x) = n"
  by (induction n arbitrary: x) auto

lemma le_value_le_digits: "le_value (le_digits n x) = x mod 256 ^ n"
proof (induction n arbitrary: x)
  case (Suc n)
  have "unat (of_nat x :: byte) = x mod 256"
    by (simp add: unat_of_nat)
  with Suc show ?case
    by (simp add: mod_mult2_eq)
qed simp

lemma le_value_bound: "le_value bs < 256 ^ length bs"
proof (induction bs)
  case (Cons b bs)
  have "unat b < 256"
    using unsigned_less [of b, where 'a = nat] by simp
  with Cons show ?case by simp
qed simp

lemma le_digits_le_value [simp]: "le_digits (length bs) (le_value bs) = bs"
proof (induction bs)
  case (Cons b bs)
  have "unat b < 256"
    using unsigned_less [of b, where 'a = nat] by simp
  then have "(unat b + 256 * le_value bs) div 256 = le_value bs"
    by simp
  moreover have "(of_nat (unat b + 256 * le_value bs) :: byte) = b"
  proof -
    have "(256 :: byte) = 0" by simp
    then have "256 * (of_nat (le_value bs) :: byte) = 0" by (metis mult_zero_left)
    then show ?thesis by simp
  qed
  ultimately show ?case using Cons by simp
qed simp

lemma length_le_bytes: "length (le_bytes (w :: 'a::len word)) = LENGTH('a) div 8"
  by (simp add: le_bytes_def)

lemma length_be_bytes: "length (be_bytes (w :: 'a::len word)) = LENGTH('a) div 8"
  by (simp add: be_bytes_def length_le_bytes)

lemma power_256: "(256 :: nat) ^ n = 2 ^ (n * 8)"
  using power_mult [of "2 :: nat" 8 n] by (simp add: mult.commute)

lemma le_word_le_bytes:
  assumes "8 dvd LENGTH('a::len)"
  shows "le_word (le_bytes w) = (w :: 'a word)"
proof -
  have "(256 :: nat) ^ (LENGTH('a) div 8) = 2 ^ LENGTH('a)"
    using assms by (simp add: power_256)
  then show ?thesis
    by (simp add: le_word_def le_bytes_def le_value_le_digits)
qed

lemma le_bytes_le_word:
  assumes "length bs * 8 = LENGTH('a::len)"
  shows "le_bytes (le_word bs :: 'a word) = bs"
proof -
  have len: "LENGTH('a) div 8 = length bs"
    using assms by (metis nonzero_mult_div_cancel_right zero_neq_numeral)
  have "le_value bs < 2 ^ LENGTH('a)"
    using le_value_bound [of bs] by (simp add: power_256 assms)
  then have "unat (le_word bs :: 'a word) = le_value bs"
    by (simp add: le_word_def unat_of_nat)
  then show ?thesis
    by (simp add: le_bytes_def len)
qed

lemma be_word_be_bytes:
  "8 dvd LENGTH('a::len) \<Longrightarrow> be_word (be_bytes w) = (w :: 'a word)"
  by (simp add: be_word_def be_bytes_def le_word_le_bytes)

lemma be_bytes_be_word:
  "length bs * 8 = LENGTH('a::len) \<Longrightarrow> be_bytes (be_word bs :: 'a word) = bs"
  by (simp add: be_word_def be_bytes_def le_bytes_le_word)

lemma be_bytes_inject:
  "8 dvd LENGTH('a::len) \<Longrightarrow> be_bytes a = be_bytes b \<longleftrightarrow> a = (b :: 'a word)"
  by (metis be_word_be_bytes)

lemma le_bytes_inject:
  "8 dvd LENGTH('a::len) \<Longrightarrow> le_bytes a = le_bytes b \<longleftrightarrow> a = (b :: 'a word)"
  by (metis le_word_le_bytes)

text \<open>
  Big-endian bytes order words: of two words the smaller one has the lexicographically smaller
  bytes. This is why the derived \<open>Ord\<close> of a 16-byte identifier is the order of its number.
\<close>

fun byte_less :: "byte list \<Rightarrow> byte list \<Rightarrow> bool" where
  "byte_less [] bs = (bs \<noteq> [])"
| "byte_less (a # as) [] = False"
| "byte_less (a # as) (b # bs) = (a < b \<or> a = b \<and> byte_less as bs)"

lemma byte_less_snoc:
  "length as = length bs \<Longrightarrow>
   byte_less (as @ [a]) (bs @ [b]) \<longleftrightarrow> byte_less as bs \<or> as = bs \<and> a < b"
  by (induction as bs rule: list_induct2) auto

lemma byte_less_rev_iff:
  "length as = length bs \<Longrightarrow> byte_less (rev as) (rev bs) \<longleftrightarrow> le_value as < le_value bs"
proof (induction as bs rule: list_induct2)
  case (Cons a as b bs)
  have "unat a < 256" and "unat b < 256"
    using unsigned_less [of a, where 'a = nat] unsigned_less [of b, where 'a = nat] by simp_all
  moreover have "le_value as = le_value bs \<longleftrightarrow> as = bs"
    using Cons.hyps by (metis le_digits_le_value)
  ultimately show ?case
    using Cons by (auto simp: byte_less_snoc word_less_nat_alt)
qed simp

lemma be_bytes_less_iff:
  assumes "8 dvd LENGTH('a::len)"
  shows "byte_less (be_bytes a) (be_bytes b) \<longleftrightarrow> a < (b :: 'a word)"
proof -
  have "le_value (le_bytes w) = unat w" for w :: "'a word"
    using assms by (simp add: le_bytes_def le_value_le_digits power_256)
  then show ?thesis
    by (simp add: be_bytes_def byte_less_rev_iff length_le_bytes word_less_nat_alt)
qed

end
