(* ===== verification/Interfaces.thy ===== *)
theory Interfaces
  imports Cled_Prelude
begin

text \<open>
  Interfaces several components share, each a locale that is interpreted on the model's own
  definitions in the theory of the component that provides them.
\<close>

section \<open>State machines with an invariant\<close>

text \<open>
  A component whose operations are events: what one event keeps, every run of events keeps.
\<close>

locale state_machine =
  fixes step :: "'s \<Rightarrow> 'e \<Rightarrow> 's"
    and invar :: "'s \<Rightarrow> bool"
  assumes invar_step: "invar s \<Longrightarrow> invar (step s e)"
begin

lemma invar_run: "invar s \<Longrightarrow> invar (foldl step s es)"
  by (induction es arbitrary: s) (auto intro: invar_step)

lemma invar_prefix: "invar s \<Longrightarrow> prefix es fs \<Longrightarrow> invar (foldl step s es)"
  by (auto intro: invar_run)

end

section \<open>Join semilattices\<close>

text \<open>
  Information that is merged from several sources: the order of the sources and repeated sources
  do not matter.
\<close>

locale merge_lattice =
  fixes join :: "'a \<Rightarrow> 'a \<Rightarrow> 'a"
  assumes join_comm: "join a b = join b a"
    and join_assoc: "join (join a b) c = join a (join b c)"
    and join_idem: "join a a = a"
begin

lemma join_left_comm: "join a (join b c) = join b (join a c)"
  by (metis join_comm join_assoc)

lemma join_left_idem: "join a (join a b) = join a b"
  by (metis join_assoc join_idem)

lemma foldl_join_absorb: "x \<in> set xs \<Longrightarrow> join (foldl join a xs) x = foldl join a xs"
proof (induction xs rule: rev_induct)
  case (snoc y ys)
  then show ?case
    by (auto simp: join_assoc join_idem) (metis join_comm join_assoc)
qed simp

lemma foldl_join_subset:
  "set xs \<subseteq> set ys \<Longrightarrow> foldl join (foldl join a ys) xs = foldl join a ys"
  by (induction xs) (auto simp: foldl_join_absorb)

lemma join_foldl: "join b (foldl join a xs) = foldl join (join b a) xs"
  by (induction xs rule: rev_induct) (auto simp: join_assoc [symmetric])

lemma foldl_join_swap:
  "foldl join (foldl join a xs) ys = foldl join (foldl join a ys) xs"
proof (induction ys rule: rev_induct)
  case (snoc y ys)
  have "foldl join (foldl join a xs) (ys @ [y]) = join (foldl join (foldl join a ys) xs) y"
    using snoc by simp
  also have "\<dots> = foldl join (join (foldl join a ys) y) xs"
    by (metis join_comm join_foldl)
  finally show ?case by simp
qed simp

lemma foldl_join_set_cong:
  assumes "set xs = set ys"
  shows "foldl join a xs = foldl join a ys"
proof -
  have "foldl join a xs = foldl join (foldl join a xs) ys"
    using assms by (intro foldl_join_subset [symmetric]) simp
  also have "\<dots> = foldl join (foldl join a ys) xs"
    by (rule foldl_join_swap)
  also have "\<dots> = foldl join a ys"
    using assms by (intro foldl_join_subset) simp
  finally show ?thesis .
qed

end

section \<open>Codecs on the front of a byte stream\<close>

text \<open>
  An encoding whose decoder reads one value off the front of a stream and returns the rest. Such
  an encoding is injective and prefix-free, so a stream of encoded values splits in one way only.
\<close>

locale stream_codec =
  fixes enc :: "'a \<Rightarrow> 'b list"
    and dec :: "'b list \<Rightarrow> ('a \<times> 'b list) option"
    and valid :: "'a \<Rightarrow> bool"
  assumes dec_enc: "valid a \<Longrightarrow> dec (enc a @ rest) = Some (a, rest)"
    and enc_nonempty: "valid a \<Longrightarrow> enc a \<noteq> []"
begin

lemma dec_enc_whole: "valid a \<Longrightarrow> dec (enc a) = Some (a, [])"
  using dec_enc [of a "[]"] by simp

lemma enc_prefix_free:
  "valid a \<Longrightarrow> valid b \<Longrightarrow> enc a @ r = enc b @ s \<Longrightarrow> a = b \<and> r = s"
  by (metis dec_enc option.inject prod.inject)

lemma enc_inject: "valid a \<Longrightarrow> valid b \<Longrightarrow> enc a = enc b \<Longrightarrow> a = b"
  using enc_prefix_free [of a b "[]" "[]"] by simp

lemma concat_enc_inject:
  "\<forall>a\<in>set as. valid a \<Longrightarrow> \<forall>b\<in>set bs. valid b \<Longrightarrow>
   concat (map enc as) = concat (map enc bs) \<Longrightarrow> as = bs"
proof (induction as arbitrary: bs)
  case Nil
  then show ?case
    by (cases bs) (auto dest: enc_nonempty)
next
  case (Cons a as)
  then obtain b bs' where "bs = b # bs'"
    using enc_nonempty [of a] by (cases bs) simp_all
  with Cons.prems have "enc a @ concat (map enc as) = enc b @ concat (map enc bs')"
    and va: "valid a" and vb: "valid b" by simp_all
  then have "a = b" and "concat (map enc as) = concat (map enc bs')"
    using enc_prefix_free [OF va vb] by blast+
  with Cons.IH [of bs'] Cons.prems \<open>bs = b # bs'\<close> show ?case by simp
qed

end

section \<open>Doubling retry delays\<close>

text \<open>A retry delay that doubles from \<open>lo\<close> up to \<open>hi\<close>.\<close>

locale doubling_delay =
  fixes lo hi :: nat
    and next_delay :: "nat \<Rightarrow> nat"
  assumes lo_pos: "0 < lo"
    and lo_le_hi: "lo \<le> hi"
    and next_delay_eq: "next_delay d = min (d * 2) hi"
begin

lemma next_delay_bounds: "lo \<le> d \<Longrightarrow> lo \<le> next_delay d \<and> next_delay d \<le> hi"
  using lo_le_hi by (auto simp: next_delay_eq)

lemma delay_after_failures: "(next_delay ^^ n) lo = min (2 ^ n * lo) hi"
proof (induction n)
  case (Suc n)
  have "min (min a hi * 2) hi = min (2 * a) hi" for a
    by (simp add: min_def)
  with Suc show ?case
    by (simp add: next_delay_eq mult.assoc)
qed (simp add: lo_le_hi min_def)

lemma delay_reaches_cap: "hi \<le> 2 ^ n * lo \<Longrightarrow> (next_delay ^^ n) lo = hi"
  by (simp add: delay_after_failures)

lemma delay_grows: "(next_delay ^^ n) lo \<le> (next_delay ^^ Suc n) lo"
proof -
  have "2 ^ n * lo \<le> 2 ^ Suc n * lo"
    by simp
  then show ?thesis
    unfolding delay_after_failures by (rule min.mono) simp
qed

end

section \<open>Memories of what was already seen\<close>

text \<open>
  A memory that answers whether a value is new while recording it, and may forget old values to
  stay within its bound: the value just recorded is always remembered.
\<close>

locale seen_memory =
  fixes ins :: "'v \<Rightarrow> 'm \<Rightarrow> bool \<times> 'm"
    and mem :: "'m \<Rightarrow> 'v set"
    and good :: "'m \<Rightarrow> bool"
  assumes ins_good: "good m \<Longrightarrow> good (snd (ins v m))"
    and ins_new: "good m \<Longrightarrow> fst (ins v m) \<longleftrightarrow> v \<notin> mem m"
    and ins_mem: "good m \<Longrightarrow> v \<in> mem (snd (ins v m))"
    and ins_only: "good m \<Longrightarrow> mem (snd (ins v m)) \<subseteq> insert v (mem m)"
begin

lemma second_time_refused: "good m \<Longrightarrow> \<not> fst (ins v (snd (ins v m)))"
  by (simp add: ins_new ins_good ins_mem)

lemma refused_known: "good m \<Longrightarrow> \<not> fst (ins v m) \<Longrightarrow> v \<in> mem m"
  by (simp add: ins_new)

lemma mem_after: "good m \<Longrightarrow> w \<in> mem (snd (ins v m)) \<Longrightarrow> w = v \<or> w \<in> mem m"
  using ins_only by blast

end

section \<open>Directories\<close>

text \<open>
  A directory of entries that name their own key: what its clients (the node, the roster exchange)
  rely on when they look up, store and drop entries.
\<close>

locale directory =
  fixes lookup :: "'d \<Rightarrow> 'k \<Rightarrow> 'v option"
    and store :: "'v \<Rightarrow> 'd \<Rightarrow> 'd"
    and drop_key :: "'k \<Rightarrow> 'd \<Rightarrow> 'd"
    and key_of :: "'v \<Rightarrow> 'k"
    and good :: "'d \<Rightarrow> bool"
  assumes good_store: "good d \<Longrightarrow> good (store v d)"
    and good_drop: "good d \<Longrightarrow> good (drop_key k d)"
    and lookup_store: "good d \<Longrightarrow> lookup (store v d) k = (if k = key_of v then Some v else lookup d k)"
    and lookup_drop: "good d \<Longrightarrow> lookup (drop_key k d) j = (if j = k then None else lookup d j)"
begin

lemma good_stores: "good d \<Longrightarrow> good (foldl (\<lambda>d v. store v d) d vs)"
  by (induction vs arbitrary: d) (simp_all add: good_store)

lemma store_again:
  "good d \<Longrightarrow> key_of v = key_of w \<Longrightarrow> lookup (store w (store v d)) = lookup (store w d)"
  by (rule ext) (simp add: lookup_store good_store)

lemma drop_store: "good d \<Longrightarrow> lookup (drop_key (key_of v) (store v d)) = lookup (drop_key (key_of v) d)"
  by (rule ext) (simp add: lookup_store lookup_drop good_store)

lemma stores_last:
  "good d \<Longrightarrow> lookup (foldl (\<lambda>d v. store v d) d vs) k
   = (case find (\<lambda>v. key_of v = k) (rev vs) of None \<Rightarrow> lookup d k | Some v \<Rightarrow> Some v)"
  by (induction vs rule: rev_induct) (auto simp: lookup_store good_stores)

end

end
