(* ===== verification/Rust_Text.thy ===== *)
theory Rust_Text
  imports Interfaces
begin

text \<open>
  Rust's \<open>str\<close>: a list of Unicode scalar values, its UTF-8 bytes, and the text operations the
  source calls. \<open>utf8_decode\<close> is \<open>String::from_utf8\<close>: it refuses overlong forms, surrogates and
  values above U+10FFFF.
\<close>

type_synonym rstr = "nat list"

definition str_lit :: "string \<Rightarrow> rstr" where
  "str_lit s = map of_char s"

definition is_scalar :: "nat \<Rightarrow> bool" where
  "is_scalar c \<longleftrightarrow> c < 0xD800 \<or> 0xDFFF < c \<and> c < 0x110000"

definition valid_str :: "rstr \<Rightarrow> bool" where
  "valid_str s \<longleftrightarrow> (\<forall>c\<in>set s. is_scalar c)"

definition utf8_char :: "nat \<Rightarrow> byte list" where
  "utf8_char c =
     (if c < 0x80 then [of_nat c]
      else if c < 0x800 then [of_nat (0xC0 + c div 64), of_nat (0x80 + c mod 64)]
      else if c < 0x10000 then
        [of_nat (0xE0 + c div 4096), of_nat (0x80 + c div 64 mod 64), of_nat (0x80 + c mod 64)]
      else
        [of_nat (0xF0 + c div 262144), of_nat (0x80 + c div 4096 mod 64),
         of_nat (0x80 + c div 64 mod 64), of_nat (0x80 + c mod 64)])"

definition utf8 :: "rstr \<Rightarrow> byte list" where
  "utf8 s = concat (map utf8_char s)"

definition is_cont :: "byte \<Rightarrow> bool" where
  "is_cont b \<longleftrightarrow> 0x80 \<le> unat b \<and> unat b < 0xC0"

definition utf8_next :: "byte list \<Rightarrow> (nat \<times> byte list) option" where
  "utf8_next bs =
     (case bs of
        [] \<Rightarrow> None
      | a # r \<Rightarrow>
          if unat a < 0x80 then Some (unat a, r)
          else if unat a < 0xC0 then None
          else if unat a < 0xE0 then
            (case r of
               b # r \<Rightarrow>
                 let c = (unat a - 0xC0) * 64 + (unat b - 0x80) in
                 if is_cont b \<and> 0x80 \<le> c then Some (c, r) else None
             | _ \<Rightarrow> None)
          else if unat a < 0xF0 then
            (case r of
               b # d # r \<Rightarrow>
                 let c = (unat a - 0xE0) * 4096 + (unat b - 0x80) * 64 + (unat d - 0x80) in
                 if is_cont b \<and> is_cont d \<and> 0x800 \<le> c \<and> is_scalar c then Some (c, r) else None
             | _ \<Rightarrow> None)
          else
            (case r of
               b # d # e # r \<Rightarrow>
                 let c = (unat a - 0xF0) * 262144 + (unat b - 0x80) * 4096
                           + (unat d - 0x80) * 64 + (unat e - 0x80) in
                 if unat a < 0xF8 \<and> is_cont b \<and> is_cont d \<and> is_cont e \<and> 0x10000 \<le> c \<and> is_scalar c
                 then Some (c, r) else None
             | _ \<Rightarrow> None))"

lemma utf8_next_shorter: "utf8_next bs = Some (c, r) \<Longrightarrow> length r < length bs"
  by (auto simp: utf8_next_def Let_def split: list.splits if_splits)

function utf8_decode :: "byte list \<Rightarrow> rstr option" where
  "utf8_decode bs =
     (if bs = [] then Some []
      else case utf8_next bs of
             None \<Rightarrow> None
           | Some (c, r) \<Rightarrow> map_option (Cons c) (utf8_decode r))"
  by pat_completeness auto
termination
  by (relation "measure length") (auto dest: utf8_next_shorter)

declare utf8_decode.simps [simp del]

lemma unat_byte: "x < 256 \<Longrightarrow> unat (of_nat x :: byte) = x"
  by (simp add: unat_of_nat)

lemma base64_digits3: "c div 4096 * 4096 + c div 64 mod 64 * 64 + c mod 64 = (c :: nat)"
proof -
  have "c div 4096 = c div 64 div 64"
    by (simp add: div_mult2_eq [symmetric])
  then have "c div 4096 * 64 + c div 64 mod 64 = c div 64"
    by (metis div_mult_mod_eq)
  then have "(c div 4096 * 64 + c div 64 mod 64) * 64 + c mod 64 = c"
    by (metis div_mult_mod_eq)
  then show ?thesis by (simp add: add_mult_distrib)
qed

lemma base64_digits4:
  "c div 262144 * 262144 + c div 4096 mod 64 * 4096 + c div 64 mod 64 * 64 + c mod 64 = (c :: nat)"
proof -
  have "c div 262144 = c div 4096 div 64"
    by (simp add: div_mult2_eq [symmetric])
  then have "c div 262144 * 64 + c div 4096 mod 64 = c div 4096"
    by (metis div_mult_mod_eq)
  then have "(c div 262144 * 64 + c div 4096 mod 64) * 4096 + c div 64 mod 64 * 64 + c mod 64 = c"
    using base64_digits3 [of c] by metis
  then show ?thesis by (simp add: add_mult_distrib)
qed

lemma utf8_next_char:
  assumes "is_scalar c"
  shows "utf8_next (utf8_char c @ rest) = Some (c, rest)"
proof -
  have max: "c < 0x110000" and nosurr: "\<not> (0xD800 \<le> c \<and> c \<le> 0xDFFF)"
    using assms by (auto simp: is_scalar_def)
  have m: "c mod 64 < 64" "c div 64 mod 64 < 64" "c div 4096 mod 64 < 64"
    by simp_all
  consider (one) "c < 0x80" | (two) "0x80 \<le> c" "c < 0x800"
    | (three) "0x800 \<le> c" "c < 0x10000" | (four) "0x10000 \<le> c"
    by linarith
  then show ?thesis
  proof cases
    case one
    then show ?thesis by (simp add: utf8_char_def utf8_next_def unat_byte)
  next
    case two
    then have "c div 64 < 32" by (simp add: less_mult_imp_div_less)
    with two m show ?thesis
      by (simp add: utf8_char_def utf8_next_def unat_byte Let_def is_cont_def del: of_nat_add)
  next
    case three
    then have "c div 4096 < 16" by (simp add: less_mult_imp_div_less)
    with three m assms show ?thesis
      by (simp add: utf8_char_def utf8_next_def unat_byte Let_def is_cont_def base64_digits3 del: of_nat_add)
  next
    case four
    from max have "c div 262144 < 5" by (simp add: less_mult_imp_div_less)
    with four m assms show ?thesis
      by (simp add: utf8_char_def utf8_next_def unat_byte Let_def is_cont_def base64_digits4 del: of_nat_add)
  qed
qed

lemma utf8_char_nonempty: "utf8_char c \<noteq> []"
  by (simp add: utf8_char_def)

interpretation utf8_codec: stream_codec utf8_char utf8_next is_scalar
  by unfold_locales (simp_all add: utf8_next_char utf8_char_nonempty)

lemma utf8_decode_utf8: "valid_str s \<Longrightarrow> utf8_decode (utf8 s) = Some s"
proof (induction s)
  case Nil
  then show ?case by (simp add: utf8_def utf8_decode.simps)
next
  case (Cons c s)
  then have "is_scalar c" and "valid_str s"
    by (simp_all add: valid_str_def)
  moreover have "utf8 (c # s) = utf8_char c @ utf8 s"
    by (simp add: utf8_def)
  ultimately show ?case
    using Cons.IH utf8_codec.enc_nonempty [of c]
    by (subst utf8_decode.simps) (simp add: utf8_next_char)
qed

lemma utf8_next_scalar: "utf8_next bs = Some (c, r) \<Longrightarrow> is_scalar c"
  by (auto simp: utf8_next_def Let_def split: list.splits if_splits)
    (auto simp: is_scalar_def is_cont_def)

lemma utf8_decode_valid: "utf8_decode bs = Some s \<Longrightarrow> valid_str s"
proof (induction bs arbitrary: s rule: utf8_decode.induct)
  case (1 bs)
  show ?case
  proof (cases "bs = []")
    case True
    with "1.prems" show ?thesis by (simp add: utf8_decode.simps valid_str_def)
  next
    case False
    with "1.prems" obtain c r t where "utf8_next bs = Some (c, r)" "utf8_decode r = Some t" "s = c # t"
      by (subst (asm) utf8_decode.simps) (auto split: option.splits)
    with "1.IH" False show ?thesis
      by (auto simp: valid_str_def dest: utf8_next_scalar)
  qed
qed

lemma utf8_inject: "valid_str s \<Longrightarrow> valid_str t \<Longrightarrow> utf8 s = utf8 t \<longleftrightarrow> s = t"
  by (metis utf8_decode_utf8 option.inject)

section \<open>Character classes and trimming\<close>

text \<open>\<open>char::is_whitespace\<close>: the Unicode property \<open>White_Space\<close>.\<close>

definition is_whitespace :: "nat \<Rightarrow> bool" where
  "is_whitespace c \<longleftrightarrow>
     9 \<le> c \<and> c \<le> 13 \<or> c = 32 \<or> c = 0x85 \<or> c = 0xA0 \<or> c = 0x1680 \<or> 0x2000 \<le> c \<and> c \<le> 0x200A
     \<or> c = 0x2028 \<or> c = 0x2029 \<or> c = 0x202F \<or> c = 0x205F \<or> c = 0x3000"

definition trim_end :: "rstr \<Rightarrow> rstr" where
  "trim_end s = rev (dropWhile is_whitespace (rev s))"

definition trim :: "rstr \<Rightarrow> rstr" where
  "trim s = trim_end (dropWhile is_whitespace s)"

text \<open>\<open>char::to_ascii_uppercase\<close>.\<close>

definition to_ascii_uppercase :: "nat \<Rightarrow> nat" where
  "to_ascii_uppercase c = (if 97 \<le> c \<and> c \<le> 122 then c - 32 else c)"

lemma trim_end_idem [simp]: "trim_end (trim_end s) = trim_end s"
  by (simp add: trim_end_def)

lemma set_trim_end: "set (trim_end s) \<subseteq> set s"
  by (auto simp: trim_end_def dest: set_dropWhileD)

lemma dropWhile_append_all: "\<forall>x\<in>set xs. P x \<Longrightarrow> dropWhile P (xs @ ys) = dropWhile P ys"
  by (induction xs) auto

lemma trim_end_append_ws:
  "\<forall>c\<in>set w. is_whitespace c \<Longrightarrow> trim_end (s @ w) = trim_end s"
  by (simp add: trim_end_def dropWhile_append_all)

lemma valid_trim_end: "valid_str s \<Longrightarrow> valid_str (trim_end s)"
  using set_trim_end by (auto simp: valid_str_def)

lemma utf8_ascii: "(\<forall>c\<in>set s. c < 128) \<Longrightarrow> utf8 s = map of_nat s"
  by (induction s) (simp_all add: utf8_def utf8_char_def)

end
