(* ===== verification/Clipboard_Content.thy ===== *)
theory Clipboard_Content
  imports Rust_Text
begin

text \<open>
  \<open>crates/cled-clipboard/src/content.rs\<close>, \<open>snapshot.rs\<close> and \<open>detector.rs\<close>: what the clipboard can
  hold, its identity for change detection, and the detector itself. \<open>usize\<close> is 64 bits wide. The
  standard library's \<open>DefaultHasher\<close> is a parameter \<open>hasher\<close> that maps the sequence of writes the
  \<open>Hash\<close> implementations make to a 64-bit value.
\<close>

section \<open>Content\<close>

record pixel_image =
  img_width :: u32
  img_height :: u32
  img_rgba :: "byte list"

datatype content = Text rstr | Image pixel_image

definition checked_mul :: "'a::len word \<Rightarrow> 'a word \<Rightarrow> 'a word option" where
  "checked_mul a b = (if unat a * unat b < 2 ^ LENGTH('a) then Some (a * b) else None)"

definition rgba_len :: "u32 \<Rightarrow> u32 \<Rightarrow> u64 option" where
  "rgba_len width height =
     (case checked_mul (ucast width) (ucast height) of
        None \<Rightarrow> None
      | Some n \<Rightarrow> checked_mul n 4)"

definition from_rgba :: "u32 \<Rightarrow> u32 \<Rightarrow> byte list \<Rightarrow> pixel_image option" where
  "from_rgba width height rgba =
     (if Some (length rgba) = map_option unat (rgba_len width height)
      then Some \<lparr>img_width = width, img_height = height, img_rgba = rgba\<rparr> else None)"

text \<open>\<open>text.replace("\r\n", "\n").replace('\r', "\n")\<close>, only when there is a carriage return.\<close>

fun replace_crlf :: "rstr \<Rightarrow> rstr" where
  "replace_crlf [] = []"
| "replace_crlf [c] = [c]"
| "replace_crlf (c # d # s) =
     (if c = 13 \<and> d = 10 then 10 # replace_crlf s else c # replace_crlf (d # s))"

definition normalize_line_endings :: "rstr \<Rightarrow> rstr" where
  "normalize_line_endings text =
     (if 13 \<in> set text then map (\<lambda>c. if c = 13 then 10 else c) (replace_crlf text) else text)"

definition content_text :: "rstr \<Rightarrow> content" where
  "content_text text = Text (normalize_line_endings text)"

definition identity_text :: "rstr \<Rightarrow> rstr" where
  "identity_text text = trim_end text"

section \<open>Identity for change detection\<close>

text \<open>What the \<open>Hash\<close> implementations write into the hasher.\<close>

datatype hash_write =
    HU8 byte
  | HStr "byte list"
  | HU32 u32
  | HLen nat
  | HBytes "byte list"
  | HDiscriminant nat

definition image_hash :: "pixel_image \<Rightarrow> hash_write list" where
  "image_hash i =
     [HU32 (img_width i), HU32 (img_height i), HLen (length (img_rgba i)), HBytes (img_rgba i)]"

fun content_hash_writes :: "content \<Rightarrow> hash_write list" where
  "content_hash_writes (Text text) = [HU8 0, HStr (utf8 (trim_end text))]"
| "content_hash_writes (Image img) = HU8 1 # image_hash img"

definition fingerprint :: "(hash_write list \<Rightarrow> u64) \<Rightarrow> hash_write list \<Rightarrow> u64" where
  "fingerprint hasher value = hasher value"

definition max_image_bytes :: nat where
  "max_image_bytes = 64 * 1024 * 1024"

datatype skip_reason = Sensitive | TooLarge u32 u32

datatype snapshot = Empty | Content content | Skipped skip_reason

fun skip_hash_writes :: "skip_reason \<Rightarrow> hash_write list" where
  "skip_hash_writes Sensitive = [HDiscriminant 0]"
| "skip_hash_writes (TooLarge width height) = [HDiscriminant 1, HU32 width, HU32 height]"

fun snapshot_fingerprint :: "(hash_write list \<Rightarrow> u64) \<Rightarrow> snapshot \<Rightarrow> u64 option" where
  "snapshot_fingerprint hasher Empty = None"
| "snapshot_fingerprint hasher (Content content) =
     Some (fingerprint hasher (HStr (utf8 (str_lit ''content'')) # content_hash_writes content))"
| "snapshot_fingerprint hasher (Skipped reason) =
     Some (fingerprint hasher (HStr (utf8 (str_lit ''skipped'')) # skip_hash_writes reason))"

section \<open>Change detector\<close>

record change_detector =
  det_last :: "u64 option"

definition detector_default :: change_detector where
  "detector_default = \<lparr>det_last = None\<rparr>"

definition baseline ::
  "(hash_write list \<Rightarrow> u64) \<Rightarrow> change_detector \<Rightarrow> snapshot \<Rightarrow> change_detector" where
  "baseline hasher d snap = d\<lparr>det_last := snapshot_fingerprint hasher snap\<rparr>"

definition observe ::
  "(hash_write list \<Rightarrow> u64) \<Rightarrow> change_detector \<Rightarrow> snapshot \<Rightarrow> bool \<times> change_detector" where
  "observe hasher d snap =
     (let current = snapshot_fingerprint hasher snap;
          changed = current \<noteq> None \<and> current \<noteq> det_last d
      in (changed, d\<lparr>det_last := current\<rparr>))"

text \<open>The snapshots a sequence of observations reports as changes.\<close>

fun observe_all ::
  "(hash_write list \<Rightarrow> u64) \<Rightarrow> change_detector \<Rightarrow> snapshot list \<Rightarrow> snapshot list" where
  "observe_all hasher d [] = []"
| "observe_all hasher d (s # ss) =
     (let (changed, d') = observe hasher d s
      in (if changed then [s] else []) @ observe_all hasher d' ss)"

section \<open>Specification of identity\<close>

text \<open>
  The documented identity: exact pixels and dimensions for images, text up to trailing
  whitespace, and one identity per reason for skipped content.
\<close>

fun same_copy :: "snapshot \<Rightarrow> snapshot \<Rightarrow> bool" where
  "same_copy Empty Empty = True"
| "same_copy (Content (Text s)) (Content (Text t)) = (trim_end s = trim_end t)"
| "same_copy (Content (Image i)) (Content (Image j)) = (i = j)"
| "same_copy (Skipped r) (Skipped q) = (r = q)"
| "same_copy _ _ = False"

text \<open>The changes a user would count: non-empty, and not the same copy as what was there before.\<close>

fun real_changes :: "snapshot \<Rightarrow> snapshot list \<Rightarrow> snapshot list" where
  "real_changes before [] = []"
| "real_changes before (s # ss) =
     (if s \<noteq> Empty \<and> \<not> same_copy s before then [s] else []) @ real_changes s ss"

fun valid_content :: "content \<Rightarrow> bool" where
  "valid_content (Text s) = valid_str s"
| "valid_content (Image i) = (from_rgba (img_width i) (img_height i) (img_rgba i) = Some i)"

fun valid_snapshot :: "snapshot \<Rightarrow> bool" where
  "valid_snapshot (Content c) = valid_content c"
| "valid_snapshot _ = True"

text \<open>Everything a snapshot writes into the hasher; nothing for an empty clipboard.\<close>

fun snapshot_writes :: "snapshot \<Rightarrow> hash_write list" where
  "snapshot_writes Empty = []"
| "snapshot_writes (Content c) = HStr (utf8 (str_lit ''content'')) # content_hash_writes c"
| "snapshot_writes (Skipped r) = HStr (utf8 (str_lit ''skipped'')) # skip_hash_writes r"

section \<open>Lemmas\<close>

lemma checked_mul_Some:
  "checked_mul a b = Some (c :: 'a::len word) \<Longrightarrow> unat c = unat a * unat b"
  by (auto simp: checked_mul_def unat_word_ariths split: if_splits)

lemma rgba_len_nat:
  "map_option unat (rgba_len w h) =
     (if unat w * unat h * 4 < 2 ^ 64 then Some (unat w * unat h * 4) else None)"
proof -
  have unat_up_word: "unat (ucast x :: u64) = unat x" for x :: u32
  proof -
    have "unat x < 2 ^ 32" using unsigned_less [of x, where 'a = nat] by simp
    then show ?thesis by (simp add: unsigned_ucast_eq take_bit_nat_eq_self)
  qed
  have w: "unat (ucast w :: u64) = unat w" and h: "unat (ucast h :: u64) = unat h"
    by (simp_all add: unat_up_word)
  show ?thesis
    by (auto simp: rgba_len_def checked_mul_def w h unat_word_ariths mult.commute
        split: option.splits)
qed

lemma from_rgba_Some_iff:
  "from_rgba w h rgba = Some i \<longleftrightarrow>
     i = \<lparr>img_width = w, img_height = h, img_rgba = rgba\<rparr> \<and>
     length rgba = unat w * unat h * 4 \<and> unat w * unat h * 4 < 2 ^ 64"
  by (auto simp: from_rgba_def rgba_len_nat split: if_splits)

lemma normalize_no_cr: "13 \<notin> set (normalize_line_endings s)"
  by (auto simp: normalize_line_endings_def)

lemma normalize_idem [simp]:
  "normalize_line_endings (normalize_line_endings s) = normalize_line_endings s"
  using normalize_no_cr by (simp add: normalize_line_endings_def [of "normalize_line_endings s"])

lemma normalize_id: "13 \<notin> set s \<Longrightarrow> normalize_line_endings s = s"
  by (simp add: normalize_line_endings_def)

lemma replace_crlf_no_cr: "13 \<notin> set s \<Longrightarrow> replace_crlf s = s"
  by (induction s rule: replace_crlf.induct) auto

lemma set_replace_crlf: "set (replace_crlf s) \<subseteq> set s"
  by (induction s rule: replace_crlf.induct) auto

lemma valid_normalize: "valid_str s \<Longrightarrow> valid_str (normalize_line_endings s)"
  using set_replace_crlf by (auto simp: normalize_line_endings_def valid_str_def is_scalar_def)

lemma literal_prefixes_differ: "utf8 (str_lit ''content'') \<noteq> utf8 (str_lit ''skipped'')"
  by (simp add: str_lit_def utf8_def utf8_char_def)

lemma snapshot_fingerprint_eq:
  "snapshot_fingerprint h s = (if s = Empty then None else Some (h (snapshot_writes s)))"
  by (cases s) (auto simp: fingerprint_def)

lemma snapshot_writes_same_copy:
  assumes "valid_snapshot s" and "valid_snapshot t"
  shows "snapshot_writes s = snapshot_writes t \<longleftrightarrow> same_copy s t"
proof (cases "(s, t)" rule: same_copy.cases)
  case (2 a b)
  with assms have "utf8 (trim_end a) = utf8 (trim_end b) \<longleftrightarrow> trim_end a = trim_end b"
    by (intro utf8_inject) (auto intro: valid_trim_end)
  with 2 show ?thesis by simp
next
  case (4 r q)
  then show ?thesis by (cases r; cases q) auto
qed (auto simp: image_hash_def literal_prefixes_differ literal_prefixes_differ [symmetric]
    intro: pixel_image.equality)

lemma det_last_observe [simp]:
  "det_last (snd (observe h d s)) = snapshot_fingerprint h s"
  by (simp add: observe_def Let_def)

lemma fst_observe:
  "fst (observe h d s) \<longleftrightarrow> snapshot_fingerprint h s \<noteq> None \<and> snapshot_fingerprint h s \<noteq> det_last d"
  by (auto simp: observe_def Let_def)

lemma observe_is_change:
  assumes "valid_snapshot s" and "valid_snapshot before"
    and "inj_on h {snapshot_writes s, snapshot_writes before}"
    and "det_last d = snapshot_fingerprint h before"
  shows "fst (observe h d s) \<longleftrightarrow> s \<noteq> Empty \<and> \<not> same_copy s before"
proof (cases "before = Empty")
  case True
  with assms(4) show ?thesis
    by (cases s) (auto simp: fst_observe snapshot_fingerprint_eq)
next
  case False
  moreover have "h (snapshot_writes s) = h (snapshot_writes before) \<longleftrightarrow> same_copy s before"
    using inj_on_eq_iff [OF assms(3)] snapshot_writes_same_copy [OF assms(1,2)] by simp
  ultimately show ?thesis
    using assms(4) by (auto simp: fst_observe snapshot_fingerprint_eq)
qed

lemma observe_all_real_changes:
  assumes "\<forall>s\<in>set (before # ss). valid_snapshot s"
    and "inj_on h (snapshot_writes ` set (before # ss))"
    and "det_last d = snapshot_fingerprint h before"
  shows "observe_all h d ss = real_changes before ss"
  using assms
proof (induction ss arbitrary: before d)
  case (Cons s ss)
  have "fst (observe h d s) \<longleftrightarrow> s \<noteq> Empty \<and> \<not> same_copy s before"
  proof (rule observe_is_change)
    show "inj_on h {snapshot_writes s, snapshot_writes before}"
      by (rule inj_on_subset [OF Cons.prems(2)]) auto
  qed (use Cons.prems in auto)
  moreover have "observe_all h (snd (observe h d s)) ss = real_changes s ss"
  proof (rule Cons.IH)
    show "inj_on h (snapshot_writes ` set (s # ss))"
      by (rule inj_on_subset [OF Cons.prems(2)]) auto
  qed (use Cons.prems in auto)
  ultimately show ?case
    by (cases "observe h d s") simp
qed simp

section \<open>Properties\<close>

text \<open>
  From the clipboard at startup on, the detector reports exactly the observations that differ
  from the previous one in identity: never an empty clipboard, never the startup content, never
  text that differs only in trailing whitespace, and the same content again after the clipboard
  was cleared. The hash must not collide on the snapshots observed.
\<close>

theorem detector_reports_real_changes:
  assumes "\<forall>s\<in>set (startup # ss). valid_snapshot s"
    and "inj_on hasher (snapshot_writes ` set (startup # ss))"
  shows "observe_all hasher (baseline hasher detector_default startup) ss = real_changes startup ss"
  using assms by (intro observe_all_real_changes) (simp_all add: baseline_def)

theorem detector_reports_real_changes_witness:
  defines "a \<equiv> Content (Text (str_lit ''a''))" and "b \<equiv> Content (Text (str_lit ''a ''))"
  shows "observe_all (\<lambda>ws. of_nat (length ws))
           (baseline (\<lambda>ws. of_nat (length ws)) detector_default a) [b, Skipped Sensitive, Empty, a]
         = [Skipped Sensitive, a]"
proof -
  have "\<forall>s\<in>set [a, b, Skipped Sensitive, Empty, a]. valid_snapshot s"
    by (simp add: a_def b_def valid_str_def str_lit_def is_scalar_def)
  moreover have "inj_on (\<lambda>ws. of_nat (length ws) :: u64)
      (snapshot_writes ` set [a, b, Skipped Sensitive, Empty, a])"
    by (auto simp: a_def b_def str_lit_def trim_end_def is_whitespace_def)
  ultimately have "observe_all (\<lambda>ws. of_nat (length ws))
           (baseline (\<lambda>ws. of_nat (length ws)) detector_default a) [b, Skipped Sensitive, Empty, a]
         = real_changes a [b, Skipped Sensitive, Empty, a]"
    by (rule detector_reports_real_changes)
  then show ?thesis
    by (simp add: a_def b_def str_lit_def trim_end_def is_whitespace_def)
qed

text \<open>
  The two \<open>replace\<close> calls behind \<open>normalize_line_endings\<close> amount to one pass that turns each of
  \<open>\r\n\<close>, \<open>\r\<close> and \<open>\n\<close> into one \<open>\n\<close>.
\<close>

fun one_pass_newlines :: "rstr \<Rightarrow> rstr" where
  "one_pass_newlines [] = []"
| "one_pass_newlines [c] = [if c = 13 then 10 else c]"
| "one_pass_newlines (c # d # s) =
     (if c = 13 then 10 # one_pass_newlines (if d = 10 then s else d # s)
      else c # one_pass_newlines (d # s))"

lemma one_pass_replace:
  "map (\<lambda>c. if c = 13 then 10 else c) (replace_crlf s) = one_pass_newlines s"
  by (induction s rule: one_pass_newlines.induct) auto

lemma one_pass_id: "13 \<notin> set s \<Longrightarrow> one_pass_newlines s = s"
  by (induction s rule: one_pass_newlines.induct) auto

text \<open>
  Line-ending normalization is one left-to-right pass that maps every line ending to \<open>\n\<close>; its
  result has no carriage return and normalizing again changes nothing.
\<close>

theorem normalize_line_endings_one_pass:
  "normalize_line_endings s = one_pass_newlines s
   \<and> 13 \<notin> set (normalize_line_endings s)
   \<and> normalize_line_endings (normalize_line_endings s) = normalize_line_endings s"
  using normalize_no_cr one_pass_replace one_pass_id by (simp add: normalize_line_endings_def)

text \<open>
  An image is created exactly when its buffer holds \<open>width * height * 4\<close> bytes; the
  dimensions that overflow \<open>usize\<close> are refused instead of wrapping around.
\<close>

theorem from_rgba_exact_buffer:
  "from_rgba w h rgba = Some i \<longleftrightarrow>
     i = \<lparr>img_width = w, img_height = h, img_rgba = rgba\<rparr> \<and>
     length rgba = unat w * unat h * 4 \<and> unat w * unat h * 4 < 2 ^ 64"
  by (rule from_rgba_Some_iff)

end
