(* ===== verification/Sync_Item.thy ===== *)
theory Sync_Item
  imports Clipboard_Content
begin

text \<open>
  \<open>crates/cled-sync/src/ids.rs\<close> and \<open>item.rs\<close>: device and item identifiers, the content hash, and
  one copy as it travels between devices. A UUID is its 128-bit number. The \<open>uuid\<close> crate's text
  form (\<open>uuid_fmt\<close>, \<open>uuid_parse\<close>), the \<open>blake3\<close> crate, fresh identifiers and the clock are
  parameters. A \<open>SystemTime\<close> is its distance from the Unix epoch in nanoseconds.
\<close>

section \<open>Identifiers\<close>

datatype device_id = DeviceId (device_uuid: "128 word")

datatype item_id = ItemId (item_uuid: "128 word")

text \<open>The derived \<open>Ord\<close>: a \<open>Uuid\<close> is ordered by its sixteen bytes, most significant first.\<close>

instantiation device_id :: linorder
begin
definition less_eq_device_id :: "device_id \<Rightarrow> device_id \<Rightarrow> bool" where
  "less_eq_device_id a b \<longleftrightarrow> device_uuid a \<le> device_uuid b"
definition less_device_id :: "device_id \<Rightarrow> device_id \<Rightarrow> bool" where
  "less_device_id a b \<longleftrightarrow> device_uuid a < device_uuid b"
instance
  by standard (auto simp: less_eq_device_id_def less_device_id_def device_id.expand)
end

instantiation item_id :: linorder
begin
definition less_eq_item_id :: "item_id \<Rightarrow> item_id \<Rightarrow> bool" where
  "less_eq_item_id a b \<longleftrightarrow> item_uuid a \<le> item_uuid b"
definition less_item_id :: "item_id \<Rightarrow> item_id \<Rightarrow> bool" where
  "less_item_id a b \<longleftrightarrow> item_uuid a < item_uuid b"
instance
  by standard (auto simp: less_eq_item_id_def less_item_id_def item_id.expand)
end

definition device_id_from_bytes :: "byte list \<Rightarrow> device_id" where
  "device_id_from_bytes bytes = DeviceId (be_word bytes)"

definition device_id_to_bytes :: "device_id \<Rightarrow> byte list" where
  "device_id_to_bytes d = be_bytes (device_uuid d)"

definition device_id_fmt :: "(128 word \<Rightarrow> rstr) \<Rightarrow> device_id \<Rightarrow> rstr" where
  "device_id_fmt uuid_fmt d = uuid_fmt (device_uuid d)"

definition device_id_from_str :: "(rstr \<Rightarrow> 128 word option) \<Rightarrow> rstr \<Rightarrow> device_id option" where
  "device_id_from_str uuid_parse s = map_option DeviceId (uuid_parse (trim s))"

definition item_id_from_bytes :: "byte list \<Rightarrow> item_id" where
  "item_id_from_bytes bytes = ItemId (be_word bytes)"

definition item_id_to_bytes :: "item_id \<Rightarrow> byte list" where
  "item_id_to_bytes i = be_bytes (item_uuid i)"

section \<open>Content hash\<close>

datatype content_hash = ContentHash (hash_bytes: "byte list")

text \<open>What \<open>ContentHash::of\<close> feeds to BLAKE3, in order.\<close>

fun hash_input :: "content \<Rightarrow> byte list" where
  "hash_input (Text text) = utf8 (str_lit ''cled:text'' @ [0]) @ utf8 (identity_text text)"
| "hash_input (Image img) =
     utf8 (str_lit ''cled:image'' @ [0]) @ le_bytes (img_width img) @ le_bytes (img_height img)
       @ img_rgba img"

definition content_hash_of :: "(byte list \<Rightarrow> byte list) \<Rightarrow> content \<Rightarrow> content_hash" where
  "content_hash_of blake3 c = ContentHash (blake3 (hash_input c))"

section \<open>Clipboard items\<close>

record clipboard_item =
  it_id :: item_id
  it_origin :: device_id
  it_hash :: content_hash
  it_created :: int
  it_content :: content

definition item_new ::
  "(byte list \<Rightarrow> byte list) \<Rightarrow> item_id \<Rightarrow> int \<Rightarrow> device_id \<Rightarrow> content \<Rightarrow> clipboard_item" where
  "item_new blake3 fresh now origin content =
     \<lparr>it_id = fresh, it_origin = origin, it_hash = content_hash_of blake3 content,
      it_created = now, it_content = content\<rparr>"

definition is_intact :: "(byte list \<Rightarrow> byte list) \<Rightarrow> clipboard_item \<Rightarrow> bool" where
  "is_intact blake3 item \<longleftrightarrow> content_hash_of blake3 (it_content item) = it_hash item"

section \<open>Lemmas\<close>

lemma device_id_from_to_bytes [simp]: "device_id_from_bytes (device_id_to_bytes d) = d"
  by (simp add: device_id_from_bytes_def device_id_to_bytes_def be_word_be_bytes)

lemma device_id_to_from_bytes:
  "length bs = 16 \<Longrightarrow> device_id_to_bytes (device_id_from_bytes bs) = bs"
  by (simp add: device_id_from_bytes_def device_id_to_bytes_def be_bytes_be_word)

lemma item_id_from_to_bytes [simp]: "item_id_from_bytes (item_id_to_bytes i) = i"
  by (simp add: item_id_from_bytes_def item_id_to_bytes_def be_word_be_bytes)

lemma length_device_id_to_bytes [simp]: "length (device_id_to_bytes d) = 16"
  by (simp add: device_id_to_bytes_def length_be_bytes)

lemma length_item_id_to_bytes [simp]: "length (item_id_to_bytes i) = 16"
  by (simp add: item_id_to_bytes_def length_be_bytes)

lemma utf8_append: "utf8 (a @ b) = utf8 a @ utf8 b"
  by (simp add: utf8_def)

lemma hash_prefixes:
  "utf8 (str_lit ''cled:text'' @ [0]) = map of_char ''cled:text'' @ [0]"
  "utf8 (str_lit ''cled:image'' @ [0]) = map of_char ''cled:image'' @ [0]"
  by (simp_all add: str_lit_def utf8_def utf8_char_def)

lemma hash_input_text_image: "hash_input (Text s) \<noteq> hash_input (Image i)"
  by (simp add: hash_prefixes)

lemma hash_input_image_inject: "hash_input (Image i) = hash_input (Image j) \<longleftrightarrow> i = j"
proof
  assume "hash_input (Image i) = hash_input (Image j)"
  then have "le_bytes (img_width i) = le_bytes (img_width j)"
    and "le_bytes (img_height i) = le_bytes (img_height j)" and "img_rgba i = img_rgba j"
    by (simp_all add: length_le_bytes)
  then show "i = j"
    by (simp add: le_bytes_inject)
qed simp

lemma hash_input_same_copy:
  assumes "valid_content c" and "valid_content d"
  shows "hash_input c = hash_input d \<longleftrightarrow> same_copy (Content c) (Content d)"
proof (cases c; cases d)
  fix s t
  assume *: "c = Text s" "d = Text t"
  with assms have "utf8 (trim_end s) = utf8 (trim_end t) \<longleftrightarrow> trim_end s = trim_end t"
    by (intro utf8_inject) (auto intro: valid_trim_end)
  with * show ?thesis by (simp add: identity_text_def)
next
  fix i j
  assume "c = Image i" "d = Image j"
  then show ?thesis using hash_input_image_inject [of i j] by simp
qed (use hash_input_text_image in \<open>metis same_copy.simps\<close>)+

lemma content_hash_same_copy: "same_copy (Content c) (Content d) \<Longrightarrow> content_hash_of b c = content_hash_of b d"
  by (cases c; cases d) (simp_all add: content_hash_of_def identity_text_def)

lemma item_new_simps [simp]:
  "it_id (item_new b i t d c) = i" "it_origin (item_new b i t d c) = d"
  "it_hash (item_new b i t d c) = content_hash_of b c" "it_created (item_new b i t d c) = t"
  "it_content (item_new b i t d c) = c"
  by (simp_all add: item_new_def)

lemma is_intact_item_new [simp]: "is_intact b (item_new b i t d c)"
  by (simp add: is_intact_def)

section \<open>Properties\<close>

text \<open>
  The bytes that are hashed determine the documented identity and nothing else: two contents
  feed the same bytes to BLAKE3 exactly when they are the same image, or texts equal up to trailing
  whitespace. Text and image bytes never coincide.
\<close>

theorem content_hash_is_identity:
  assumes "valid_content c" and "valid_content d" and "inj_on blake3 {hash_input c, hash_input d}"
  shows "content_hash_of blake3 c = content_hash_of blake3 d \<longleftrightarrow> same_copy (Content c) (Content d)"
  using assms hash_input_same_copy [OF assms(1,2)] inj_on_eq_iff [OF assms(3)]
  by (simp add: content_hash_of_def)

theorem content_hash_is_identity_witness:
  "content_hash_of id (Text (str_lit ''a '')) = content_hash_of id (Text (str_lit ''a''))
   \<longleftrightarrow> same_copy (Content (Text (str_lit ''a ''))) (Content (Text (str_lit ''a'')))"
  by (rule content_hash_is_identity) (simp_all add: valid_str_def str_lit_def is_scalar_def)

text \<open>
  A device identifier survives the wire and comparing identifiers is comparing their sixteen
  wire bytes, so two devices agree on every tie-break however they hold the identifier.
\<close>

theorem device_id_order_is_byte_order:
  "device_id_from_bytes (device_id_to_bytes a) = a
   \<and> (byte_less (device_id_to_bytes a) (device_id_to_bytes b) \<longleftrightarrow> a < b)"
  by (simp add: device_id_to_bytes_def be_bytes_less_iff less_device_id_def device_id_from_bytes_def
      be_word_be_bytes)

end
