(* ===== verification/Recent.thy ===== *)
theory Recent
  imports Interfaces
begin

text \<open>
  \<open>crates/cled-sync/src/recent.rs\<close>: \<open>RecentSet\<close>, a set that remembers the most recent
  \<open>capacity\<close> values. \<open>rs_order\<close> is the \<open>VecDeque\<close>, oldest first, \<open>rs_members\<close> the \<open>HashSet\<close>.
\<close>

record 'a recent_set =
  rs_order :: "'a list"
  rs_members :: "'a set"
  rs_capacity :: nat

definition recent_new :: "nat \<Rightarrow> 'a recent_set" where
  "recent_new capacity = \<lparr>rs_order = [], rs_members = {}, rs_capacity = capacity\<rparr>"

definition recent_insert :: "'a \<Rightarrow> 'a recent_set \<Rightarrow> bool \<times> 'a recent_set" where
  "recent_insert v s =
     (if v \<in> rs_members s then (False, s)
      else let s = s\<lparr>rs_members := insert v (rs_members s), rs_order := rs_order s @ [v]\<rparr>
           in if rs_capacity s < length (rs_order s)
              then (case rs_order s of
                      [] \<Rightarrow> (True, s)
                    | oldest # rest \<Rightarrow>
                        (True, s\<lparr>rs_order := rest, rs_members := rs_members s - {oldest}\<rparr>))
              else (True, s))"

fun recent_insert_all :: "'a list \<Rightarrow> 'a recent_set \<Rightarrow> bool list" where
  "recent_insert_all [] s = []"
| "recent_insert_all (v # vs) s = (let (b, s') = recent_insert v s in b # recent_insert_all vs s')"

section \<open>Specification\<close>

text \<open>The memory as a log of everything accepted so far, of which the last \<open>n\<close> entries count.\<close>

definition last_n :: "nat \<Rightarrow> 'a list \<Rightarrow> 'a list" where
  "last_n n xs = drop (length xs - n) xs"

fun accept_spec :: "nat \<Rightarrow> 'a list \<Rightarrow> 'a list \<Rightarrow> bool list" where
  "accept_spec n log [] = []"
| "accept_spec n log (v # vs) =
     (v \<notin> set (last_n n log)) # accept_spec n (if v \<in> set (last_n n log) then log else log @ [v]) vs"

definition recent_inv :: "'a recent_set \<Rightarrow> bool" where
  "recent_inv s \<longleftrightarrow>
     distinct (rs_order s) \<and> rs_members s = set (rs_order s)
     \<and> length (rs_order s) \<le> rs_capacity s \<and> 0 < rs_capacity s"

section \<open>Lemmas\<close>

lemma recent_inv_new: "0 < n \<Longrightarrow> recent_inv (recent_new n)"
  by (simp add: recent_inv_def recent_new_def)

lemma fst_recent_insert: "fst (recent_insert v s) \<longleftrightarrow> v \<notin> rs_members s"
  by (simp add: recent_insert_def Let_def split: list.split)

lemma recent_capacity_insert [simp]: "rs_capacity (snd (recent_insert v s)) = rs_capacity s"
  by (simp add: recent_insert_def Let_def split: list.split)

lemma recent_order_insert:
  assumes "recent_inv s"
  shows "rs_order (snd (recent_insert v s)) =
    (if v \<in> rs_members s then rs_order s
     else if length (rs_order s) < rs_capacity s then rs_order s @ [v]
     else tl (rs_order s) @ [v])"
  using assms
  by (cases "rs_order s") (auto simp: recent_insert_def Let_def recent_inv_def)

lemma recent_inv_insert: "recent_inv s \<Longrightarrow> recent_inv (snd (recent_insert v s))"
  by (cases "rs_order s") (auto simp: recent_insert_def Let_def recent_inv_def)

lemma recent_mem_insert:
  "recent_inv s \<Longrightarrow> v \<in> rs_members (snd (recent_insert v s))"
  by (cases "rs_order s") (auto simp: recent_insert_def Let_def recent_inv_def)

lemma recent_only_insert:
  "rs_members (snd (recent_insert v s)) \<subseteq> insert v (rs_members s)"
  by (auto simp: recent_insert_def Let_def split: list.splits)

interpretation recent: seen_memory recent_insert rs_members recent_inv
  by unfold_locales
    (auto simp: recent_inv_insert fst_recent_insert recent_mem_insert dest: subsetD [OF recent_only_insert])

text \<open>A value stays until as many other values as the capacity has been recorded after it.\<close>

definition recent_age :: "'a \<Rightarrow> nat \<Rightarrow> 'a recent_set \<Rightarrow> bool" where
  "recent_age v n s \<longleftrightarrow> (\<exists>as bs. rs_order s = as @ v # bs \<and> length bs \<le> n)"

lemma recent_age_member: "recent_inv s \<Longrightarrow> recent_age v n s \<Longrightarrow> v \<in> rs_members s"
  unfolding recent_age_def recent_inv_def by (elim exE conjE) simp

lemma recent_age_mono: "recent_age v m s \<Longrightarrow> m \<le> n \<Longrightarrow> recent_age v n s"
  unfolding recent_age_def by (meson order_trans)

lemma recent_age_insert_new:
  assumes "recent_inv s" and "v \<notin> rs_members s"
  shows "recent_age v 0 (snd (recent_insert v s))"
  using assms by (auto simp: recent_age_def recent_order_insert)

lemma recent_age_insert:
  assumes inv: "recent_inv s" and "recent_age v n s" and small: "Suc n < rs_capacity s"
  shows "recent_age v (Suc n) (snd (recent_insert w s))"
proof -
  obtain as bs where o: "rs_order s = as @ v # bs" and n: "length bs \<le> n"
    using assms by (auto simp: recent_age_def)
  show ?thesis
  proof (cases "w \<in> rs_members s")
    case True
    with o n inv show ?thesis
      unfolding recent_age_def recent_order_insert [OF inv] by (metis le_SucI)
  next
    case False
    have "length (bs @ [w]) \<le> Suc n" using n by simp
    moreover have "\<exists>as'. rs_order (snd (recent_insert w s)) = as' @ v # (bs @ [w])"
    proof (cases as)
      case Nil
      with o n small have "length (rs_order s) < rs_capacity s" by simp
      with o False show ?thesis by (simp add: recent_order_insert [OF inv])
    next
      case (Cons a as')
      with o False show ?thesis by (cases "length (rs_order s) < rs_capacity s")
          (simp_all add: recent_order_insert [OF inv])
    qed
    ultimately show ?thesis unfolding recent_age_def by blast
  qed
qed

lemma length_last_n: "length (last_n n xs) = min n (length xs)"
  by (simp add: last_n_def)

lemma last_n_snoc:
  "0 < n \<Longrightarrow> last_n n (xs @ [x]) = (if length xs < n then xs @ [x] else tl (last_n n xs) @ [x])"
proof -
  assume "0 < n"
  show ?thesis
  proof (cases "length xs < n")
    case False
    with \<open>0 < n\<close> have "Suc (length xs) - n = Suc (length xs - n)" and "length xs - n < length xs"
      by simp_all
    with False show ?thesis
      by (simp add: last_n_def drop_Suc tl_drop)
  qed (simp add: last_n_def)
qed

lemma recent_accepts_spec:
  assumes "recent_inv s" and "rs_order s = last_n (rs_capacity s) log"
  shows "recent_insert_all vs s = accept_spec (rs_capacity s) log vs"
  using assms
proof (induction vs arbitrary: s log)
  case (Cons v vs)
  let ?s = "snd (recent_insert v s)" and ?n = "rs_capacity s"
  let ?log = "if v \<in> set (last_n ?n log) then log else log @ [v]"
  have mem: "rs_members s = set (last_n ?n log)" and "0 < ?n"
    using Cons.prems by (simp_all add: recent_inv_def)
  have "length (rs_order s) < ?n \<Longrightarrow> rs_order s = log"
    using Cons.prems(2) by (auto simp: length_last_n) (simp add: last_n_def)
  then have "rs_order ?s = last_n ?n ?log"
    using Cons.prems mem \<open>0 < ?n\<close>
    by (auto simp: recent_order_insert last_n_snoc length_last_n)
  then have "recent_insert_all vs ?s = accept_spec ?n ?log vs"
    using Cons.IH [of ?s ?log] Cons.prems(1) by (simp add: recent_inv_insert)
  moreover have "fst (recent_insert v s) \<longleftrightarrow> v \<notin> set (last_n ?n log)"
    by (simp add: fst_recent_insert mem)
  ultimately show ?case
    by (simp add: case_prod_beta Let_def)
qed simp

section \<open>Properties\<close>

text \<open>
  The bounded memory, kept as a queue and a hash set, answers every sequence of insertions the
  way an unbounded log of accepted values would, of which only the last \<open>capacity\<close> entries count.
\<close>

theorem recent_set_refines_log:
  "0 < capacity \<Longrightarrow> recent_insert_all vs (recent_new capacity) = accept_spec capacity [] vs"
  using recent_accepts_spec [of "recent_new capacity" "[]" vs] recent_inv_new [of capacity]
  by (simp add: recent_new_def last_n_def)

theorem recent_set_refines_log_witness:
  "recent_insert_all [1, 2, 3, 1, 3 :: nat] (recent_new 2) = [True, True, True, True, False]"
proof -
  have "recent_insert_all [1, 2, 3, 1, 3 :: nat] (recent_new 2) = accept_spec 2 [] [1, 2, 3, 1, 3 :: nat]"
    by (rule recent_set_refines_log) simp
  then show ?thesis by (simp add: last_n_def)
qed

end
