(* ===== verification/Engine.thy ===== *)
theory Engine
  imports Sync_Item Recent "HOL-Library.Product_Lexorder"
begin

text \<open>
  \<open>crates/cled-sync/src/engine.rs\<close>: the sync engine of one device, which decides what to broadcast
  and what to write. The identifier and the time that \<open>ClipboardItem::new\<close> takes from the system
  are arguments of the local change, \<open>blake3\<close> is a parameter.
\<close>

definition recent_items :: nat where
  "recent_items = 1000"

datatype local_change = Copied clipboard_item | Echo clipboard_item

datatype ignored = OwnItem | Duplicate | Corrupt | AlreadyOnClipboard | Stale

datatype remote_item = Write content | Ignore ignored

record current =
  cur_hash :: content_hash
  cur_created :: int
  cur_id :: item_id

record sync_engine =
  eng_device :: device_id
  eng_seen :: "item_id recent_set"
  eng_pending :: "clipboard_item option"
  eng_current :: "current option"

definition current_of :: "clipboard_item \<Rightarrow> current" where
  "current_of item = \<lparr>cur_hash = it_hash item, cur_created = it_created item, cur_id = it_id item\<rparr>"

definition is_newer_than :: "current \<Rightarrow> clipboard_item \<Rightarrow> bool" where
  "is_newer_than c item \<longleftrightarrow> (it_created item, it_id item) < (cur_created c, cur_id c)"

definition engine_new :: "device_id \<Rightarrow> sync_engine" where
  "engine_new device =
     \<lparr>eng_device = device, eng_seen = recent_new recent_items, eng_pending = None,
      eng_current = None\<rparr>"

definition on_local_change ::
  "(byte list \<Rightarrow> byte list) \<Rightarrow> item_id \<Rightarrow> int \<Rightarrow> content \<Rightarrow> sync_engine \<Rightarrow> local_change \<times> sync_engine" where
  "on_local_change blake3 fresh now c e =
     (let h = content_hash_of blake3 c;
          pending = eng_pending e;
          e = e\<lparr>eng_pending := None\<rparr>;
          copied = (let item = item_new blake3 fresh now (eng_device e) c
                    in (Copied item,
                        e\<lparr>eng_seen := snd (recent_insert (it_id item) (eng_seen e)),
                          eng_current := Some (current_of item)\<rparr>))
      in case pending of
           None \<Rightarrow> copied
         | Some p \<Rightarrow>
             if it_hash p = h then (Echo p, e\<lparr>eng_current := Some (current_of p)\<rparr>) else copied)"

definition on_remote_item ::
  "(byte list \<Rightarrow> byte list) \<Rightarrow> clipboard_item \<Rightarrow> sync_engine \<Rightarrow> remote_item \<times> sync_engine" where
  "on_remote_item blake3 item e =
     (if it_origin item = eng_device e then (Ignore OwnItem, e)
      else if \<not> is_intact blake3 item then (Ignore Corrupt, e)
      else
        let (new, seen) = recent_insert (it_id item) (eng_seen e);
            e = e\<lparr>eng_seen := seen\<rparr>;
            write = (Write (it_content item), e\<lparr>eng_pending := Some item\<rparr>)
        in if \<not> new then (Ignore Duplicate, e)
           else case eng_current e of
                  None \<Rightarrow> write
                | Some current \<Rightarrow>
                    if is_newer_than current item then (Ignore Stale, e)
                    else if cur_hash current = it_hash item
                    then (Ignore AlreadyOnClipboard, e\<lparr>eng_current := Some (current_of item)\<rparr>)
                    else write)"

definition on_write_failed :: "sync_engine \<Rightarrow> sync_engine" where
  "on_write_failed e = e\<lparr>eng_pending := None\<rparr>"

section \<open>Runs of an engine\<close>

datatype engine_event = LocalCopy item_id int content | Remote clipboard_item | WriteFailed

datatype engine_out = OutLocal local_change | OutRemote remote_item | OutNone

fun engine_handle ::
  "(byte list \<Rightarrow> byte list) \<Rightarrow> sync_engine \<Rightarrow> engine_event \<Rightarrow> engine_out \<times> sync_engine" where
  "engine_handle b e (LocalCopy fresh now c) = map_prod OutLocal id (on_local_change b fresh now c e)"
| "engine_handle b e (Remote item) = map_prod OutRemote id (on_remote_item b item e)"
| "engine_handle b e WriteFailed = (OutNone, on_write_failed e)"

definition engine_step ::
  "(byte list \<Rightarrow> byte list) \<Rightarrow> sync_engine \<Rightarrow> engine_event \<Rightarrow> sync_engine" where
  "engine_step b e ev = snd (engine_handle b e ev)"

fun engine_outs ::
  "(byte list \<Rightarrow> byte list) \<Rightarrow> sync_engine \<Rightarrow> engine_event list \<Rightarrow> engine_out list" where
  "engine_outs b e [] = []"
| "engine_outs b e (ev # evs) = fst (engine_handle b e ev) # engine_outs b (engine_step b e ev) evs"

text \<open>What the clipboard holds after a remote item was applied and its write came back.\<close>

definition apply_remote ::
  "(byte list \<Rightarrow> byte list) \<Rightarrow> sync_engine \<Rightarrow> clipboard_item \<Rightarrow> sync_engine" where
  "apply_remote b e item =
     (case on_remote_item b item e of
        (Write c, e') \<Rightarrow> snd (on_local_change b (it_id item) (it_created item) c e')
      | (Ignore _, e') \<Rightarrow> e')"

section \<open>Lemmas\<close>

definition item_key :: "clipboard_item \<Rightarrow> int \<times> item_id" where
  "item_key item = (it_created item, it_id item)"

definition cur_key :: "current \<Rightarrow> int \<times> item_id" where
  "cur_key c = (cur_created c, cur_id c)"

lemma is_newer_than_key: "is_newer_than c item \<longleftrightarrow> item_key item < cur_key c"
  by (simp add: is_newer_than_def item_key_def cur_key_def)

lemma current_of_simps [simp]:
  "cur_hash (current_of item) = it_hash item" "cur_created (current_of item) = it_created item"
  "cur_id (current_of item) = it_id item" "cur_key (current_of item) = item_key item"
  by (simp_all add: current_of_def cur_key_def item_key_def)

definition engine_inv :: "sync_engine \<Rightarrow> bool" where
  "engine_inv e \<longleftrightarrow> recent_inv (eng_seen e) \<and> rs_capacity (eng_seen e) = recent_items"

lemma engine_inv_new: "engine_inv (engine_new d)"
  by (simp add: engine_inv_def engine_new_def recent_inv_new recent_items_def)
    (simp add: recent_new_def)

lemmas engine_cases = on_local_change_def on_remote_item_def on_write_failed_def Let_def

lemma engine_step_simps [simp]:
  "engine_step b e (LocalCopy i t c) = snd (on_local_change b i t c e)"
  "engine_step b e (Remote item) = snd (on_remote_item b item e)"
  "engine_step b e WriteFailed = on_write_failed e"
  by (simp_all add: engine_step_def)

lemma engine_inv_local: "engine_inv e \<Longrightarrow> engine_inv (snd (on_local_change b i t c e))"
  by (auto simp: engine_inv_def on_local_change_def Let_def recent_inv_insert split: option.splits)

lemma engine_inv_remote: "engine_inv e \<Longrightarrow> engine_inv (snd (on_remote_item b item e))"
  by (auto simp: engine_inv_def on_remote_item_def Let_def case_prod_beta recent_inv_insert
      split: option.splits)

lemma engine_inv_step: "engine_inv e \<Longrightarrow> engine_inv (engine_step b e ev)"
  by (cases ev) (simp_all add: engine_inv_local engine_inv_remote,
      simp add: engine_inv_def on_write_failed_def)

interpretation engine: state_machine "engine_step b" engine_inv for b
  by unfold_locales (rule engine_inv_step)

lemma eng_device_local [simp]: "eng_device (snd (on_local_change b i t c e)) = eng_device e"
  by (simp add: on_local_change_def Let_def split: option.split)

lemma eng_device_remote [simp]: "eng_device (snd (on_remote_item b item e)) = eng_device e"
  by (simp add: on_remote_item_def Let_def case_prod_beta split: option.split)

lemma eng_device_step [simp]: "eng_device (engine_step b e ev) = eng_device e"
  by (cases ev) (simp_all add: on_write_failed_def)

lemma eng_device_run [simp]: "eng_device (foldl (engine_step b) e evs) = eng_device e"
  by (induction evs arbitrary: e) simp_all

lemma eng_seen_step:
  "eng_seen (engine_step b e ev) = eng_seen e
   \<or> (\<exists>v. eng_seen (engine_step b e ev) = snd (recent_insert v (eng_seen e)))"
  by (cases ev)
    (auto simp: engine_cases case_prod_beta split: option.splits)

lemma length_engine_outs [simp]: "length (engine_outs b e evs) = length evs"
  by (induction evs arbitrary: e) simp_all

lemma engine_outs_append:
  "engine_outs b e (evs @ fs) = engine_outs b e evs @ engine_outs b (foldl (engine_step b) e evs) fs"
  by (induction evs arbitrary: e) simp_all

lemma engine_outs_nth:
  "i < length evs \<Longrightarrow>
   engine_outs b e evs ! i = fst (engine_handle b (foldl (engine_step b) e (take i evs)) (evs ! i))"
proof (induction evs arbitrary: e i)
  case (Cons ev evs)
  then show ?case by (cases i) simp_all
qed simp


lemma pending_local [simp]: "eng_pending (snd (on_local_change b i t c e)) = None"
  by (simp add: on_local_change_def Let_def split: option.split)

lemma local_echo_iff:
  "fst (on_local_change b i t c e) = Echo p
   \<longleftrightarrow> eng_pending e = Some p \<and> it_hash p = content_hash_of b c"
  by (auto simp: on_local_change_def Let_def split: option.split)

lemma local_copied:
  "(\<nexists>p. fst (on_local_change b i t c e) = Echo p) \<Longrightarrow>
   fst (on_local_change b i t c e) = Copied (item_new b i t (eng_device e) c)"
  by (auto simp: on_local_change_def Let_def split: option.splits if_splits)

lemma remote_write_or_ignore:
  "fst (on_remote_item b item e) = Write (it_content item)
     \<and> eng_pending (snd (on_remote_item b item e)) = Some item
   \<or> (\<exists>r. fst (on_remote_item b item e) = Ignore r
          \<and> eng_pending (snd (on_remote_item b item e)) = eng_pending e)"
  by (auto simp: on_remote_item_def Let_def case_prod_beta split: option.split)

text \<open>The remote item the clipboard is still expected to report back after a run of events.\<close>

definition awaits_echo ::
  "engine_event list \<Rightarrow> engine_out list \<Rightarrow> clipboard_item \<Rightarrow> nat \<Rightarrow> bool" where
  "awaits_echo evs outs item n \<longleftrightarrow>
     (\<exists>j<n. evs ! j = Remote item \<and> outs ! j = OutRemote (Write (it_content item))
        \<and> (\<forall>k. j < k \<and> k < n \<longrightarrow> (\<exists>q r. evs ! k = Remote q \<and> outs ! k = OutRemote (Ignore r))))"

lemma awaits_echo_Suc:
  "awaits_echo evs outs item (Suc n) \<longleftrightarrow>
     (evs ! n = Remote item \<and> outs ! n = OutRemote (Write (it_content item)))
     \<or> (awaits_echo evs outs item n \<and> (\<exists>q r. evs ! n = Remote q \<and> outs ! n = OutRemote (Ignore r)))"
proof
  assume "awaits_echo evs outs item (Suc n)"
  then obtain j where j: "j < Suc n" "evs ! j = Remote item"
      "outs ! j = OutRemote (Write (it_content item))"
    and k: "\<And>k. j < k \<Longrightarrow> k < Suc n \<Longrightarrow> \<exists>q r. evs ! k = Remote q \<and> outs ! k = OutRemote (Ignore r)"
    unfolding awaits_echo_def by blast
  show "(evs ! n = Remote item \<and> outs ! n = OutRemote (Write (it_content item)))
     \<or> (awaits_echo evs outs item n \<and> (\<exists>q r. evs ! n = Remote q \<and> outs ! n = OutRemote (Ignore r)))"
  proof (cases "j = n")
    case False
    with j k have "awaits_echo evs outs item n"
      unfolding awaits_echo_def by (intro exI [of _ j]) (simp add: less_Suc_eq)
    with k [of n] j False show ?thesis by simp
  qed (use j in simp)
next
  assume "(evs ! n = Remote item \<and> outs ! n = OutRemote (Write (it_content item)))
     \<or> (awaits_echo evs outs item n \<and> (\<exists>q r. evs ! n = Remote q \<and> outs ! n = OutRemote (Ignore r)))"
  then show "awaits_echo evs outs item (Suc n)"
    unfolding awaits_echo_def by (auto simp: less_Suc_eq)
qed

lemma pending_awaits_echo:
  "n \<le> length evs \<Longrightarrow>
   eng_pending (foldl (engine_step b) (engine_new d) (take n evs)) = Some item
   \<longleftrightarrow> awaits_echo evs (engine_outs b (engine_new d) evs) item n"
proof (induction n)
  case 0
  then show ?case by (simp add: awaits_echo_def engine_new_def)
next
  case (Suc n)
  let ?e = "foldl (engine_step b) (engine_new d) (take n evs)"
  have out: "engine_outs b (engine_new d) evs ! n = fst (engine_handle b ?e (evs ! n))"
    using Suc.prems by (simp add: engine_outs_nth)
  have run: "foldl (engine_step b) (engine_new d) (take (Suc n) evs) = engine_step b ?e (evs ! n)"
    using Suc.prems by (simp add: take_Suc_conv_app_nth)
  show ?case
  proof (cases "evs ! n")
    case (Remote q)
    with Suc show ?thesis
      using remote_write_or_ignore [of b q ?e]
      by (auto simp: run out awaits_echo_Suc)
  qed (simp_all add: run out awaits_echo_Suc on_write_failed_def)
qed

lemma engine_out_local:
  assumes "i < length evs" and "evs ! i = LocalCopy fresh now c"
  shows "engine_outs b (engine_new d) evs ! i = OutLocal
    (fst (on_local_change b fresh now c (foldl (engine_step b) (engine_new d) (take i evs))))"
  using assms by (simp add: engine_outs_nth)

lemma apply_remote_fresh:
  assumes "engine_inv e" and "it_origin item \<noteq> eng_device e" and "is_intact b item"
    and "it_id item \<notin> rs_members (eng_seen e)"
  shows "eng_current (apply_remote b e item) =
      Some (case eng_current e of None \<Rightarrow> current_of item
            | Some c \<Rightarrow> if item_key item < cur_key c then c else current_of item)"
    and "eng_seen (apply_remote b e item) = snd (recent_insert (it_id item) (eng_seen e))"
    and "eng_device (apply_remote b e item) = eng_device e"
proof -
  have new: "fst (recent_insert (it_id item) (eng_seen e))"
    using assms by (simp add: fst_recent_insert)
  have h: "content_hash_of b (it_content item) = it_hash item"
    using assms by (simp add: is_intact_def)
  show "eng_current (apply_remote b e item) =
      Some (case eng_current e of None \<Rightarrow> current_of item
            | Some c \<Rightarrow> if item_key item < cur_key c then c else current_of item)"
    and "eng_seen (apply_remote b e item) = snd (recent_insert (it_id item) (eng_seen e))"
    and "eng_device (apply_remote b e item) = eng_device e"
    using assms(2,3) new
    by (auto simp: apply_remote_def on_remote_item_def on_local_change_def Let_def case_prod_beta h
        is_newer_than_key split: option.split)
qed

lemma apply_remotes_newest:
  assumes "engine_inv e" and "distinct (map it_id items)"
    and "\<forall>j\<in>set items. it_origin j \<noteq> eng_device e \<and> is_intact b j \<and> it_id j \<notin> rs_members (eng_seen e)"
    and "(item \<in> set items \<and> (\<forall>c. eng_current e = Some c \<longrightarrow> cur_key c \<le> item_key item))
         \<or> eng_current e = Some (current_of item)"
    and "\<forall>j\<in>set items. j \<noteq> item \<longrightarrow> item_key j < item_key item"
  shows "eng_current (foldl (apply_remote b) e items) = Some (current_of item)"
  using assms
proof (induction items arbitrary: e)
  case (Cons j items)
  let ?e = "apply_remote b e j"
  have j: "it_origin j \<noteq> eng_device e" "is_intact b j" "it_id j \<notin> rs_members (eng_seen e)"
    using Cons.prems(3) by simp_all
  note step = apply_remote_fresh [OF Cons.prems(1) j]
  have "engine_inv ?e"
    using Cons.prems(1) step(2) by (simp add: engine_inv_def recent_inv_insert)
  moreover have "\<forall>k\<in>set items. it_origin k \<noteq> eng_device ?e \<and> is_intact b k
      \<and> it_id k \<notin> rs_members (eng_seen ?e)"
    using Cons.prems(2,3) recent.mem_after [of "eng_seen e" _ "it_id j"] Cons.prems(1)
    by (auto simp: step engine_inv_def image_iff) metis+
  moreover have "(item \<in> set items \<and> (\<forall>c. eng_current ?e = Some c \<longrightarrow> cur_key c \<le> item_key item))
      \<or> eng_current ?e = Some (current_of item)"
    using Cons.prems(4,5) by (auto simp: step split: option.split)
  ultimately show ?case
    using Cons.IH [of ?e] Cons.prems(2,5) by simp
qed simp

section \<open>Properties\<close>

text \<open>
  C8: Echo suppression over any history of an engine. A local change is reported as the echo of a
  remote item exactly when the engine told the client to write that item, nothing but ignored
  remote items arrived since (no other local change, no failed write, no other write), and the
  content has the identity of the item. Every other local change is a copy made here: an intact
  item from this device with the content that is on the clipboard.
\<close>

theorem echo_exactly_for_awaited_write:
  assumes "i < length evs" and "evs ! i = LocalCopy fresh now c"
  shows "(engine_outs b (engine_new d) evs ! i = OutLocal (Echo item) \<longleftrightarrow>
            awaits_echo evs (engine_outs b (engine_new d) evs) item i
            \<and> it_hash item = content_hash_of b c)
         \<and> ((\<nexists>p. engine_outs b (engine_new d) evs ! i = OutLocal (Echo p)) \<longrightarrow>
            engine_outs b (engine_new d) evs ! i = OutLocal (Copied (item_new b fresh now d c)))"
proof -
  let ?e = "foldl (engine_step b) (engine_new d) (take i evs)"
  have "eng_device ?e = d" by (simp add: engine_new_def)
  moreover have "eng_pending ?e = Some item \<longleftrightarrow> awaits_echo evs (engine_outs b (engine_new d) evs) item i"
    using assms(1) by (intro pending_awaits_echo) simp
  ultimately show ?thesis
    using local_copied [of b fresh now c ?e]
    by (auto simp: engine_out_local [OF assms] local_echo_iff)
qed

theorem echo_exactly_for_awaited_write_witness:
  defines "c \<equiv> Text (str_lit ''remote'')"
  defines "item \<equiv> item_new id (ItemId 7) 5 (DeviceId 2) c"
  defines "evs \<equiv> [Remote item, LocalCopy (ItemId 8) 6 c]"
  shows "engine_outs id (engine_new (DeviceId 1)) evs ! 1 = OutLocal (Echo item)"
proof -
  have "engine_outs id (engine_new (DeviceId 1)) evs ! 0 = OutRemote (Write (it_content item))"
    by (simp add: evs_def engine_new_def on_remote_item_def item_def recent_insert_def recent_new_def
        recent_items_def)
  then have "awaits_echo evs (engine_outs id (engine_new (DeviceId 1)) evs) item 1"
    by (simp add: awaits_echo_def evs_def)
  moreover have "1 < length evs" and "evs ! 1 = LocalCopy (ItemId 8) 6 c"
    by (simp_all add: evs_def)
  ultimately show ?thesis
    using echo_exactly_for_awaited_write [of 1 evs "ItemId 8" 6 c id "DeviceId 1" item]
    by (simp add: item_def)
qed

lemma recent_age_engine_step:
  assumes "engine_inv e" and "recent_age v n (eng_seen e)" and "Suc n < recent_items"
  shows "recent_age v (Suc n) (eng_seen (engine_step b e ev))"
  using eng_seen_step [of b e ev]
proof
  assume "eng_seen (engine_step b e ev) = eng_seen e"
  with assms show ?thesis using recent_age_mono [of v n _ "Suc n"] by simp
next
  assume "\<exists>w. eng_seen (engine_step b e ev) = snd (recent_insert w (eng_seen e))"
  with assms show ?thesis
    using recent_age_insert [of "eng_seen e" v n] by (auto simp: engine_inv_def)
qed

lemma remote_duplicate:
  "it_origin item \<noteq> eng_device e \<Longrightarrow> is_intact b item \<Longrightarrow> it_id item \<in> rs_members (eng_seen e) \<Longrightarrow>
   fst (on_remote_item b item e) = Ignore Duplicate"
  by (simp add: on_remote_item_def Let_def case_prod_beta fst_recent_insert)

lemma recent_age_engine_run:
  "engine_inv e \<Longrightarrow> recent_age v 0 (eng_seen e) \<Longrightarrow> length fs < recent_items \<Longrightarrow>
   recent_age v (length fs) (eng_seen (foldl (engine_step b) e fs))"
proof (induction fs rule: rev_induct)
  case (snoc ev fs)
  then show ?case
    using recent_age_engine_step [of "foldl (engine_step b) e fs"] by (simp add: engine.invar_run)
qed simp

text \<open>
  Deduplication. An item the engine looked at once (it was written, was already on the
  clipboard, or was stale) is refused as a duplicate at any point of the next 999 events, whatever
  these events are.
\<close>

theorem seen_items_are_refused:
  assumes "fst (on_remote_item b item e)
             \<in> {Write (it_content item), Ignore AlreadyOnClipboard, Ignore Stale}"
    and "e = foldl (engine_step b) (engine_new d) es" and "length fs < recent_items"
  shows "fst (on_remote_item b item (foldl (engine_step b) (snd (on_remote_item b item e)) fs))
         = Ignore Duplicate"
proof -
  have inv: "engine_inv e"
    unfolding assms(2) by (intro engine.invar_run engine_inv_new)
  let ?e1 = "snd (on_remote_item b item e)"
  have first: "it_origin item \<noteq> eng_device e" "is_intact b item"
      "it_id item \<notin> rs_members (eng_seen e)"
    and seen: "eng_seen ?e1 = snd (recent_insert (it_id item) (eng_seen e))"
    using assms(1)
    by (auto simp: on_remote_item_def Let_def case_prod_beta fst_recent_insert
        split: if_splits option.splits)
  have inv1: "engine_inv ?e1"
    using inv by (rule engine_inv_remote)
  have "recent_age (it_id item) 0 (eng_seen ?e1)"
    using recent_age_insert_new [OF _ first(3)] inv by (simp add: seen engine_inv_def)
  then have "recent_age (it_id item) (length fs) (eng_seen (foldl (engine_step b) ?e1 fs))"
    by (rule recent_age_engine_run [OF inv1 _ assms(3)])
  moreover have "engine_inv (foldl (engine_step b) ?e1 fs)"
    by (rule engine.invar_run [OF inv1])
  ultimately have "it_id item \<in> rs_members (eng_seen (foldl (engine_step b) ?e1 fs))"
    by (auto simp: engine_inv_def intro: recent_age_member)
  then show ?thesis
    using first by (intro remote_duplicate) simp_all
qed

theorem seen_items_are_refused_witness:
  defines "item \<equiv> item_new id (ItemId 7) 5 (DeviceId 2) (Text [])"
  shows "fst (on_remote_item id item
           (foldl (engine_step id) (snd (on_remote_item id item (engine_new (DeviceId 1)))) [WriteFailed]))
         = Ignore Duplicate"
proof (rule seen_items_are_refused)
  show "fst (on_remote_item id item (engine_new (DeviceId 1)))
      \<in> {Write (it_content item), Ignore AlreadyOnClipboard, Ignore Stale}"
    by (simp add: item_def engine_new_def on_remote_item_def recent_insert_def recent_new_def
        recent_items_def)
  show "engine_new (DeviceId 1) = foldl (engine_step id) (engine_new (DeviceId 1)) []" by simp
  show "length [WriteFailed] < recent_items" by (simp add: recent_items_def)
qed

text \<open>
  C9: Newest wins, in any order of arrival. When each write a device is told to make comes back
  before the next item arrives, the device ends on the item with the greatest (time, identifier)
  pair, in whatever order the items were received.
\<close>

theorem newest_item_wins_in_any_order:
  assumes "distinct (map it_id items)"
    and "\<forall>j\<in>set items. it_origin j \<noteq> d \<and> is_intact b j"
    and "item \<in> set items" and "\<forall>j\<in>set items. j \<noteq> item \<longrightarrow> item_key j < item_key item"
  shows "eng_current (foldl (apply_remote b) (engine_new d) items) = Some (current_of item)"
proof (rule apply_remotes_newest [OF engine_inv_new assms(1)])
  show "\<forall>j\<in>set items. it_origin j \<noteq> eng_device (engine_new d) \<and> is_intact b j
      \<and> it_id j \<notin> rs_members (eng_seen (engine_new d))"
    using assms(2) by (simp add: engine_new_def recent_new_def)
qed (use assms in \<open>simp_all add: engine_new_def\<close>)

theorem newest_item_wins_in_any_order_witness:
  defines "old \<equiv> item_new id (ItemId 7) 5 (DeviceId 2) (Text [97])"
    and "new \<equiv> item_new id (ItemId 8) 6 (DeviceId 3) (Text [98])"
  shows "eng_current (foldl (apply_remote id) (engine_new (DeviceId 1)) [new, old])
         = Some (current_of new)"
  by (rule newest_item_wins_in_any_order) (auto simp: old_def new_def item_key_def)

text \<open>
  The rule does not cover a write that has not come back yet: when an older item arrives while
  the write of a newer one is still pending, it is written too, and the device ends on the older
  item. The comparison looks at the item on the clipboard only, not at the pending one.
\<close>

theorem older_item_replaces_pending_newer:
  assumes "engine_inv e" and "eng_current e = None"
    and "\<forall>i\<in>{newer, older}. it_origin i \<noteq> eng_device e \<and> is_intact b i
           \<and> it_id i \<notin> rs_members (eng_seen e)"
    and "it_id newer \<noteq> it_id older" and "item_key older < item_key newer"
  shows "fst (on_remote_item b newer e) = Write (it_content newer)
    \<and> fst (on_remote_item b older (snd (on_remote_item b newer e))) = Write (it_content older)
    \<and> (let (echo, e') = on_local_change b fresh now (it_content older)
             (snd (on_remote_item b older (snd (on_remote_item b newer e))))
       in echo = Echo older \<and> eng_current e' = Some (current_of older))"
proof -
  have "it_id older \<notin> rs_members (snd (recent_insert (it_id newer) (eng_seen e)))"
    using assms by (auto simp: engine_inv_def dest!: recent.mem_after)
  with assms show ?thesis
    by (simp add: on_remote_item_def on_local_change_def Let_def case_prod_beta fst_recent_insert
        is_intact_def)
qed

theorem older_item_replaces_pending_newer_witness:
  defines "old \<equiv> item_new id (ItemId 7) 5 (DeviceId 2) (Text [97])"
    and "new \<equiv> item_new id (ItemId 8) 6 (DeviceId 3) (Text [98])"
  shows "fst (on_remote_item id old (snd (on_remote_item id new (engine_new (DeviceId 1)))))
         = Write (Text [97])"
proof -
  have "\<forall>i\<in>{new, old}. it_origin i \<noteq> eng_device (engine_new (DeviceId 1)) \<and> is_intact id i
           \<and> it_id i \<notin> rs_members (eng_seen (engine_new (DeviceId 1)))"
    by (simp add: old_def new_def engine_new_def recent_new_def)
  moreover have "eng_current (engine_new (DeviceId 1)) = None"
    by (simp add: engine_new_def)
  moreover have "it_id new \<noteq> it_id old" "item_key old < item_key new"
    by (simp_all add: old_def new_def item_key_def)
  ultimately have "fst (on_remote_item id old (snd (on_remote_item id new (engine_new (DeviceId 1)))))
      = Write (it_content old)"
    using older_item_replaces_pending_newer [OF engine_inv_new] by blast
  then show ?thesis by (simp add: old_def)
qed

end
