(* ===== verification/Sync_Network.thy ===== *)
theory Sync_Network
  imports Engine
begin

text \<open>
  Several engines on one network, the composition the client implements and
  \<open>crates/cled-sync/tests/simulation.rs\<close> spells out: a clipboard change that is a copy is sent to
  every other device; a received item that is to be written changes the clipboard, which reports
  back to the engine. Messages are delivered in the order they were sent unless the environment
  reorders or repeats them. \<open>mint n\<close> is the identifier and time of the \<open>n\<close>-th item created.
\<close>

record sim_device =
  sim_engine :: sync_engine
  sim_clipboard :: "content option"
  sim_writes :: nat

record network =
  net_devices :: "sim_device list"
  net_in_flight :: "(nat \<times> clipboard_item) list"
  net_sent :: nat
  net_made :: nat

definition net_new :: "device_id list \<Rightarrow> network" where
  "net_new ids =
     \<lparr>net_devices =
        map (\<lambda>i. \<lparr>sim_engine = engine_new i, sim_clipboard = None, sim_writes = 0\<rparr>) ids,
      net_in_flight = [], net_sent = 0, net_made = 0\<rparr>"

definition broadcast :: "nat \<Rightarrow> clipboard_item \<Rightarrow> network \<Rightarrow> network" where
  "broadcast from item net =
     (let others = filter (\<lambda>to. to \<noteq> from) [0..<length (net_devices net)]
      in net\<lparr>net_in_flight := net_in_flight net @ map (\<lambda>to. (to, item)) others,
             net_sent := net_sent net + length others\<rparr>)"

definition set_clipboard ::
  "(byte list \<Rightarrow> byte list) \<Rightarrow> (nat \<Rightarrow> item_id \<times> int) \<Rightarrow> nat \<Rightarrow> content \<Rightarrow> network \<Rightarrow> network" where
  "set_clipboard b mint at c net =
     (let device = net_devices net ! at
      in if sim_clipboard device = Some c then net
         else let (fresh, now) = mint (net_made net);
                  (change, e) = on_local_change b fresh now c (sim_engine device);
                  net = net\<lparr>net_devices :=
                     (net_devices net)[at := device\<lparr>sim_engine := e, sim_clipboard := Some c\<rparr>]\<rparr>
              in case change of
                   Copied item \<Rightarrow> broadcast at item (net\<lparr>net_made := Suc (net_made net)\<rparr>)
                 | Echo _ \<Rightarrow> net)"

definition net_receive ::
  "(byte list \<Rightarrow> byte list) \<Rightarrow> (nat \<Rightarrow> item_id \<times> int) \<Rightarrow> nat \<Rightarrow> clipboard_item \<Rightarrow> network \<Rightarrow> network" where
  "net_receive b mint to item net =
     (let device = net_devices net ! to;
          (r, e) = on_remote_item b item (sim_engine device);
          device = device\<lparr>sim_engine := e\<rparr>
      in case r of
           Write c \<Rightarrow>
             set_clipboard b mint to c
               (net\<lparr>net_devices :=
                  (net_devices net)[to := device\<lparr>sim_writes := Suc (sim_writes device)\<rparr>]\<rparr>)
         | Ignore _ \<Rightarrow> net\<lparr>net_devices := (net_devices net)[to := device]\<rparr>)"

definition deliver_one ::
  "(byte list \<Rightarrow> byte list) \<Rightarrow> (nat \<Rightarrow> item_id \<times> int) \<Rightarrow> network \<Rightarrow> bool \<times> network" where
  "deliver_one b mint net =
     (case net_in_flight net of
        [] \<Rightarrow> (False, net)
      | (to, item) # rest \<Rightarrow> (True, net_receive b mint to item (net\<lparr>net_in_flight := rest\<rparr>)))"

text \<open>\<open>None\<close> is the panic of \<open>settle\<close> when the deliveries do not end.\<close>

definition max_deliveries :: nat where
  "max_deliveries = 10000"

function settle ::
  "(byte list \<Rightarrow> byte list) \<Rightarrow> (nat \<Rightarrow> item_id \<times> int) \<Rightarrow> nat \<Rightarrow> network \<Rightarrow> network option" where
  "settle b mint deliveries net =
     (let (delivered, net') = deliver_one b mint net
      in if \<not> delivered then Some net'
         else if Suc deliveries < max_deliveries then settle b mint (Suc deliveries) net'
         else None)"
  by pat_completeness auto
termination
  by (relation "measure (\<lambda>(_, _, n, _). max_deliveries - n)") auto

declare settle.simps [simp del]

text \<open>What the users and the network may do, in any order.\<close>

datatype net_event = UserCopy nat content | DeliverOne | Repeat nat | Reorder nat

fun net_step ::
  "(byte list \<Rightarrow> byte list) \<Rightarrow> (nat \<Rightarrow> item_id \<times> int) \<Rightarrow> network \<Rightarrow> net_event \<Rightarrow> network" where
  "net_step b mint net (UserCopy at c) =
     (if at < length (net_devices net) then set_clipboard b mint at c net else net)"
| "net_step b mint net DeliverOne = snd (deliver_one b mint net)"
| "net_step b mint net (Repeat k) =
     (if k < length (net_in_flight net)
      then net_receive b mint (fst (net_in_flight net ! k)) (snd (net_in_flight net ! k)) net
      else net)"
| "net_step b mint net (Reorder k) =
     (if k < length (net_in_flight net)
      then net\<lparr>net_in_flight := net_in_flight net ! k
                 # take k (net_in_flight net) @ drop (Suc k) (net_in_flight net)\<rparr>
      else net)"

section \<open>Receiving never sends\<close>

text \<open>What receiving an item does to the one device that receives it.\<close>

definition dev_receive :: "(byte list \<Rightarrow> byte list) \<Rightarrow> clipboard_item \<Rightarrow> sim_device \<Rightarrow> sim_device" where
  "dev_receive b item d =
     (case on_remote_item b item (sim_engine d) of
        (Write c, e) \<Rightarrow>
          d\<lparr>sim_writes := Suc (sim_writes d), sim_clipboard := Some c,
            sim_engine := if sim_clipboard d = Some c then e
                          else e\<lparr>eng_pending := None, eng_current := Some (current_of item)\<rparr>\<rparr>
      | (Ignore _, e) \<Rightarrow> d\<lparr>sim_engine := e\<rparr>)"

lemma on_remote_write:
  "on_remote_item b item e = (Write c, e') \<Longrightarrow>
   c = it_content item \<and> eng_pending e' = Some item \<and> content_hash_of b c = it_hash item"
  by (auto simp: on_remote_item_def Let_def case_prod_beta is_intact_def
      split: if_splits option.splits)

lemma net_receive_eq:
  assumes "to < length (net_devices net)"
  shows "net_receive b mint to item net =
    net\<lparr>net_devices := (net_devices net)[to := dev_receive b item (net_devices net ! to)]\<rparr>"
proof (cases "on_remote_item b item (sim_engine (net_devices net ! to))")
  case (Pair r e)
  show ?thesis
  proof (cases r)
    case (Write c)
    with Pair have *: "eng_pending e = Some item" "content_hash_of b c = it_hash item"
      using on_remote_write by blast+
    have echo: "on_local_change b i t c e
        = (Echo item, e\<lparr>eng_pending := None, eng_current := Some (current_of item)\<rparr>)" for i t
      by (simp add: on_local_change_def * Let_def)
    show ?thesis
      using assms Pair Write
      by (cases "net_devices net ! to"; cases "sim_clipboard (net_devices net ! to) = Some c")
        (simp_all add: net_receive_def dev_receive_def set_clipboard_def Let_def echo case_prod_beta)
  qed (use assms Pair in \<open>simp add: net_receive_def dev_receive_def\<close>)
qed

definition in_range :: "network \<Rightarrow> bool" where
  "in_range net \<longleftrightarrow> (\<forall>m\<in>set (net_in_flight net). fst m < length (net_devices net))"

lemma deliver_one_eq:
  assumes "in_range net"
  shows "deliver_one b mint net =
    (case net_in_flight net of [] \<Rightarrow> (False, net)
     | (to, item) # rest \<Rightarrow>
         (True, net\<lparr>net_in_flight := rest,
             net_devices := (net_devices net)[to := dev_receive b item (net_devices net ! to)]\<rparr>))"
  using assms by (auto simp: deliver_one_def in_range_def net_receive_eq split: list.split)

lemma broadcast_simps [simp]:
  "net_devices (broadcast k item net) = net_devices net"
  "net_made (broadcast k item net) = net_made net"
  by (simp_all add: broadcast_def Let_def)

lemma length_filter_upt: "k < n \<Longrightarrow> length (filter (\<lambda>i. i \<noteq> k) [0..<n]) = n - 1"
proof -
  assume "k < n"
  have "length (filter (\<lambda>i. i \<noteq> k) [0..<n]) = card (set (filter (\<lambda>i. i \<noteq> k) [0..<n]))"
    by (rule distinct_card [symmetric]) simp
  also have "set (filter (\<lambda>i. i \<noteq> k) [0..<n]) = {0..<n} - {k}" by auto
  finally show ?thesis using \<open>k < n\<close> by simp
qed

lemma in_range_step: "in_range net \<Longrightarrow> in_range (net_step b mint net ev)"
proof (cases ev)
  case (Reorder k)
  assume "in_range net"
  then show ?thesis
    by (auto simp: Reorder in_range_def dest: in_set_takeD in_set_dropD)
qed (auto simp: in_range_def deliver_one_eq net_receive_eq set_clipboard_def broadcast_def Let_def
    case_prod_beta split: list.split local_change.split)

interpretation net: state_machine "net_step b mint" in_range for b mint
  by unfold_locales (rule in_range_step)

text \<open>Messages are created by copies only, one for each other device.\<close>

fun user_copies :: "net_event list \<Rightarrow> nat" where
  "user_copies [] = 0"
| "user_copies (UserCopy _ _ # evs) = Suc (user_copies evs)"
| "user_copies (_ # evs) = user_copies evs"

lemma length_net_step [simp]:
  "in_range net \<Longrightarrow> length (net_devices (net_step b mint net ev)) = length (net_devices net)"
  by (cases ev) (auto simp: in_range_def deliver_one_eq net_receive_eq set_clipboard_def Let_def
    case_prod_beta split: list.split local_change.split)

lemma sent_net_step:
  assumes "in_range net"
  shows "net_sent (net_step b mint net ev)
    \<le> net_sent net + user_copies [ev] * (length (net_devices net) - 1)"
proof (cases ev)
  case (UserCopy at c)
  then show ?thesis
    by (auto simp: set_clipboard_def broadcast_def Let_def case_prod_beta length_filter_upt
        split: local_change.split)
qed (use assms in \<open>auto simp: in_range_def deliver_one_eq net_receive_eq split: list.split\<close>)

lemma user_copies_Cons: "user_copies (ev # evs) = user_copies [ev] + user_copies evs"
  by (cases ev) simp_all

lemma sent_net_run:
  "in_range net \<Longrightarrow>
   net_sent (foldl (net_step b mint) net evs)
   \<le> net_sent net + user_copies evs * (length (net_devices net) - 1)"
proof (induction evs arbitrary: net)
  case (Cons ev evs)
  have "net_sent (foldl (net_step b mint) net (ev # evs))
      \<le> net_sent (net_step b mint net ev) + user_copies evs * (length (net_devices net) - 1)"
    using Cons.IH [of "net_step b mint net ev"] Cons.prems by (simp add: in_range_step)
  then show ?case
    using sent_net_step [OF Cons.prems, of b mint ev] user_copies_Cons [of ev evs]
    by (simp add: add_mult_distrib)
qed simp

lemma settle_ends:
  "in_range net \<Longrightarrow> deliveries + length (net_in_flight net) < max_deliveries \<Longrightarrow>
   \<exists>net'. settle b mint deliveries net = Some net' \<and> net_in_flight net' = []
     \<and> net_sent net' = net_sent net
     \<and> net' = foldl (net_step b mint) net (replicate (length (net_in_flight net)) DeliverOne)"
proof (induction "length (net_in_flight net)" arbitrary: net deliveries)
  case 0
  then show ?case by (subst settle.simps) (simp add: deliver_one_eq)
next
  case (Suc n)
  then obtain to item rest where m: "net_in_flight net = (to, item) # rest"
    by (cases "net_in_flight net") auto
  let ?net = "snd (deliver_one b mint net)"
  have d: "deliver_one b mint net = (True, ?net)" and len: "n = length (net_in_flight ?net)"
    and sent: "net_sent ?net = net_sent net" and "in_range ?net"
    using Suc.hyps(2) Suc.prems(1) in_range_step [of net b mint DeliverOne]
    by (simp_all add: deliver_one_eq m)
  with Suc.hyps(1) [OF len, of "Suc deliveries"] Suc.prems(2) obtain net' where
    "settle b mint (Suc deliveries) ?net = Some net'" "net_in_flight net' = []"
    "net_sent net' = net_sent ?net"
    "net' = foldl (net_step b mint) ?net (replicate n DeliverOne)"
    unfolding Suc.hyps(2) [symmetric] by (metis add_Suc add_Suc_right)
  moreover have "Suc deliveries < max_deliveries" using Suc.prems(2) m by simp
  ultimately show ?case
    unfolding Suc.hyps(2) [symmetric] by (subst settle.simps, subst d) (simp add: sent)
qed

lemma in_range_new: "in_range (net_new ids)"
  by (simp add: in_range_def net_new_def)

section \<open>Convergence\<close>

text \<open>
  The key of the \<open>n\<close>-th item created, and what the network knows after \<open>n\<close> items. The first \<open>n\<close>
  items are well minted when their keys increase and their identifiers differ.
\<close>

definition mint_key :: "(nat \<Rightarrow> item_id \<times> int) \<Rightarrow> nat \<Rightarrow> int \<times> item_id" where
  "mint_key mint n = (snd (mint n), fst (mint n))"

definition good_mint :: "(nat \<Rightarrow> item_id \<times> int) \<Rightarrow> nat \<Rightarrow> bool" where
  "good_mint mint n \<longleftrightarrow>
     (\<forall>k<n. \<forall>m<k. mint_key mint m < mint_key mint k) \<and> inj_on (\<lambda>m. fst (mint m)) {..<n}"

lemma good_mint_mono: "good_mint mint n \<Longrightarrow> k \<le> n \<Longrightarrow> good_mint mint k"
  unfolding good_mint_def by (auto intro: inj_on_subset)

lemma good_mint_less: "good_mint mint (Suc n) \<Longrightarrow> m < n \<Longrightarrow> mint_key mint m < mint_key mint n"
  unfolding good_mint_def by blast

lemma good_mint_id: "good_mint mint (Suc n) \<Longrightarrow> m < n \<Longrightarrow> fst (mint m) \<noteq> fst (mint n)"
  unfolding good_mint_def inj_on_def by (metis lessI lessThan_iff less_SucI less_irrefl)

definition dev_ok ::
  "(byte list \<Rightarrow> byte list) \<Rightarrow> (nat \<Rightarrow> item_id \<times> int) \<Rightarrow> nat \<Rightarrow> sim_device \<Rightarrow> bool" where
  "dev_ok b mint n d \<longleftrightarrow>
     engine_inv (sim_engine d) \<and> eng_pending (sim_engine d) = None
     \<and> (\<forall>cur. eng_current (sim_engine d) = Some cur \<longrightarrow>
          (\<exists>c. sim_clipboard d = Some c \<and> content_hash_of b c = cur_hash cur)
          \<and> cur_key cur \<in> mint_key mint ` {..<n})
     \<and> (eng_current (sim_engine d) = None \<longrightarrow> sim_clipboard d = None)
     \<and> rs_members (eng_seen (sim_engine d)) \<subseteq> (\<lambda>m. fst (mint m)) ` {..<n}"

definition item_ok ::
  "(byte list \<Rightarrow> byte list) \<Rightarrow> (nat \<Rightarrow> item_id \<times> int) \<Rightarrow> nat \<Rightarrow> sim_device \<Rightarrow> clipboard_item \<Rightarrow> bool" where
  "item_ok b mint n d item \<longleftrightarrow>
     is_intact b item \<and> it_origin item \<noteq> eng_device (sim_engine d)
     \<and> item_key item \<in> mint_key mint ` {..<n}"

lemma item_id_of_key: "item_key i = mint_key mint m \<Longrightarrow> it_id i = fst (mint m)"
  by (simp add: item_key_def mint_key_def)

text \<open>The three ways a received item ends, for a device whose engine and clipboard agree.\<close>

lemma dev_receive_cases:
  assumes "dev_ok b mint n d" and "item_ok b mint n' d item"
  shows "let e = sim_engine d; seen = snd (recent_insert (it_id item) (eng_seen e)) in
    (if it_id item \<in> rs_members (eng_seen e) \<or> (\<exists>c. eng_current e = Some c \<and> item_key item < cur_key c)
     then dev_receive b item d = d\<lparr>sim_engine := e\<lparr>eng_seen := seen\<rparr>\<rparr>
     else sim_engine (dev_receive b item d)
            = e\<lparr>eng_seen := seen, eng_pending := None, eng_current := Some (current_of item)\<rparr>
          \<and> (\<exists>c. sim_clipboard (dev_receive b item d) = Some c \<and> content_hash_of b c = it_hash item))"
proof -
  have "is_intact b item" and o: "it_origin item \<noteq> eng_device (sim_engine d)"
    using assms(2) by (simp_all add: item_ok_def)
  then have h: "content_hash_of b (it_content item) = it_hash item"
    by (simp add: is_intact_def)
  have p: "eng_pending (sim_engine d) = None"
    using assms(1) by (simp add: dev_ok_def)
  have seen: "it_id item \<in> rs_members (eng_seen (sim_engine d)) \<Longrightarrow>
      snd (recent_insert (it_id item) (eng_seen (sim_engine d))) = eng_seen (sim_engine d)"
    by (simp add: recent_insert_def)
  show ?thesis
  proof (cases "eng_current (sim_engine d)")
    case None
    with assms(1) have "sim_clipboard d = None" by (simp add: dev_ok_def)
    with None o \<open>is_intact b item\<close> show ?thesis
      by (auto simp: dev_receive_def on_remote_item_def Let_def case_prod_beta fst_recent_insert h
          seen p)
  next
    case (Some cur)
    with assms(1) obtain c where "sim_clipboard d = Some c" "content_hash_of b c = cur_hash cur"
      by (auto simp: dev_ok_def)
    with Some o \<open>is_intact b item\<close> show ?thesis
      by (auto simp: dev_receive_def on_remote_item_def Let_def case_prod_beta fst_recent_insert h
          seen p is_newer_than_key)
  qed
qed

lemma dev_receive_device [simp]: "eng_device (sim_engine (dev_receive b item d)) = eng_device (sim_engine d)"
proof -
  have "eng_device (snd (on_remote_item b item (sim_engine d))) = eng_device (sim_engine d)" by simp
  then show ?thesis
    by (auto simp: dev_receive_def simp del: eng_device_remote split: prod.splits remote_item.splits)
qed

lemma dev_ok_receive:
  assumes "dev_ok b mint n d" and "item_ok b mint n d item"
  shows "dev_ok b mint n (dev_receive b item d)"
proof -
  let ?seen = "snd (recent_insert (it_id item) (eng_seen (sim_engine d)))"
  have "rs_members ?seen \<subseteq> insert (it_id item) (rs_members (eng_seen (sim_engine d)))"
    by (rule recent_only_insert)
  moreover have "it_id item \<in> (\<lambda>m. fst (mint m)) ` {..<n}"
    using assms(2) by (auto simp: item_ok_def item_key_def mint_key_def)
  ultimately have "rs_members ?seen \<subseteq> (\<lambda>m. fst (mint m)) ` {..<n}"
    using assms(1) by (auto simp: dev_ok_def)
  moreover have "engine_inv (sim_engine d) \<Longrightarrow> recent_inv ?seen \<and> rs_capacity ?seen = recent_items"
    by (simp add: engine_inv_def recent_inv_insert)
  ultimately show ?thesis
    using dev_receive_cases [OF assms] assms
    by (auto simp: dev_ok_def engine_inv_def item_ok_def Let_def split: if_splits)
qed

text \<open>A device that has, or is about to get, the newest item \<open>newest\<close>.\<close>

definition has_newest :: "clipboard_item \<Rightarrow> sim_device \<Rightarrow> bool" where
  "has_newest newest d \<longleftrightarrow> eng_current (sim_engine d) = Some (current_of newest)"

lemma has_newest_receive:
  assumes "dev_ok b mint n d" and "item_ok b mint n d item" and "has_newest newest d"
    and "item = newest \<or> item_key item < item_key newest"
  shows "has_newest newest (dev_receive b item d)"
  using dev_receive_cases [OF assms(1,2)] assms(3,4)
  by (auto simp: has_newest_def Let_def split: if_splits)

lemma newest_arrives:
  assumes "dev_ok b mint n d" and "item_ok b mint n d newest"
    and "it_id newest \<notin> rs_members (eng_seen (sim_engine d))"
    and "\<forall>cur. eng_current (sim_engine d) = Some cur \<longrightarrow> cur_key cur \<le> item_key newest"
  shows "has_newest newest (dev_receive b newest d)"
proof -
  have "\<not> (\<exists>c. eng_current (sim_engine d) = Some c \<and> item_key newest < cur_key c)"
    using assms(4) by (auto simp: not_less)
  then show ?thesis
    using dev_receive_cases [OF assms(1,2)] assms(3) by (simp add: has_newest_def Let_def)
qed

lemma newest_not_seen_receive:
  assumes "dev_ok b mint n d" and "item_ok b mint n d item" and "it_id item \<noteq> it_id newest"
    and "it_id newest \<notin> rs_members (eng_seen (sim_engine d))"
  shows "it_id newest \<notin> rs_members (eng_seen (sim_engine (dev_receive b item d)))"
  using dev_receive_cases [OF assms(1,2)] assms(3,4)
    recent_only_insert [of "it_id item" "eng_seen (sim_engine d)"]
  by (auto simp: Let_def split: if_splits)

definition net_inv :: "(byte list \<Rightarrow> byte list) \<Rightarrow> (nat \<Rightarrow> item_id \<times> int) \<Rightarrow> network \<Rightarrow> bool" where
  "net_inv b mint net \<longleftrightarrow>
     (\<forall>d\<in>set (net_devices net). dev_ok b mint (net_made net) d)
     \<and> (\<forall>(to, item)\<in>set (net_in_flight net). to < length (net_devices net)
          \<and> item_ok b mint (net_made net) (net_devices net ! to) item)
     \<and> distinct (map (\<lambda>d. eng_device (sim_engine d)) (net_devices net))"

definition newest_inv ::
  "(nat \<Rightarrow> item_id \<times> int) \<Rightarrow> clipboard_item \<Rightarrow> network \<Rightarrow> bool" where
  "newest_inv mint newest net \<longleftrightarrow>
     (\<exists>m. net_made net = Suc m \<and> item_key newest = mint_key mint m)
     \<and> (\<forall>k<length (net_devices net). has_newest newest (net_devices net ! k)
          \<or> (k, newest) \<in> set (net_in_flight net)
            \<and> it_id newest \<notin> rs_members (eng_seen (sim_engine (net_devices net ! k))))
     \<and> (\<forall>(to, item)\<in>set (net_in_flight net).
          item = newest \<or> item_key item < item_key newest \<and> it_id item \<noteq> it_id newest)"

lemma net_inv_in_range: "net_inv b mint net \<Longrightarrow> in_range net"
  by (auto simp: net_inv_def in_range_def)

text \<open>Delivering a message, whether or not it stays in flight.\<close>

definition delivered ::
  "(byte list \<Rightarrow> byte list) \<Rightarrow> nat \<Rightarrow> clipboard_item \<Rightarrow> (nat \<times> clipboard_item) list \<Rightarrow> network \<Rightarrow> network" where
  "delivered b to item rest net =
     net\<lparr>net_in_flight := rest,
         net_devices := (net_devices net)[to := dev_receive b item (net_devices net ! to)]\<rparr>"

lemma net_inv_delivered:
  assumes "net_inv b mint net" and "(to, item) \<in> set (net_in_flight net)"
    and "set rest \<subseteq> set (net_in_flight net)"
  shows "net_inv b mint (delivered b to item rest net)"
proof -
  let ?ds = "net_devices net"
  have to: "to < length ?ds" and ok: "item_ok b mint (net_made net) (?ds ! to) item"
    and dev: "dev_ok b mint (net_made net) (?ds ! to)"
    using assms(1,2) by (auto simp: net_inv_def)
  have "dev_ok b mint (net_made net) (dev_receive b item (?ds ! to))"
    using dev ok by (rule dev_ok_receive)
  then have "\<forall>d\<in>set (?ds[to := dev_receive b item (?ds ! to)]). dev_ok b mint (net_made net) d"
    using assms(1) set_update_subset_insert [of ?ds to] by (fastforce simp: net_inv_def)
  moreover have "\<forall>(k, i)\<in>set rest. k < length ?ds
      \<and> item_ok b mint (net_made net) (?ds[to := dev_receive b item (?ds ! to)] ! k) i"
  proof -
    have "eng_device (sim_engine (?ds[to := dev_receive b item (?ds ! to)] ! k))
        = eng_device (sim_engine (?ds ! k))" for k
      using to by (cases "k = to") simp_all
    then show ?thesis
      using assms(1,3) by (auto simp: net_inv_def item_ok_def)
  qed
  moreover have "map (\<lambda>d. eng_device (sim_engine d)) (?ds[to := dev_receive b item (?ds ! to)])
      = map (\<lambda>d. eng_device (sim_engine d)) ?ds"
    using to by (simp add: map_update list_update_same_conv)
  ultimately show ?thesis
    using assms(1) by (simp add: net_inv_def delivered_def)
qed

lemma newest_inv_delivered:
  assumes "net_inv b mint net" and "newest_inv mint newest net" and "good_mint mint (net_made net)"
    and msg: "(to, item) \<in> set (net_in_flight net)"
    and "set rest \<subseteq> set (net_in_flight net)"
    and keep: "set (net_in_flight net) \<subseteq> insert (to, item) (set rest)"
  shows "newest_inv mint newest (delivered b to item rest net)"
proof -
  let ?ds = "net_devices net"
  let ?new = "?ds[to := dev_receive b item (?ds ! to)]"
  have to: "to < length ?ds" and ok: "item_ok b mint (net_made net) (?ds ! to) item"
    and dev: "dev_ok b mint (net_made net) (?ds ! to)"
    using assms(1) msg by (auto simp: net_inv_def)
  obtain m where m: "net_made net = Suc m" "item_key newest = mint_key mint m"
    using assms(2) by (auto simp: newest_inv_def)
  have item: "item = newest \<or> item_key item < item_key newest \<and> it_id item \<noteq> it_id newest"
    using assms(2) msg by (auto simp: newest_inv_def)
  have "mint_key mint n \<le> mint_key mint m" if "n < Suc m" for n
    using good_mint_less [of mint m n] assms(3) that m(1) by (cases "n = m") auto
  then have older: "\<forall>cur. eng_current (sim_engine (?ds ! to)) = Some cur \<longrightarrow>
      cur_key cur \<le> item_key newest"
    using dev m by (auto simp: dev_ok_def)
  have "has_newest newest (?new ! k) \<or> (k, newest) \<in> set rest
      \<and> it_id newest \<notin> rs_members (eng_seen (sim_engine (?new ! k)))" if k: "k < length ?ds" for k
  proof -
    have now: "has_newest newest (?ds ! k) \<or> (k, newest) \<in> set (net_in_flight net)
        \<and> it_id newest \<notin> rs_members (eng_seen (sim_engine (?ds ! k)))"
      using assms(2) k by (simp add: newest_inv_def)
    show ?thesis
    proof (cases "k = to")
      case False
      with now keep show ?thesis by auto
    next
      case True
      show ?thesis
      proof (cases "has_newest newest (?ds ! to)")
        case True
        with \<open>k = to\<close> to item show ?thesis
          using has_newest_receive [OF dev ok] by auto
      next
        case False
        with now \<open>k = to\<close> have *: "(to, newest) \<in> set (net_in_flight net)"
            "it_id newest \<notin> rs_members (eng_seen (sim_engine (?ds ! to)))" by auto
        show ?thesis
        proof (cases "item = newest")
          case True
          with newest_arrives [OF dev] ok * older to \<open>k = to\<close> show ?thesis by simp
        next
          case False
          with item * keep to \<open>k = to\<close> newest_not_seen_receive [OF dev ok] show ?thesis by auto
        qed
      qed
    qed
  qed
  then show ?thesis
    using assms(2,5) m by (auto simp: newest_inv_def delivered_def)
qed

lemma dev_ok_mono: "dev_ok b mint n d \<Longrightarrow> dev_ok b mint (Suc n) d"
  unfolding dev_ok_def by (auto simp: lessThan_Suc)

lemma item_ok_mono: "item_ok b mint n d item \<Longrightarrow> item_ok b mint (Suc n) d item"
  unfolding item_ok_def by (auto simp: lessThan_Suc)

text \<open>A copy that changes the clipboard.\<close>

definition copied_item ::
  "(byte list \<Rightarrow> byte list) \<Rightarrow> (nat \<Rightarrow> item_id \<times> int) \<Rightarrow> nat \<Rightarrow> content \<Rightarrow> network \<Rightarrow> clipboard_item" where
  "copied_item b mint at c net =
     item_new b (fst (mint (net_made net))) (snd (mint (net_made net)))
       (eng_device (sim_engine (net_devices net ! at))) c"

definition copied_device ::
  "(byte list \<Rightarrow> byte list) \<Rightarrow> (nat \<Rightarrow> item_id \<times> int) \<Rightarrow> nat \<Rightarrow> content \<Rightarrow> network \<Rightarrow> sim_device" where
  "copied_device b mint at c net =
     (let d = net_devices net ! at; e = sim_engine d
      in d\<lparr>sim_engine := e\<lparr>eng_pending := None,
             eng_seen := snd (recent_insert (it_id (copied_item b mint at c net)) (eng_seen e)),
             eng_current := Some (current_of (copied_item b mint at c net))\<rparr>,
           sim_clipboard := Some c\<rparr>)"

lemma set_clipboard_copied:
  assumes "dev_ok b mint n (net_devices net ! at)"
    and "sim_clipboard (net_devices net ! at) \<noteq> Some c"
  shows "set_clipboard b mint at c net = broadcast at (copied_item b mint at c net)
    (net\<lparr>net_devices := (net_devices net)[at := copied_device b mint at c net],
         net_made := Suc (net_made net)\<rparr>)"
  using assms
  by (simp add: set_clipboard_def on_local_change_def dev_ok_def copied_item_def copied_device_def
      Let_def case_prod_beta)

lemma copied_item_key: "item_key (copied_item b mint at c net) = mint_key mint (net_made net)"
  by (simp add: copied_item_def item_key_def mint_key_def)

lemma copied_device_simps [simp]:
  "eng_device (sim_engine (copied_device b mint at c net))
   = eng_device (sim_engine (net_devices net ! at))"
  "has_newest (copied_item b mint at c net) (copied_device b mint at c net)"
  by (simp_all add: copied_device_def has_newest_def Let_def)

lemma dev_ok_copied:
  assumes "dev_ok b mint (net_made net) (net_devices net ! at)"
  shows "dev_ok b mint (Suc (net_made net)) (copied_device b mint at c net)"
proof -
  let ?s = "eng_seen (sim_engine (net_devices net ! at))"
  let ?i = "fst (mint (net_made net))"
  have "rs_members (snd (recent_insert ?i ?s)) \<subseteq> insert ?i (rs_members ?s)"
    by (rule recent_only_insert)
  with assms have "rs_members (snd (recent_insert ?i ?s)) \<subseteq> (\<lambda>m. fst (mint m)) ` {..<Suc (net_made net)}"
    by (auto simp: dev_ok_def lessThan_Suc)
  with assms show ?thesis
    by (simp add: dev_ok_def copied_device_def Let_def copied_item_key engine_inv_def recent_inv_insert)
      (simp add: copied_item_def)
qed

lemma user_copy:
  assumes inv: "net_inv b mint net" and good: "good_mint mint (Suc (net_made net))" and at: "at < length (net_devices net)"
    and fresh: "sim_clipboard (net_devices net ! at) \<noteq> Some c"
  shows "net_inv b mint (set_clipboard b mint at c net)"
    and "newest_inv mint (copied_item b mint at c net) (set_clipboard b mint at c net)"
proof -
  let ?ds = "net_devices net" and ?L = "copied_item b mint at c net"
  let ?new = "?ds[at := copied_device b mint at c net]" and ?n = "net_made net"
  let ?net = "set_clipboard b mint at c net"
  have dev: "dev_ok b mint ?n (?ds ! k)" if "k < length ?ds" for k
    using inv that by (simp add: net_inv_def)
  have same: "eng_device (sim_engine (?new ! k)) = eng_device (sim_engine (?ds ! k))" for k
    using at by (cases "k = at") simp_all
  have net: "net_devices ?net = ?new" "net_made ?net = Suc ?n"
      "set (net_in_flight ?net)
         = set (net_in_flight net) \<union> {(k, ?L) | k. k < length ?ds \<and> k \<noteq> at}"
    by (auto simp: set_clipboard_copied [OF dev [OF at] fresh] broadcast_def Let_def)
  have other: "eng_device (sim_engine (?ds ! k)) \<noteq> eng_device (sim_engine (?ds ! at))"
    if "k < length ?ds" "k \<noteq> at" for k
  proof -
    have "distinct (map (\<lambda>d. eng_device (sim_engine d)) ?ds)" using inv by (simp add: net_inv_def)
    then show ?thesis using that at by (simp add: distinct_conv_nth)
  qed
  have "\<forall>d\<in>set ?new. dev_ok b mint (Suc ?n) d"
    using dev at by (auto simp: in_set_conv_nth nth_list_update dev_ok_mono dev_ok_copied)
  moreover have "\<forall>(k, i)\<in>set (net_in_flight ?net). k < length ?new
      \<and> item_ok b mint (Suc ?n) (?new ! k) i"
  proof -
    have "item_ok b mint (Suc ?n) (?new ! k) i" "k < length ?ds"
      if "(k, i) \<in> set (net_in_flight net)" for k i
    proof -
      have "item_ok b mint ?n (?ds ! k) i" "k < length ?ds"
        using inv that by (auto simp: net_inv_def)
      then show "item_ok b mint (Suc ?n) (?new ! k) i" "k < length ?ds"
        by (auto simp: item_ok_def same lessThan_Suc)
    qed
    moreover have "item_ok b mint (Suc ?n) (?new ! k) ?L" if "k < length ?ds" "k \<noteq> at" for k
      using other [OF that] by (simp add: item_ok_def same copied_item_key)
        (simp add: copied_item_def)
    ultimately show ?thesis by (auto simp: net(3))
  qed
  moreover have "map (\<lambda>d. eng_device (sim_engine d)) ?new = map (\<lambda>d. eng_device (sim_engine d)) ?ds"
    using at by (simp add: map_update list_update_same_conv)
  ultimately show "net_inv b mint ?net"
    using inv by (simp add: net_inv_def net(1,2))
  have ids: "it_id ?L \<notin> rs_members (eng_seen (sim_engine (?ds ! k)))" if "k < length ?ds" for k
  proof
    assume "it_id ?L \<in> rs_members (eng_seen (sim_engine (?ds ! k)))"
    then obtain m where "m < ?n" "fst (mint ?n) = fst (mint m)"
      using dev [OF \<open>k < length ?ds\<close>] by (auto simp: dev_ok_def copied_item_def dest!: subsetD)
    with good_mint_id [OF good] show False by metis
  qed
  have old: "item_key i < item_key ?L \<and> it_id i \<noteq> it_id ?L" if msg: "(k, i) \<in> set (net_in_flight net)" for k i
  proof -
    have "item_ok b mint ?n (?ds ! k) i" using inv msg by (auto simp: net_inv_def)
    then obtain m where m: "m < ?n" "item_key i = mint_key mint m" by (auto simp: item_ok_def)
    moreover have "it_id i = fst (mint m)" using m(2) by (rule item_id_of_key)
    ultimately show ?thesis
      using good_mint_less [OF good m(1)] good_mint_id [OF good m(1)]
      by (simp add: copied_item_key) (simp add: copied_item_def)
  qed
  have "has_newest ?L (?new ! k) \<or> (k, ?L) \<in> set (net_in_flight ?net)
      \<and> it_id ?L \<notin> rs_members (eng_seen (sim_engine (?new ! k)))" if "k < length ?ds" for k
    using that ids [OF that] at by (cases "k = at") (simp_all add: net(3))
  moreover have "\<forall>(k, i)\<in>set (net_in_flight ?net).
      i = ?L \<or> item_key i < item_key ?L \<and> it_id i \<noteq> it_id ?L"
    using old by (auto simp: net(3))
  ultimately show "newest_inv mint ?L ?net"
    by (simp add: newest_inv_def net(1,2) copied_item_key)
qed

lemma net_step_delivered:
  assumes "net_inv b mint net" and "\<nexists>at c. ev = UserCopy at c"
  shows "(\<exists>rest. set rest = set (net_in_flight net)
             \<and> net_step b mint net ev = net\<lparr>net_in_flight := rest\<rparr>)
    \<or> (\<exists>to item rest. (to, item) \<in> set (net_in_flight net) \<and> set rest \<subseteq> set (net_in_flight net)
         \<and> set (net_in_flight net) \<subseteq> insert (to, item) (set rest)
         \<and> net_step b mint net ev = delivered b to item rest net)"
proof (cases ev)
  case DeliverOne
  then show ?thesis
    using deliver_one_eq [OF net_inv_in_range [OF assms(1)], of b mint]
    by (cases "net_in_flight net") (auto simp: delivered_def split: prod.splits)
next
  case (Repeat k)
  show ?thesis
  proof (cases "k < length (net_in_flight net)")
    case True
    obtain to item where m: "net_in_flight net ! k = (to, item)" by force
    with True have "(to, item) \<in> set (net_in_flight net)" by (metis nth_mem)
    moreover from this have "to < length (net_devices net)" using assms(1) by (auto simp: net_inv_def)
    ultimately have "net_step b mint net ev = delivered b to item (net_in_flight net) net"
      by (simp add: Repeat True m net_receive_eq delivered_def)
    with \<open>(to, item) \<in> set (net_in_flight net)\<close> show ?thesis by blast
  qed (auto simp: Repeat intro: exI [of _ "net_in_flight net"])
next
  case (Reorder k)
  let ?xs = "net_in_flight net"
  show ?thesis
  proof (cases "k < length ?xs")
    case True
    then have "set (?xs ! k # take k ?xs @ drop (Suc k) ?xs) = set ?xs"
      using arg_cong [OF id_take_nth_drop [OF True], of set] by simp
    with True show ?thesis
      by (intro disjI1 exI [of _ "?xs ! k # take k ?xs @ drop (Suc k) ?xs"]) (simp add: Reorder)
  qed (auto simp: Reorder intro: exI [of _ ?xs])
qed (use assms in simp)

lemma net_inv_reordered:
  "net_inv b mint net \<Longrightarrow> set rest = set (net_in_flight net) \<Longrightarrow> net_inv b mint (net\<lparr>net_in_flight := rest\<rparr>)"
  by (simp add: net_inv_def)

lemma newest_inv_reordered:
  "newest_inv mint L net \<Longrightarrow> set rest = set (net_in_flight net) \<Longrightarrow>
   newest_inv mint L (net\<lparr>net_in_flight := rest\<rparr>)"
  by (simp add: newest_inv_def)

lemma net_made_step:
  "in_range net \<Longrightarrow> net_made (net_step b mint net ev) \<le> net_made net + user_copies [ev]"
  by (cases ev) (auto simp: in_range_def deliver_one_eq net_receive_eq set_clipboard_def Let_def
    case_prod_beta split: list.split local_change.split)

lemma net_inv_step:
  assumes "net_inv b mint net" and "good_mint mint (net_made net + user_copies [ev])"
  shows "net_inv b mint (net_step b mint net ev)"
proof (cases "\<exists>at c. ev = UserCopy at c")
  case True
  then obtain at c where "ev = UserCopy at c" by blast
  with assms user_copy(1) [OF assms(1)] show ?thesis
    by (cases "sim_clipboard (net_devices net ! at) = Some c") (auto simp: set_clipboard_def)
next
  case False
  with net_step_delivered [OF assms(1), of ev] net_inv_delivered [OF assms(1)]
    net_inv_reordered [OF assms(1)]
  show ?thesis by metis
qed

lemma newest_inv_step:
  assumes "net_inv b mint net" and "newest_inv mint L net" and "good_mint mint (net_made net)"
    and "\<nexists>at c. ev = UserCopy at c"
  shows "newest_inv mint L (net_step b mint net ev)"
  using net_step_delivered [OF assms(1,4)] newest_inv_delivered [OF assms(1-3)]
    newest_inv_reordered [OF assms(2)]
  by metis

lemma net_made_run:
  "in_range net \<Longrightarrow> net_made (foldl (net_step b mint) net evs) \<le> net_made net + user_copies evs"
proof (induction evs arbitrary: net)
  case (Cons ev evs)
  then have "net_made (foldl (net_step b mint) net (ev # evs))
      \<le> net_made (net_step b mint net ev) + user_copies evs"
    by (simp add: in_range_step)
  with net_made_step [OF Cons.prems, of b mint ev] show ?case
    using user_copies_Cons [of ev evs] by simp
qed simp

lemma net_inv_run:
  "net_inv b mint net \<Longrightarrow> good_mint mint (net_made net + user_copies evs) \<Longrightarrow>
   net_inv b mint (foldl (net_step b mint) net evs)"
proof (induction evs arbitrary: net)
  case (Cons ev evs)
  let ?net = "net_step b mint net ev"
  note copies = user_copies_Cons [of ev evs]
  have "net_inv b mint ?net"
    using Cons.prems copies by (intro net_inv_step) (auto elim: good_mint_mono)
  moreover have "good_mint mint (net_made ?net + user_copies evs)"
    using net_made_step [OF net_inv_in_range [OF Cons.prems(1)], of b mint ev] copies Cons.prems(2)
    by (auto elim!: good_mint_mono)
  ultimately show ?case using Cons.IH by simp
qed simp

lemma newest_inv_run:
  "net_inv b mint net \<Longrightarrow> newest_inv mint L net \<Longrightarrow> good_mint mint (net_made net) \<Longrightarrow>
   user_copies evs = 0 \<Longrightarrow> newest_inv mint L (foldl (net_step b mint) net evs)"
proof (induction evs arbitrary: net)
  case (Cons ev evs)
  let ?net = "net_step b mint net ev"
  have none: "\<nexists>at c. ev = UserCopy at c" "user_copies evs = 0" "user_copies [ev] = 0"
    using Cons.prems(4) by (cases ev; simp)+
  then have "net_made ?net \<le> net_made net"
    using net_made_step [OF net_inv_in_range [OF Cons.prems(1)], of b mint ev] by simp
  then have "good_mint mint (net_made ?net)"
    using Cons.prems(3) by (auto elim!: good_mint_mono)
  with Cons none show ?case by (simp add: net_inv_step newest_inv_step)
qed simp

lemma net_inv_new: "distinct ids \<Longrightarrow> net_inv b mint (net_new ids)"
proof -
  assume "distinct ids"
  moreover have "(\<lambda>d. eng_device (sim_engine d)) \<circ>
      (\<lambda>i. \<lparr>sim_engine = engine_new i, sim_clipboard = None, sim_writes = 0\<rparr>) = id"
    by (rule ext) (simp add: engine_new_def)
  ultimately show ?thesis
    using engine_inv_new
    by (auto simp: net_inv_def net_new_def dev_ok_def) (simp_all add: engine_new_def recent_new_def)
qed

lemma length_net_run:
  "in_range net \<Longrightarrow>
   length (net_devices (foldl (net_step b mint) net evs)) = length (net_devices net)"
  by (induction evs arbitrary: net) (simp_all add: in_range_step)

section \<open>Properties\<close>

text \<open>
  C2: No sync loops. However copies, deliveries, repeated and reordered messages interleave, every
  copy causes at most one message to each other device, and delivering messages causes none, so
  delivering what is in flight always ends (with room to spare below the limit that signals a loop)
  with nothing in flight.
\<close>

theorem no_sync_loops:
  assumes "net = foldl (net_step b mint) (net_new ids) evs"
    and "length (net_in_flight net) < max_deliveries"
  shows "net_sent net \<le> user_copies evs * (length ids - 1)
    \<and> (\<exists>net'. settle b mint 0 net = Some net' \<and> net_in_flight net' = [] \<and> net_sent net' = net_sent net)"
proof -
  have "in_range net"
    unfolding assms(1) by (intro net.invar_run in_range_new)
  moreover have "net_sent net \<le> user_copies evs * (length ids - 1)"
    using sent_net_run [OF in_range_new, of b mint ids evs] by (simp add: assms(1)) (simp add: net_new_def)
  ultimately show ?thesis
    using settle_ends [of net 0 b mint] assms(2) by auto
qed

theorem no_sync_loops_witness:
  defines "net \<equiv> foldl (net_step id (\<lambda>n. (ItemId (of_nat n), int n)))
    (net_new [DeviceId 1, DeviceId 2, DeviceId 3]) [UserCopy 0 (Text [97])]"
  shows "net_sent net \<le> 2"
proof -
  have "length (net_in_flight net) < max_deliveries"
    by (simp add: net_def net_new_def set_clipboard_def on_local_change_def engine_new_def Let_def
        broadcast_def max_deliveries_def)
  with no_sync_loops [OF meta_eq_to_obj_eq [OF net_def]] show ?thesis by simp
qed

text \<open>
  C3: Convergence. Identifiers and times of copies increase across the network. When the last copy
  was made on some device and every message has been delivered since, in whatever order and however
  often, each device has a clipboard with the content hash of that copy, and its engine knows that
  copy as the item on the clipboard.
\<close>

theorem devices_converge_on_last_copy:
  assumes "good_mint mint (user_copies es + 1)" and "distinct ids" and "at < length ids"
    and "before = foldl (net_step b mint) (net_new ids) es"
    and "sim_clipboard (net_devices before ! at) \<noteq> Some c"
    and "net = foldl (net_step b mint) before (UserCopy at c # fs)"
    and "user_copies fs = 0" and "net_in_flight net = []" and "k < length ids"
  shows "(\<exists>c'. sim_clipboard (net_devices net ! k) = Some c' \<and> content_hash_of b c' = content_hash_of b c)
    \<and> eng_current (sim_engine (net_devices net ! k)) = Some (current_of (copied_item b mint at c before))"
proof -
  let ?L = "copied_item b mint at c before" and ?mid = "set_clipboard b mint at c before"
  have len: "length (net_devices before) = length ids"
    unfolding assms(4) by (simp add: length_net_run in_range_new) (simp add: net_new_def)
  have made: "net_made before \<le> user_copies es"
    using net_made_run [OF in_range_new, of b mint ids es] by (simp add: assms(4)) (simp add: net_new_def)
  have inv: "net_inv b mint before"
    unfolding assms(4) using assms(1,2)
    by (intro net_inv_run net_inv_new) (auto simp: net_new_def elim: good_mint_mono)
  have good: "good_mint mint (Suc (net_made before))"
    using assms(1) made by (auto elim!: good_mint_mono)
  have net: "net = foldl (net_step b mint) ?mid fs"
    using assms(3,6) len by simp
  have mid: "net_inv b mint ?mid" "newest_inv mint ?L ?mid"
    using user_copy [OF inv good _ assms(5)] assms(3) len by simp_all
  then have "net_made ?mid \<le> Suc (net_made before)"
    using net_made_step [OF net_inv_in_range [OF inv], of b mint "UserCopy at c"] assms(3) len by simp
  then have good': "good_mint mint (net_made ?mid)"
    using good by (auto elim!: good_mint_mono)
  have final: "net_inv b mint net" "newest_inv mint ?L net"
    unfolding net using mid good' assms(7) by (auto intro: net_inv_run newest_inv_run)
  have "length (net_devices net) = length ids"
    using assms(6) len net_inv_in_range [OF inv]
    by (simp add: length_net_run in_range_step del: net_step.simps)
  with final assms(8,9) have "has_newest ?L (net_devices net ! k)"
      "dev_ok b mint (net_made net) (net_devices net ! k)"
    by (auto simp: newest_inv_def net_inv_def)
  then show ?thesis
    by (auto simp: has_newest_def dev_ok_def) (simp add: copied_item_def)
qed

text \<open>Two devices copy at the same time; the messages cross, and both end on the later copy.\<close>

theorem devices_converge_on_last_copy_witness:
  defines "mint \<equiv> \<lambda>n :: nat. (ItemId (of_nat n), int n)"
  defines "before \<equiv> foldl (net_step id mint) (net_new [DeviceId 1, DeviceId 2]) [UserCopy 0 (Text [97])]"
  defines "net \<equiv> foldl (net_step id mint) before [UserCopy 1 (Text [98]), DeliverOne, DeliverOne]"
  shows "\<exists>c. sim_clipboard (net_devices net ! 0) = Some c
    \<and> content_hash_of id c = content_hash_of id (Text [98])"
proof -
  have lt: "m < 2 \<longleftrightarrow> m = 0 \<or> m = 1" for m :: nat by auto
  have "good_mint mint (user_copies [UserCopy 0 (Text [97])] + 1)"
    unfolding good_mint_def inj_on_def
    by (auto simp: lt mint_def mint_key_def numeral_2_eq_2 less_Suc_eq)
  moreover have "distinct [DeviceId 1, DeviceId 2]" by simp
  moreover have "sim_clipboard (net_devices before ! 1) \<noteq> Some (Text [98])"
    by (simp add: before_def net_new_def set_clipboard_def on_local_change_def engine_new_def Let_def
        broadcast_def mint_def)
  moreover have "net_in_flight net = []"
    by (simp add: net_def before_def net_new_def set_clipboard_def on_local_change_def engine_new_def
        Let_def broadcast_def mint_def deliver_one_def net_receive_def on_remote_item_def
        case_prod_beta recent_insert_def recent_new_def recent_items_def is_newer_than_def
        is_intact_def current_of_def less_item_id_def content_hash_of_def upt_rec hash_prefixes
        identity_text_def trim_end_def is_whitespace_def utf8_def utf8_char_def)
  ultimately show ?thesis
    using devices_converge_on_last_copy [of mint "[UserCopy 0 (Text [97])]" "[DeviceId 1, DeviceId 2]"
        1 before id "Text [98]" net "[DeliverOne, DeliverOne]" 0]
    by (simp add: before_def net_def)
qed

end
