(* ===== verification/Lan_Error.thy ===== *)
theory Lan_Error
  imports Rust_Text
begin

text \<open>
  \<open>crates/cled-lan/src/error.rs\<close>: the error type of the LAN crate. The texts of I/O, Noise and
  decoding errors come from other libraries and are carried along as strings.
\<close>

datatype lan_error =
    LanIo string
  | LanNoise string
  | Malformed string
  | LanTooLarge nat
  | IncompatibleVersion u16
  | WrongCode
  | NotPairing
  | CodeExpired
  | UnknownPeer
  | LanTimeout
  | LanStopped
  | LanOther string

type_synonym 'a lan_result = "lan_error + 'a"

text \<open>The \<open>?\<close> operator.\<close>

definition bind_ok :: "'e + 'a \<Rightarrow> ('a \<Rightarrow> 'e + 'b) \<Rightarrow> 'e + 'b" where
  "bind_ok r f = (case r of Inl e \<Rightarrow> Inl e | Inr a \<Rightarrow> f a)"

definition ok_or :: "'e \<Rightarrow> 'a option \<Rightarrow> 'e + 'a" where
  "ok_or e opt = (case opt of None \<Rightarrow> Inl e | Some a \<Rightarrow> Inr a)"

lemma bind_ok_simps [simp]: "bind_ok (Inl e) f = Inl e" "bind_ok (Inr a) f = f a"
  by (simp_all add: bind_ok_def)

lemma ok_or_simps [simp]: "ok_or e None = Inl e" "ok_or e (Some a) = Inr a"
  by (simp_all add: ok_or_def)

lemma bind_ok_Ok: "bind_ok r f = Inr b \<longleftrightarrow> (\<exists>a. r = Inr a \<and> f a = Inr b)"
  by (cases r) simp_all

lemma ok_or_Ok: "ok_or e opt = Inr a \<longleftrightarrow> opt = Some a"
  by (cases opt) simp_all

end
