(* ===== verification/Addr.thy ===== *)
theory Addr
  imports Interfaces
begin

unbundle bit_operations_syntax

text \<open>
  \<open>crates/cled-lan/src/addr.rs\<close>: in which order a device's announced addresses are tried. IPv4
  addresses are \<open>u32\<close>, IPv6 addresses \<open>u128\<close>, most significant part first; the predicates of
  \<open>std::net\<close> are written out.
\<close>

datatype socket_addr =
    V4 u32 u16
  | V6 "128 word" u16 (flowinfo: u32) (scope_id: u32)

definition v4_addr :: "nat \<Rightarrow> nat \<Rightarrow> nat \<Rightarrow> nat \<Rightarrow> u32" where
  "v4_addr a b c d = of_nat (a * 16777216 + b * 65536 + c * 256 + d)"

definition v4_octet1 :: "u32 \<Rightarrow> nat" where "v4_octet1 ip = unat (drop_bit 24 ip)"
definition v4_octet2 :: "u32 \<Rightarrow> nat" where "v4_octet2 ip = unat (drop_bit 16 ip) mod 256"

definition v4_is_loopback :: "u32 \<Rightarrow> bool" where
  "v4_is_loopback ip \<longleftrightarrow> v4_octet1 ip = 127"

definition v4_is_link_local :: "u32 \<Rightarrow> bool" where
  "v4_is_link_local ip \<longleftrightarrow> v4_octet1 ip = 169 \<and> v4_octet2 ip = 254"

definition v4_is_private :: "u32 \<Rightarrow> bool" where
  "v4_is_private ip \<longleftrightarrow>
     v4_octet1 ip = 10 \<or> v4_octet1 ip = 172 \<and> 16 \<le> v4_octet2 ip \<and> v4_octet2 ip \<le> 31
     \<or> v4_octet1 ip = 192 \<and> v4_octet2 ip = 168"

definition v6_is_loopback :: "128 word \<Rightarrow> bool" where
  "v6_is_loopback ip \<longleftrightarrow> ip = 1"

definition v6_is_unicast_link_local :: "128 word \<Rightarrow> bool" where
  "v6_is_unicast_link_local ip \<longleftrightarrow> drop_bit 118 ip = 0x3FA"

definition same_subnet :: "u32 \<Rightarrow> u32 \<Rightarrow> u32 \<Rightarrow> bool" where
  "same_subnet ip network netmask \<longleftrightarrow> netmask \<noteq> 0 \<and> ip AND netmask = network AND netmask"

fun score :: "socket_addr \<Rightarrow> (u32 \<times> u32) list \<Rightarrow> nat" where
  "score (V4 ip port) local_nets =
     (if v4_is_loopback ip then 6
      else if v4_is_link_local ip then 4
      else if \<exists>(net, netmask)\<in>set local_nets. same_subnet ip net netmask then 0
      else if v4_is_private ip then 1
      else 2)"
| "score (V6 ip port flow scope) local_nets =
     (if v6_is_loopback ip then 6
      else if v6_is_unicast_link_local ip then (if scope \<noteq> 0 then 5 else 7)
      else 3)"

definition rank_with :: "socket_addr list \<Rightarrow> (u32 \<times> u32) list \<Rightarrow> socket_addr list" where
  "rank_with addresses local_nets =
     map snd (sort_key fst
       (foldl (\<lambda>ranked address.
                 if address \<in> snd ` set ranked then ranked
                 else ranked @ [(score address local_nets, address)]) [] addresses))"

section \<open>Lemmas\<close>

text \<open>The first mention of each address, in the order announced.\<close>

definition first_mentions :: "'a list \<Rightarrow> 'a list" where
  "first_mentions xs = rev (remdups (rev xs))"

lemma first_mentions_snoc:
  "first_mentions (xs @ [x]) = (if x \<in> set xs then first_mentions xs else first_mentions xs @ [x])"
  by (simp add: first_mentions_def)

lemma set_first_mentions [simp]: "set (first_mentions xs) = set xs"
  by (simp add: first_mentions_def)

lemma rank_collect:
  "foldl (\<lambda>ranked address.
      if address \<in> snd ` set ranked then ranked else ranked @ [(score address nets, address)])
    [] addresses = map (\<lambda>a. (score a nets, a)) (first_mentions addresses)"
proof (induction addresses rule: rev_induct)
  case Nil
  then show ?case by (simp add: first_mentions_def)
next
  case (snoc x xs)
  have "snd ` set (map (\<lambda>a. (score a nets, a)) (first_mentions xs)) = set xs"
    by (simp add: image_image)
  with snoc show ?case by (simp add: first_mentions_snoc)
qed

lemma map_insort_key: "map f (insort_key (g \<circ> f) x xs) = insort_key g (f x) (map f xs)"
  by (induction xs) simp_all

lemma map_sort_key: "map f (sort_key (g \<circ> f) xs) = sort_key g (map f xs)"
  using map_insort_key [of f g] by (induction xs) (simp_all add: comp_def)

lemma rank_with_eq: "rank_with addresses nets = sort_key (\<lambda>a. score a nets) (first_mentions addresses)"
proof -
  let ?f = "\<lambda>a. (score a nets, a)"
  have "sort_key fst (map ?f xs) = map ?f (sort_key (fst \<circ> ?f) xs)" for xs
    by (rule map_sort_key [symmetric])
  then show ?thesis
    unfolding rank_with_def rank_collect by (simp add: comp_def)
qed

section \<open>Properties\<close>

text \<open>
  Ranking keeps every announced address exactly once (loopback included: nothing is dropped),
  puts better scores first, and among equally good addresses keeps the order in which they were
  first announced.
\<close>

theorem rank_with_is_stable_ranking:
  "set (rank_with addresses nets) = set addresses
   \<and> distinct (rank_with addresses nets)
   \<and> sorted (map (\<lambda>a. score a nets) (rank_with addresses nets))
   \<and> filter (\<lambda>a. score a nets = s) (rank_with addresses nets)
     = filter (\<lambda>a. score a nets = s) (first_mentions addresses)"
proof -
  have "distinct (first_mentions addresses)" by (simp add: first_mentions_def)
  then show ?thesis by (simp add: rank_with_eq sort_key_stable del: filter_sort)
qed

end
