(* ===== verification/Wire.thy ===== *)
theory Wire
  imports Lan_Error Engine Addr
begin

text \<open>
  \<open>crates/cled-lan/src/wire.rs\<close>: the messages between paired devices. The \<open>postcard\<close> encoding and
  the PNG codec of the \<open>image\<close> crate are parameters; PNG decoding stands for the whole call with its
  memory limit and yields dimensions and raw RGBA bytes.
\<close>

definition protocol_version :: u16 where
  "protocol_version = 1"

definition max_message_bytes :: nat where
  "max_message_bytes = 16 * 1024 * 1024"

record hello =
  h_protocol :: u16
  h_device_id :: "byte list"
  h_name :: rstr
  h_listen_port :: u16
  h_time_ms :: u64

datatype bye_reason = Unpaired

record roster_peer =
  rp_device_id :: "byte list"
  rp_name :: rstr
  rp_public_key :: "byte list"
  rp_paired_at_ms :: u64
  rp_address :: "socket_addr option"

record roster_removal =
  rr_peer :: roster_peer
  rr_removed_at_ms :: u64

record roster =
  ro_members :: "roster_peer list"
  ro_removed :: "roster_removal list"

datatype wire_content = WireText rstr | WireImage u32 u32 "byte list"

record wire_item =
  w_id :: "byte list"
  w_origin :: "byte list"
  w_created_at_ms :: u64
  w_content_hash :: "byte list"
  w_content :: wire_content

datatype message =
    Hello hello
  | Item wire_item
  | Ping
  | Bye bye_reason
  | RosterMsg roster

definition message_encode ::
  "(message \<Rightarrow> byte list lan_result) \<Rightarrow> message \<Rightarrow> byte list lan_result" where
  "message_encode postcard m =
     bind_ok (postcard m) (\<lambda>bytes.
       if max_message_bytes < length bytes then Err (LanTooLarge (length bytes)) else Ok bytes)"

definition message_decode ::
  "(byte list \<Rightarrow> message option) \<Rightarrow> byte list \<Rightarrow> message lan_result" where
  "message_decode postcard_from bytes = ok_or (Malformed ''postcard'') (postcard_from bytes)"

text \<open>Whole milliseconds since the epoch; 0 before it, saturating at the end of \<open>u64\<close>.\<close>

definition to_ms :: "int \<Rightarrow> u64" where
  "to_ms time =
     (if time < 0 then 0
      else let ms = nat time div 1000000 in if ms < 2 ^ 64 then of_nat ms else - 1)"

definition from_ms :: "u64 \<Rightarrow> int" where
  "from_ms ms = int (unat ms) * 1000000"

definition encode_png ::
  "(u32 \<Rightarrow> u32 \<Rightarrow> byte list \<Rightarrow> byte list option) \<Rightarrow> pixel_image \<Rightarrow> byte list lan_result" where
  "encode_png png_write img =
     ok_or (Malformed ''PNG encoding failed'')
       (png_write (img_width img) (img_height img) (img_rgba img))"

definition decode_png ::
  "(byte list \<Rightarrow> (u32 \<times> u32 \<times> byte list) option) \<Rightarrow> u32 \<Rightarrow> u32 \<Rightarrow> byte list \<Rightarrow> pixel_image lan_result" where
  "decode_png png_read width height png =
     bind_ok (ok_or (Malformed ''PNG decoding failed'') (png_read png)) (\<lambda>(w, h, raw).
       if (w, h) \<noteq> (width, height) then Err (Malformed ''image size does not match'')
       else ok_or (Malformed ''bad image buffer'') (from_rgba width height raw))"

definition from_item ::
  "(u32 \<Rightarrow> u32 \<Rightarrow> byte list \<Rightarrow> byte list option) \<Rightarrow> clipboard_item \<Rightarrow> wire_item lan_result" where
  "from_item png_write item =
     bind_ok
       (case it_content item of
          Text text \<Rightarrow> Ok (WireText text)
        | Image img \<Rightarrow>
            bind_ok (encode_png png_write img) (\<lambda>png.
              Ok (WireImage (img_width img) (img_height img) png)))
       (\<lambda>content.
          Ok \<lparr>w_id = item_id_to_bytes (it_id item), w_origin = device_id_to_bytes (it_origin item),
              w_created_at_ms = to_ms (it_created item),
              w_content_hash = hash_bytes (it_hash item), w_content = content\<rparr>)"

definition into_item ::
  "(byte list \<Rightarrow> (u32 \<times> u32 \<times> byte list) option) \<Rightarrow> wire_item \<Rightarrow> clipboard_item lan_result" where
  "into_item png_read w =
     bind_ok
       (case w_content w of
          WireText text \<Rightarrow> Ok (content_text text)
        | WireImage width height png \<Rightarrow>
            bind_ok (decode_png png_read width height png) (\<lambda>img. Ok (Image img)))
       (\<lambda>content.
          Ok \<lparr>it_id = item_id_from_bytes (w_id w), it_origin = device_id_from_bytes (w_origin w),
              it_hash = ContentHash (w_content_hash w), it_created = from_ms (w_created_at_ms w),
              it_content = content\<rparr>)"

section \<open>Lemmas\<close>

text \<open>What a PNG codec promises: it reads back the pixels it wrote.\<close>

definition png_codec ::
  "(u32 \<Rightarrow> u32 \<Rightarrow> byte list \<Rightarrow> byte list option) \<Rightarrow>
   (byte list \<Rightarrow> (u32 \<times> u32 \<times> byte list) option) \<Rightarrow> pixel_image \<Rightarrow> bool" where
  "png_codec png_write png_read img \<longleftrightarrow>
     (\<exists>png. png_write (img_width img) (img_height img) (img_rgba img) = Some png
        \<and> png_read png = Some (img_width img, img_height img, img_rgba img))"

text \<open>Content as the clipboard crate produces it.\<close>

fun clean_content :: "content \<Rightarrow> bool" where
  "clean_content (Text s) = (13 \<notin> set s)"
| "clean_content (Image i) = (from_rgba (img_width i) (img_height i) (img_rgba i) = Some i)"

lemma from_ms_to_ms:
  "0 \<le> t \<Longrightarrow> t < 2 ^ 64 * 1000000 \<Longrightarrow> from_ms (to_ms t) = t div 1000000 * 1000000"
proof -
  assume "0 \<le> t" "t < 2 ^ 64 * 1000000"
  then have "nat t div 1000000 < 2 ^ 64"
    by (intro less_mult_imp_div_less) (simp add: nat_less_iff)
  moreover have "int (nat t div 1000000) = t div 1000000"
    using \<open>0 \<le> t\<close> by (simp add: zdiv_int)
  ultimately show ?thesis
    using \<open>0 \<le> t\<close> by (simp add: to_ms_def from_ms_def unat_of_nat Let_def)
qed

lemma wire_round_trip:
  assumes "clean_content (it_content item)"
    and "\<forall>img. it_content item = Image img \<longrightarrow> png_codec png_write png_read img"
    and "from_ms (to_ms (it_created item)) = t"
  shows "bind_ok (from_item png_write item) (into_item png_read) = Ok (item\<lparr>it_created := t\<rparr>)"
proof (cases "it_content item")
  case (Text s)
  with assms show ?thesis
    by (simp add: from_item_def into_item_def content_text_def normalize_id)
next
  case (Image img)
  with assms(2) obtain png where "png_write (img_width img) (img_height img) (img_rgba img) = Some png"
      "png_read png = Some (img_width img, img_height img, img_rgba img)"
    by (auto simp: png_codec_def)
  with Image assms(1,3) show ?thesis
    by (simp add: from_item_def into_item_def encode_png_def decode_png_def)
qed

lemma is_intact_time [simp]: "is_intact b (item\<lparr>it_created := t\<rparr>) = is_intact b item"
  by (simp add: is_intact_def)

section \<open>Properties\<close>

text \<open>
  An item that is sent arrives with its identifier, origin, hash and content, still intact, and
  with its time cut to whole milliseconds.
\<close>

theorem wire_item_round_trip:
  assumes "clean_content (it_content item)"
    and "\<forall>img. it_content item = Image img \<longrightarrow> png_codec png_write png_read img"
    and "0 \<le> it_created item" and "it_created item < 2 ^ 64 * 1000000"
  shows "\<exists>item'. bind_ok (from_item png_write item) (into_item png_read) = Ok item'
    \<and> item' = item\<lparr>it_created := it_created item div 1000000 * 1000000\<rparr>
    \<and> is_intact b item' = is_intact b item"
  using wire_round_trip [OF assms(1,2) from_ms_to_ms [OF assms(3,4)]] by simp

theorem wire_item_round_trip_witness:
  defines "img \<equiv> \<lparr>img_width = 1, img_height = 1, img_rgba = [1, 2, 3, 4]\<rparr>"
  defines "item \<equiv> item_new id (ItemId 7) 1999999 (DeviceId 2) (Image img)"
  shows "bind_ok (from_item (\<lambda>w h rgba. Some rgba) item) (into_item (\<lambda>png. Some (1, 1, png)))
         = Ok (item\<lparr>it_created := 1000000\<rparr>)"
proof -
  have "clean_content (it_content item)"
    by (simp add: item_def img_def from_rgba_Some_iff)
  moreover have "\<forall>i. it_content item = Image i \<longrightarrow> png_codec (\<lambda>w h rgba. Some rgba) (\<lambda>png. Some (1, 1, png)) i"
    by (simp add: item_def img_def png_codec_def)
  ultimately show ?thesis
    using wire_item_round_trip [of item "\<lambda>w h rgba. Some rgba" "\<lambda>png. Some (1, 1, png)" id]
    by (simp add: item_def)
qed

text \<open>
  C40: The cut time breaks the newest-wins rule between devices that copy within one millisecond:
  the copy a device holds has its full time, the other device's copy arrives with its time cut, so
  each device takes the other's copy for stale and keeps its own.
\<close>

theorem copies_in_one_millisecond_never_converge:
  assumes "item_a = item_new b id_a t_a dev_a c_a" and "item_b = item_new b id_b t_b dev_b c_b"
    and "t_a div 1000000 = t_b div 1000000" and "0 < t_a mod 1000000" and "0 < t_b mod 1000000"
    and "0 \<le> t_a" and "t_a < 2 ^ 64 * 1000000" and "0 \<le> t_b" and "t_b < 2 ^ 64 * 1000000"
    and "dev_a \<noteq> dev_b" and "id_a \<noteq> id_b"
    and "c_a = Text s_a" and "c_b = Text s_b" and "13 \<notin> set s_a \<union> set s_b"
  shows "\<exists>in_a in_b.
     bind_ok (from_item png_write item_a) (into_item png_read) = Ok in_b
     \<and> bind_ok (from_item png_write item_b) (into_item png_read) = Ok in_a
     \<and> fst (on_remote_item b in_a (snd (on_local_change b id_a t_a c_a (engine_new dev_a))))
        = Ignore Stale
     \<and> fst (on_remote_item b in_b (snd (on_local_change b id_b t_b c_b (engine_new dev_b))))
        = Ignore Stale"
proof -
  have cut: "t div 1000000 * 1000000 < t" if "0 < t mod 1000000" for t :: int
    using that by (metis add.right_neutral add_strict_left_mono div_mult_mod_eq)
  have lt: "t_b div 1000000 * 1000000 < t_a" "t_a div 1000000 * 1000000 < t_b"
    using cut [OF assms(4)] cut [OF assms(5)] assms(3) by simp_all
  have "bind_ok (from_item png_write item_a) (into_item png_read)
      = Ok (item_a\<lparr>it_created := t_a div 1000000 * 1000000\<rparr>)"
    using assms by (intro wire_round_trip) (auto simp: from_ms_to_ms)
  moreover have "bind_ok (from_item png_write item_b) (into_item png_read)
      = Ok (item_b\<lparr>it_created := t_b div 1000000 * 1000000\<rparr>)"
    using assms by (intro wire_round_trip) (auto simp: from_ms_to_ms)
  moreover have "fst (on_remote_item b (item_b\<lparr>it_created := t_b div 1000000 * 1000000\<rparr>)
      (snd (on_local_change b id_a t_a c_a (engine_new dev_a)))) = Ignore Stale"
    using assms(10,11) lt unfolding assms(2)
    by (simp add: on_local_change_def on_remote_item_def engine_new_def recent_insert_def
        recent_new_def recent_items_def is_newer_than_def Let_def)
  moreover have "fst (on_remote_item b (item_a\<lparr>it_created := t_a div 1000000 * 1000000\<rparr>)
      (snd (on_local_change b id_b t_b c_b (engine_new dev_b)))) = Ignore Stale"
    using assms(10,11) lt unfolding assms(1)
    by (simp add: on_local_change_def on_remote_item_def engine_new_def recent_insert_def
        recent_new_def recent_items_def is_newer_than_def Let_def)
  ultimately show ?thesis by blast
qed

theorem copies_in_one_millisecond_never_converge_witness:
  "\<exists>in_a. fst (on_remote_item id in_a
      (snd (on_local_change id (ItemId 1) 5000001 (Text [97]) (engine_new (DeviceId 1)))))
    = Ignore Stale"
  using copies_in_one_millisecond_never_converge
    [of "item_new id (ItemId 1) 5000001 (DeviceId 1) (Text [97])" id "ItemId 1" 5000001 "DeviceId 1"
      "Text [97]" "item_new id (ItemId 2) 5000002 (DeviceId 2) (Text [98])" "ItemId 2" 5000002
      "DeviceId 2" "Text [98]" "[97]" "[98]" "\<lambda>_ _ _. None" "\<lambda>_. None"]
  by auto

text \<open>
  Nothing larger than the message limit is ever sent, the encoding of what is sent decodes to
  the same message, and a decoded image always has the announced size and a buffer of that size.
\<close>

theorem messages_stay_in_bounds:
  assumes "\<forall>bytes. postcard m = Ok bytes \<longrightarrow> postcard_from bytes = Some m"
  shows "(\<forall>bytes. message_encode postcard m = Ok bytes \<longrightarrow>
            length bytes \<le> max_message_bytes \<and> message_decode postcard_from bytes = Ok m)
    \<and> (\<forall>img. decode_png png_read w h png = Ok img \<longrightarrow>
          img_width img = w \<and> img_height img = h \<and> length (img_rgba img) = unat w * unat h * 4)"
  using assms
  by (auto simp: message_encode_def message_decode_def bind_ok_Ok ok_or_Ok decode_png_def
      from_rgba_Some_iff split: if_splits prod.splits)

theorem messages_stay_in_bounds_witness:
  "message_decode (\<lambda>bs. if bs = [2] then Some Ping else None) [2] = Ok Ping"
  using messages_stay_in_bounds [of "\<lambda>m. Ok [2]" Ping "\<lambda>bs. if bs = [2] then Some Ping else None"
      "\<lambda>_. None" 0 0 "[]"]
  by (simp add: message_encode_def max_message_bytes_def)

end
