(* ===== verification/Keys.thy ===== *)
theory Keys
  imports Lan_Error
begin

text \<open>
  \<open>crates/cled-lan/src/keys.rs\<close>: the key file and hexadecimal text. What \<open>fs::read\<close> returns, the
  key pair the Noise library generates and the outcome of each file operation are arguments; the
  bytes left in the key file are part of the result.
\<close>

definition key_len :: nat where
  "key_len = 32"

record keys =
  key_private :: "byte list"
  key_public :: "byte list"

definition to_key :: "byte list \<Rightarrow> byte list lan_result" where
  "to_key bytes = (if length bytes = key_len then Ok bytes else Err (Malformed ''key must be 32 bytes''))"

definition keys_generate :: "(byte list \<times> byte list) lan_result \<Rightarrow> keys lan_result" where
  "keys_generate pair =
     bind_ok pair (\<lambda>(private, public).
       bind_ok (to_key private) (\<lambda>private.
         bind_ok (to_key public) (\<lambda>public.
           Ok \<lparr>key_private = private, key_public = public\<rparr>)))"

datatype read_outcome = ReadOk "byte list" | ReadNotFound | ReadFailed string

text \<open>
  \<open>load_or_create\<close>: the file before, the generated pair, and the first file operation that fails
  (creating the directory, truncating the file, or writing, after \<open>n\<close> of the 64 bytes), if any. The
  result is what is returned and what is in the file afterwards (\<open>None\<close>: no file).
\<close>

datatype file_fault = DirFails | OpenFails | WriteFails nat

definition file_before :: "read_outcome \<Rightarrow> byte list option" where
  "file_before r = (case r of ReadOk bs \<Rightarrow> Some bs | _ \<Rightarrow> None)"

definition load_or_create ::
  "read_outcome \<Rightarrow> (byte list \<times> byte list) lan_result \<Rightarrow> file_fault option
   \<Rightarrow> keys lan_result \<times> byte list option" where
  "load_or_create r generated fault =
     (let create =
        (case keys_generate generated of
           Inl e \<Rightarrow> (Err e, file_before r)
         | Inr keys \<Rightarrow>
             (case fault of
                None \<Rightarrow> (Ok keys, Some (key_private keys @ key_public keys))
              | Some DirFails \<Rightarrow> (Err (LanIo ''create_dir_all''), file_before r)
              | Some OpenFails \<Rightarrow> (Err (LanIo ''open''), file_before r)
              | Some (WriteFails n) \<Rightarrow>
                  (Err (LanIo ''write''),
                   Some (take (min n 63) (key_private keys @ key_public keys)))))
      in case r of
           ReadOk bytes \<Rightarrow>
             if length bytes = 2 * key_len
             then (bind_ok (to_key (take key_len bytes)) (\<lambda>private.
                     bind_ok (to_key (drop key_len bytes)) (\<lambda>public.
                       Ok \<lparr>key_private = private, key_public = public\<rparr>)), Some bytes)
             else create
         | ReadNotFound \<Rightarrow> create
         | ReadFailed e \<Rightarrow> (Err (LanIo e), None))"

section \<open>Hexadecimal text\<close>

definition hex_digit :: "nat \<Rightarrow> nat" where
  "hex_digit n = (if n < 10 then 48 + n else 87 + n)"

definition hex_byte :: "byte \<Rightarrow> rstr" where
  "hex_byte b = [hex_digit (unat b div 16), hex_digit (unat b mod 16)]"

definition hex :: "byte list \<Rightarrow> rstr" where
  "hex bytes = concat (map hex_byte bytes)"

text \<open>\<open>char::to_digit(16)\<close> and \<open>u8::from_str_radix(_, 16)\<close> on two bytes: a leading plus is accepted.\<close>

definition hex_value :: "nat \<Rightarrow> nat option" where
  "hex_value c =
     (if 48 \<le> c \<and> c \<le> 57 then Some (c - 48)
      else if 97 \<le> c \<and> c \<le> 102 then Some (c - 87)
      else if 65 \<le> c \<and> c \<le> 70 then Some (c - 55)
      else None)"

definition from_str_radix16 :: "byte \<Rightarrow> byte \<Rightarrow> byte option" where
  "from_str_radix16 a b =
     (if unat a = 43 then map_option of_nat (hex_value (unat b))
      else case (hex_value (unat a), hex_value (unat b)) of
             (Some x, Some y) \<Rightarrow> Some (of_nat (16 * x + y))
           | _ \<Rightarrow> None)"

text \<open>
  \<open>from_hex\<close> on the UTF-8 bytes of the text. A character outside ASCII makes \<open>str::get\<close> or
  \<open>from_str_radix\<close> refuse; both give \<open>None\<close>.
\<close>

fun from_hex_bytes :: "byte list \<Rightarrow> byte list option" where
  "from_hex_bytes [] = Some []"
| "from_hex_bytes [a] = None"
| "from_hex_bytes (a # b # rest) =
     (case from_str_radix16 a b of
        None \<Rightarrow> None
      | Some x \<Rightarrow> map_option (Cons x) (from_hex_bytes rest))"

definition from_hex :: "rstr \<Rightarrow> byte list option" where
  "from_hex text = (if length (utf8 text) mod 2 \<noteq> 0 then None else from_hex_bytes (utf8 text))"

section \<open>Lemmas\<close>

lemma hex_value_digit: "n < 16 \<Longrightarrow> hex_value (hex_digit n) = Some n"
  by (auto simp: hex_value_def hex_digit_def)

lemma hex_digit_range: "n < 16 \<Longrightarrow> 48 \<le> hex_digit n \<and> hex_digit n < 128"
  by (auto simp: hex_digit_def)

lemma byte_nibbles: "unat (b :: byte) div 16 < 16" "unat b mod 16 < 16"
  using unsigned_less [of b, where 'a = nat] by (simp_all add: less_mult_imp_div_less)

lemma from_str_radix16_hex:
  "from_str_radix16 (of_nat (hex_digit (unat b div 16))) (of_nat (hex_digit (unat b mod 16))) = Some b"
proof -
  have u: "unat (of_nat (hex_digit n) :: byte) = hex_digit n" if "n < 16" for n
    using hex_digit_range [OF that] by (intro unat_byte) simp
  show ?thesis
    using hex_digit_range [of "unat b div 16"]
    by (simp add: from_str_radix16_def u byte_nibbles hex_value_digit del: of_nat_add of_nat_mult)
qed

lemma utf8_hex_byte:
  "utf8 (hex_byte b) = [of_nat (hex_digit (unat b div 16)), of_nat (hex_digit (unat b mod 16))]"
  using hex_digit_range [OF byte_nibbles(1), of b] hex_digit_range [OF byte_nibbles(2), of b]
  by (simp add: hex_byte_def utf8_def utf8_char_def)

lemma utf8_hex_Cons: "utf8 (hex (b # bs)) = utf8 (hex_byte b) @ utf8 (hex bs)"
  by (simp add: hex_def utf8_def)

lemma from_hex_hex: "from_hex (hex bs) = Some bs"
proof -
  have "from_hex_bytes (utf8 (hex bs)) = Some bs \<and> length (utf8 (hex bs)) mod 2 = 0"
  proof (induction bs)
    case (Cons b bs)
    then show ?case
      by (simp add: utf8_hex_Cons utf8_hex_byte from_str_radix16_hex)
  qed (simp add: hex_def utf8_def)
  then show ?thesis by (simp add: from_hex_def)
qed

lemma to_key_Ok [simp]: "to_key bs = Ok k \<longleftrightarrow> length bs = key_len \<and> k = bs"
  by (auto simp: to_key_def)

definition good_keys :: "keys \<Rightarrow> bool" where
  "good_keys k \<longleftrightarrow> length (key_private k) = key_len \<and> length (key_public k) = key_len"

lemma keys_generate_good: "keys_generate pair = Ok k \<Longrightarrow> good_keys k"
  by (auto simp: keys_generate_def bind_ok_Ok good_keys_def split: prod.splits)

lemma load_keys: "good_keys k \<Longrightarrow>
  load_or_create (ReadOk (key_private k @ key_public k)) g f
  = (Ok k, Some (key_private k @ key_public k))"
  by (simp add: load_or_create_def good_keys_def to_key_def)

section \<open>Properties\<close>

text \<open>
  Device identity persists. Whenever loading or creating the key pair succeeds, the file holds
  exactly that pair, so the next start loads the same identity, whatever is generated or fails
  then. A start that was cut off while writing never leaves a file that is taken for a key pair.
\<close>

theorem identity_persists:
  assumes "load_or_create r generated fault = (Ok k, file)"
  shows "good_keys k \<and> (\<exists>bytes. file = Some bytes
    \<and> (\<forall>generated' fault'. load_or_create (ReadOk bytes) generated' fault' = (Ok k, Some bytes)))
    \<and> (snd (load_or_create ReadNotFound generated (Some (WriteFails n))) = Some bytes' \<longrightarrow>
        length bytes' \<noteq> 2 * key_len)"
proof -
  have "good_keys k \<and> file = Some (key_private k @ key_public k)"
    using assms
    by (auto simp: load_or_create_def Let_def bind_ok_Ok good_keys_def key_len_def keys_generate_good
        split: read_outcome.splits sum.splits option.splits file_fault.splits if_splits
        dest: keys_generate_good [unfolded good_keys_def key_len_def])
  moreover have "snd (load_or_create ReadNotFound generated (Some (WriteFails n))) = Some bytes' \<longrightarrow>
      length bytes' \<noteq> 2 * key_len"
    by (auto simp: load_or_create_def Let_def key_len_def file_before_def split: sum.splits)
  ultimately show ?thesis using load_keys by blast
qed

theorem identity_persists_witness:
  "load_or_create (ReadOk (replicate 32 1 @ replicate 32 2)) (Err LanTimeout) None
   = (Ok \<lparr>key_private = replicate 32 1, key_public = replicate 32 2\<rparr>,
      Some (replicate 32 1 @ replicate 32 2))"
proof -
  have "load_or_create ReadNotFound (Ok (replicate 32 1, replicate 32 2)) None
      = (Ok \<lparr>key_private = replicate 32 1, key_public = replicate 32 2\<rparr>,
         Some (replicate 32 1 @ replicate 32 2))"
    by (simp add: load_or_create_def keys_generate_def to_key_def key_len_def)
  from identity_persists [OF this, of 0 "[]"] show ?thesis by auto
qed

text \<open>Hexadecimal text of keys reads back as the same bytes.\<close>

theorem hex_round_trip: "from_hex (hex bytes) = Some bytes"
  by (rule from_hex_hex)

end
