(* ===== verification/Noise_Channel.thy ===== *)
theory Noise_Channel
  imports Wire Keys
begin

text \<open>
  \<open>crates/cled-lan/src/noise.rs\<close>: framing and chunking of messages on an encrypted channel, and the
  handshake loop. The Noise library is a parameter: \<open>seal\<close> and \<open>unseal\<close> are \<open>write_message\<close> and
  \<open>read_message\<close> of its transport state. A byte stream is the list of the bytes that will arrive
  before it ends; writing appends to the list of bytes sent. The stream of the other side ends
  with an I/O error.
\<close>

definition max_noise_message :: nat where "max_noise_message = 65535"
definition tag_len :: nat where "tag_len = 16"
definition max_chunk :: nat where "max_chunk = max_noise_message - tag_len"

section \<open>Frames\<close>

definition write_frame :: "byte list \<Rightarrow> byte list lan_result" where
  "write_frame frame =
     (if length frame < 2 ^ 16 then Ok (be_bytes (of_nat (length frame) :: u16) @ frame)
      else Err (LanTooLarge (length frame)))"

definition read_exact :: "nat \<Rightarrow> byte list \<Rightarrow> (byte list \<times> byte list) lan_result" where
  "read_exact n stream =
     (if n \<le> length stream then Ok (take n stream, drop n stream)
      else Err (LanIo ''unexpected end of file''))"

definition read_frame :: "byte list \<Rightarrow> (byte list \<times> byte list) lan_result" where
  "read_frame stream =
     bind_ok (read_exact 2 stream) (\<lambda>(len, stream).
       read_exact (unat (be_word len :: u16)) stream)"

section \<open>The cipher\<close>

function chunks :: "nat \<Rightarrow> 'a list \<Rightarrow> 'a list list" where
  "chunks n xs = (if n = 0 \<or> xs = [] then [] else take n xs # chunks n (drop n xs))"
  by pat_completeness auto
termination
  by (relation "measure (\<lambda>(_, xs). length xs)") auto

declare chunks.simps [simp del]

type_synonym 's seal = "'s \<Rightarrow> byte list \<Rightarrow> (byte list \<times> 's) lan_result"

fun send_chunks :: "'s seal \<Rightarrow> 's \<Rightarrow> byte list list \<Rightarrow> unit lan_result \<times> byte list \<times> 's" where
  "send_chunks seal s [] = (Ok (), [], s)"
| "send_chunks seal s (c # cs) =
     (case seal s c of
        Inl e \<Rightarrow> (Err e, [], s)
      | Inr (out, s') \<Rightarrow>
          (case write_frame out of
             Inl e \<Rightarrow> (Err e, [], s')
           | Inr bytes \<Rightarrow>
               (let (r, more, s'') = send_chunks seal s' cs in (r, bytes @ more, s''))))"

definition cipher_send :: "'s seal \<Rightarrow> 's \<Rightarrow> byte list \<Rightarrow> unit lan_result \<times> byte list \<times> 's" where
  "cipher_send seal s message =
     (if max_message_bytes < length message then (Err (LanTooLarge (length message)), [], s)
      else if 2 ^ 32 \<le> length message then (Err (LanTooLarge (length message)), [], s)
      else let plain = be_bytes (of_nat (length message) :: u32) @ message
           in send_chunks seal s (chunks max_chunk plain))"

text \<open>One round of the receive loop, after a frame was decrypted to \<open>chunk\<close>.\<close>

definition recv_chunk ::
  "byte list \<Rightarrow> nat option \<Rightarrow> byte list \<Rightarrow> (byte list \<times> nat) lan_result" where
  "recv_chunk message expected chunk =
     bind_ok
       (case expected of
          Some len \<Rightarrow> Ok (len, chunk)
        | None \<Rightarrow>
            if length chunk < 4 then Err (Malformed ''short message header'')
            else let len = unat (be_word (take 4 chunk) :: u32)
                 in if max_message_bytes < len then Err (LanTooLarge len) else Ok (len, drop 4 chunk))
       (\<lambda>(len, chunk).
          let message = message @ chunk
          in if len < length message then Err (Malformed ''message longer than announced'')
             else Ok (message, len))"

lemma read_frame_shorter: "read_frame stream = Ok (frame, rest) \<Longrightarrow> length rest < length stream"
  by (auto simp: read_frame_def read_exact_def bind_ok_Ok split: if_splits)

function recv_loop ::
  "'s seal \<Rightarrow> 's \<Rightarrow> byte list \<Rightarrow> nat option \<Rightarrow> byte list \<Rightarrow> byte list lan_result \<times> byte list \<times> 's" where
  "recv_loop unseal s message expected stream =
     (case read_frame stream of
        Inl e \<Rightarrow> (Err e, stream, s)
      | Inr (frame, stream') \<Rightarrow>
          (case unseal s frame of
             Inl e \<Rightarrow> (Err e, stream', s)
           | Inr (chunk, s') \<Rightarrow>
               (case recv_chunk message expected chunk of
                  Inl e \<Rightarrow> (Err e, stream', s')
                | Inr (message', len) \<Rightarrow>
                    if length message' = len then (Ok message', stream', s')
                    else recv_loop unseal s' message' (Some len) stream')))"
  by pat_completeness auto
termination
  by (relation "measure (\<lambda>(_, _, _, _, stream). length stream)")
    (auto dest: read_frame_shorter)

declare recv_loop.simps [simp del]

definition cipher_recv :: "'s seal \<Rightarrow> 's \<Rightarrow> byte list \<Rightarrow> byte list lan_result \<times> byte list \<times> 's" where
  "cipher_recv unseal s stream = recv_loop unseal s [] None stream"

section \<open>The handshake\<close>

text \<open>
  What the code uses of a Noise handshake state \<open>'h\<close> and its transport state \<open>'s\<close>. The loop runs
  until the library says the handshake is finished; \<open>None\<close> stands for a loop that never ends.
\<close>

record ('h, 's) noise_lib =
  hs_finished :: "'h \<Rightarrow> bool"
  hs_my_turn :: "'h \<Rightarrow> bool"
  hs_write :: "'h \<Rightarrow> (byte list \<times> 'h) lan_result"
  hs_read :: "'h \<Rightarrow> byte list \<Rightarrow> 'h lan_result"
  hs_remote_static :: "'h \<Rightarrow> byte list option"
  hs_into_transport :: "'h \<Rightarrow> 's lan_result"

partial_function (option) handshake_loop ::
  "('h, 's) noise_lib \<Rightarrow> 'h \<Rightarrow> byte list \<Rightarrow> byte list \<Rightarrow> ('h lan_result \<times> byte list \<times> byte list) option"
where
  "handshake_loop lib h out stream =
     (if hs_finished lib h then Some (Ok h, out, stream)
      else if hs_my_turn lib h then
        (case hs_write lib h of
           Inl e \<Rightarrow> Some (Err e, out, stream)
         | Inr (msg, h') \<Rightarrow>
             (case write_frame msg of
                Inl e \<Rightarrow> Some (Err e, out, stream)
              | Inr bytes \<Rightarrow> handshake_loop lib h' (out @ bytes) stream))
      else
        (case read_frame stream of
           Inl e \<Rightarrow> Some (Err e, out, stream)
         | Inr (frame, stream') \<Rightarrow>
             (case hs_read lib h frame of
                Inl e \<Rightarrow> Some (Err e, out, stream')
              | Inr h' \<Rightarrow> handshake_loop lib h' out stream')))"

definition handshake ::
  "('h, 's) noise_lib \<Rightarrow> 'h \<Rightarrow> byte list \<Rightarrow> (('s \<times> byte list) lan_result \<times> byte list \<times> byte list) option"
where
  "handshake lib h stream =
     map_option
       (\<lambda>(r, out, rest).
          (bind_ok r (\<lambda>h.
             bind_ok (ok_or (LanOther ''peer sent no static key'') (hs_remote_static lib h)) (\<lambda>key.
               bind_ok (to_key key) (\<lambda>key.
                 bind_ok (hs_into_transport lib h) (\<lambda>transport. Ok (transport, key))))), out, rest))
       (handshake_loop lib h [] stream)"

definition session_handshake ::
  "('h, 's) noise_lib \<Rightarrow> 'h lan_result \<Rightarrow> byte list \<Rightarrow> ('s lan_result \<times> byte list \<times> byte list) option"
where
  "session_handshake lib built stream =
     (case built of
        Inl e \<Rightarrow> Some (Err e, [], stream)
      | Inr h \<Rightarrow> map_option (\<lambda>(r, out, rest). (bind_ok r (\<lambda>(s, _). Ok s), out, rest))
                  (handshake lib h stream))"

text \<open>The pairing handshake also gives the static key of the other device.\<close>

definition pairing_handshake ::
  "('h, 's) noise_lib \<Rightarrow> 'h lan_result \<Rightarrow> byte list \<Rightarrow> (('s \<times> byte list) lan_result \<times> byte list \<times> byte list) option"
where
  "pairing_handshake lib built stream =
     (case built of Inl e \<Rightarrow> Some (Err e, [], stream) | Inr h \<Rightarrow> handshake lib h stream)"

section \<open>Lemmas: frames\<close>

definition frame_enc :: "byte list \<Rightarrow> byte list" where
  "frame_enc frame = be_bytes (of_nat (length frame) :: u16) @ frame"

definition frame_ok :: "byte list \<Rightarrow> bool" where
  "frame_ok frame \<longleftrightarrow> length frame < 2 ^ 16"

definition frame_dec :: "byte list \<Rightarrow> (byte list \<times> byte list) option" where
  "frame_dec stream = (case read_frame stream of Inl _ \<Rightarrow> None | Inr r \<Rightarrow> Some r)"

lemma read_frame_enc: "frame_ok frame \<Longrightarrow> read_frame (frame_enc frame @ rest) = Ok (frame, rest)"
  by (simp add: frame_ok_def frame_enc_def read_frame_def read_exact_def length_be_bytes
      be_word_be_bytes unat_of_nat)

lemma write_frame_eq: "frame_ok frame \<Longrightarrow> write_frame frame = Ok (frame_enc frame)"
  by (simp add: write_frame_def frame_ok_def frame_enc_def)

interpretation frames: stream_codec frame_enc frame_dec frame_ok
proof
  fix frame rest :: "byte list"
  assume "frame_ok frame"
  then show "frame_dec (frame_enc frame @ rest) = Some (frame, rest)"
    by (simp add: frame_dec_def read_frame_enc)
  have "length (frame_enc frame) = 2 + length frame"
    by (simp add: frame_enc_def length_be_bytes)
  then show "frame_enc frame \<noteq> []" by auto
qed

section \<open>Lemmas: chunks\<close>

lemma concat_chunks: "0 < n \<Longrightarrow> concat (chunks n xs) = xs"
  by (induction n xs rule: chunks.induct) (subst chunks.simps, simp)

lemma chunks_size: "c \<in> set (chunks n xs) \<Longrightarrow> 0 < length c \<and> length c \<le> n"
proof (induction n xs rule: chunks.induct)
  case (1 n xs)
  then show ?case by (subst (asm) (2) chunks.simps) (auto split: if_splits)
qed

section \<open>Lemmas: sending and receiving\<close>

text \<open>
  What the Noise transport promises two parties whose states are in step: a message of the sender
  is sealed into a ciphertext that is \<open>tag_len\<close> bytes longer, the receiver opens it to the same
  bytes, and both are in step again.
\<close>

definition noise_pair :: "'s seal \<Rightarrow> 'r seal \<Rightarrow> ('s \<Rightarrow> 'r \<Rightarrow> bool) \<Rightarrow> bool" where
  "noise_pair seal unseal in_step \<longleftrightarrow>
     (\<forall>s r chunk. in_step s r \<and> length chunk \<le> max_chunk \<longrightarrow>
        (\<exists>ct s' r'. seal s chunk = Ok (ct, s') \<and> length ct = length chunk + tag_len
           \<and> unseal r ct = Ok (chunk, r') \<and> in_step s' r'))"

lemma recv_chunk_Some:
  "length message + length chunk \<le> len \<Longrightarrow>
   recv_chunk message (Some len) chunk = Ok (message @ chunk, len)"
  by (simp add: recv_chunk_def)

lemma send_recv_chunks:
  assumes "noise_pair seal unseal in_step" and "in_step s r" and "cs \<noteq> []"
    and "\<forall>c\<in>set cs. 0 < length c \<and> length c \<le> max_chunk"
    and "recv_chunk message expected (hd cs) = Ok (message', len)"
    and "length message' + length (concat (tl cs)) = len"
  shows "\<exists>bytes s' r'. send_chunks seal s cs = (Ok (), bytes, s') \<and> in_step s' r'
    \<and> (\<forall>rest. recv_loop unseal r message expected (bytes @ rest)
         = (Ok (message' @ concat (tl cs)), rest, r'))"
  using assms(2-)
proof (induction cs arbitrary: s r message expected message')
  case (Cons c cs)
  obtain ct s1 r1 where step: "seal s c = Ok (ct, s1)" "length ct = length c + tag_len"
      "unseal r ct = Ok (c, r1)" "in_step s1 r1"
    using assms(1) Cons.prems(1,3) unfolding noise_pair_def by (metis list.set_intros(1))
  have ok: "frame_ok ct"
    using step(2) Cons.prems(3)
    by (simp add: frame_ok_def max_chunk_def max_noise_message_def tag_len_def)
  show ?case
  proof (cases cs)
    case Nil
    with step ok Cons.prems(4,5) have "recv_loop unseal r message expected (frame_enc ct @ rest)
        = (Ok message', rest, r1)" for rest
      by (subst recv_loop.simps) (simp add: read_frame_enc)
    with Nil step ok show ?thesis by (simp add: write_frame_eq)
  next
    case (Cons d ds)
    have d: "0 < length d" "d \<in> set cs" using Cons.prems(3) Cons by simp_all
    have sum: "length message' + (length d + length (concat ds)) = len"
      using Cons.prems(5) Cons by simp
    with d(1) have len: "length message' + length d \<le> len" "length message' \<noteq> len"
      by linarith+
    have "recv_chunk message' (Some len) (hd cs) = Ok (message' @ d, len)"
      using len by (simp add: recv_chunk_Some Cons)
    moreover have "length (message' @ d) + length (concat (tl cs)) = len"
      using Cons.prems(5) Cons by simp
    ultimately obtain bytes s2 r2 where rest: "send_chunks seal s1 cs = (Ok (), bytes, s2)"
        "in_step s2 r2" "\<And>rest. recv_loop unseal r1 message' (Some len) (bytes @ rest)
           = (Ok ((message' @ d) @ concat (tl cs)), rest, r2)"
      using Cons.IH [of s1 r1 message' "Some len" "message' @ d"] step(4) Cons.prems(3) Cons by auto
    have "recv_loop unseal r message expected ((frame_enc ct @ bytes) @ rest)
        = (Ok (message' @ concat cs), rest, r2)" for rest
      using step ok Cons.prems(4) len rest(3) [of rest]
      by (subst recv_loop.simps) (simp add: read_frame_enc Cons)
    with step ok rest(1,2) show ?thesis by (simp add: write_frame_eq)
  qed
qed simp

lemma recv_header:
  assumes "length message \<le> max_message_bytes" and "4 \<le> length chunk"
    and "take 4 chunk = be_bytes (of_nat (length message) :: u32)"
    and "length (drop 4 chunk) \<le> length message"
  shows "recv_chunk [] None chunk = Ok (drop 4 chunk, length message)"
  using assms
  by (simp add: recv_chunk_def be_word_be_bytes unat_of_nat max_message_bytes_def Let_def)

lemma send_recv:
  assumes "noise_pair seal unseal in_step" and "in_step s r" and "length message \<le> max_message_bytes"
  shows "\<exists>bytes s' r'. cipher_send seal s message = (Ok (), bytes, s') \<and> in_step s' r'
    \<and> (\<forall>rest. cipher_recv unseal r (bytes @ rest) = (Ok message, rest, r'))"
proof -
  let ?h = "be_bytes (of_nat (length message) :: u32)"
  let ?cs = "chunks max_chunk (?h @ message)"
  have mc: "max_chunk = 65519"
    by (simp add: max_chunk_def max_noise_message_def tag_len_def)
  have h: "length ?h = 4" by (simp add: length_be_bytes)
  have ne: "?h @ message \<noteq> []" using h by auto
  then have cs: "?cs = take max_chunk (?h @ message) # chunks max_chunk (drop max_chunk (?h @ message))"
    by (subst chunks.simps) (simp add: mc)
  have "recv_chunk [] None (hd ?cs) = Ok (drop 4 (hd ?cs), length message)"
    using assms(3) h by (intro recv_header) (simp_all only: cs list.sel, simp_all add: mc)
  moreover have "length (drop 4 (hd ?cs)) + length (concat (tl ?cs)) = length message"
    using h by (simp only: cs list.sel, simp add: mc concat_chunks)
  moreover have "drop 4 (hd ?cs) @ concat (tl ?cs) = message"
    using h by (simp only: cs list.sel, simp add: mc concat_chunks)
  moreover have "\<forall>c\<in>set ?cs. 0 < length c \<and> length c \<le> max_chunk"
    using chunks_size by blast
  ultimately have "\<exists>bytes s' r'. send_chunks seal s ?cs = (Ok (), bytes, s') \<and> in_step s' r'
    \<and> (\<forall>rest. recv_loop unseal r [] None (bytes @ rest) = (Ok message, rest, r'))"
    using send_recv_chunks [OF assms(1,2), of ?cs "[]" None] cs by (metis list.distinct(1))
  moreover have "\<not> max_message_bytes < length message" "\<not> 2 ^ 32 \<le> length message"
    using assms(3) by (simp_all add: max_message_bytes_def)
  ultimately show ?thesis
    by (simp add: cipher_send_def cipher_recv_def Let_def)
qed

text \<open>Several messages, one after the other on one channel.\<close>

fun send_all :: "'s seal \<Rightarrow> 's \<Rightarrow> byte list list \<Rightarrow> byte list" where
  "send_all seal s [] = []"
| "send_all seal s (m # ms) = (let (_, bytes, s') = cipher_send seal s m in bytes @ send_all seal s' ms)"

fun recv_n :: "'s seal \<Rightarrow> 's \<Rightarrow> nat \<Rightarrow> byte list \<Rightarrow> byte list list lan_result" where
  "recv_n unseal s 0 stream = Ok []"
| "recv_n unseal s (Suc n) stream =
     (case cipher_recv unseal s stream of
        (Inl e, _) \<Rightarrow> Err e
      | (Inr m, rest, s') \<Rightarrow> bind_ok (recv_n unseal s' n rest) (\<lambda>ms. Ok (m # ms)))"

lemma recv_loop_bounded:
  assumes "recv_loop unseal s message expected stream = (Ok m, rest, s')"
    and "\<forall>len. expected = Some len \<longrightarrow> len \<le> max_message_bytes"
  shows "length m \<le> max_message_bytes \<and> length rest < length stream"
  using assms
proof (induction unseal s message expected stream rule: recv_loop.induct)
  case (1 unseal s message expected stream)
  from "1.prems"(1) obtain frame stream' chunk s1 message' len where
    f: "read_frame stream = Ok (frame, stream')" "unseal s frame = Ok (chunk, s1)"
      "recv_chunk message expected chunk = Ok (message', len)"
    by (subst (asm) recv_loop.simps) (auto split: sum.splits)
  have len: "len \<le> max_message_bytes"
    using f(3) "1.prems"(2)
    by (auto simp: recv_chunk_def bind_ok_Ok Let_def split: option.splits if_splits)
  note shorter = read_frame_shorter [OF f(1)]
  show ?case
  proof (cases "length message' = len")
    case True
    with "1.prems"(1) f len shorter show ?thesis by (subst (asm) recv_loop.simps) auto
  next
    case False
    with "1.prems"(1) f have "recv_loop unseal s1 message' (Some len) stream' = (Ok m, rest, s')"
      by (subst (asm) recv_loop.simps) auto
    with "1.IH" f False len shorter show ?thesis by fastforce
  qed
qed

section \<open>Properties\<close>

text \<open>
  C17: The channel delivers. Any sequence of messages within the size limit, sent one after the
  other, is received as the same sequence: framing and chunking neither lose, merge nor reorder
  anything, whatever follows on the stream.
\<close>

theorem channel_delivers_in_order:
  assumes "noise_pair seal unseal in_step" and "in_step s r"
    and "\<forall>m\<in>set ms. length m \<le> max_message_bytes"
  shows "recv_n unseal r (length ms) (send_all seal s ms @ rest) = Ok ms"
  using assms(2,3)
proof (induction ms arbitrary: s r)
  case (Cons m ms)
  then obtain bytes s' r' where m: "cipher_send seal s m = (Ok (), bytes, s')" "in_step s' r'"
      "\<And>rest. cipher_recv unseal r (bytes @ rest) = (Ok m, rest, r')"
    using send_recv [OF assms(1), of s r m] by auto
  with Cons show ?case by simp
qed simp

theorem channel_delivers_in_order_witness:
  defines "seal \<equiv> \<lambda>(n :: nat) c. Ok (replicate 16 (of_nat n) @ c, Suc n)"
    and "unseal \<equiv> \<lambda>(n :: nat) c. if take 16 c = replicate 16 (of_nat n) then Ok (drop 16 c, Suc n)
                            else Err (LanNoise ''decrypt'')"
  shows "recv_n unseal 5 2 (send_all seal 5 [[1, 2], []] @ [9]) = Ok [[1, 2], []]"
proof -
  have "noise_pair seal unseal (=)"
    by (auto simp: noise_pair_def seal_def unseal_def tag_len_def)
  from channel_delivers_in_order [OF this, of 5 5 "[[1, 2], []]" "[9]"] show ?thesis
    by (simp add: max_message_bytes_def numeral_2_eq_2 del: recv_n.simps send_all.simps)
qed

text \<open>
  Whatever the other side sends, receiving ends, and a message it returns is within the size
  limit and used up at least a frame of the stream.
\<close>

theorem received_messages_are_bounded:
  assumes "cipher_recv unseal s stream = (Ok m, rest, s')"
  shows "length m \<le> max_message_bytes \<and> length rest < length stream"
  using recv_loop_bounded [OF assms [unfolded cipher_recv_def]] by simp

theorem received_messages_are_bounded_witness:
  "length [7 :: byte] \<le> max_message_bytes"
proof -
  have "cipher_recv (\<lambda>(s :: unit) c. Ok (c, s)) () [0, 5, 0, 0, 0, 1, 7] = (Ok [7], [], ())"
    by (simp add: cipher_recv_def recv_loop.simps read_frame_def read_exact_def be_word_def
        le_word_def recv_chunk_def max_message_bytes_def)
  from received_messages_are_bounded [OF this] show ?thesis by simp
qed

text \<open>
  A pattern of \<open>n\<close> messages: every message written or read moves the handshake on by one, and it
  is finished after the last.
\<close>

definition noise_pattern :: "('h, 's) noise_lib \<Rightarrow> ('h \<Rightarrow> nat) \<Rightarrow> nat \<Rightarrow> bool" where
  "noise_pattern lib pos n \<longleftrightarrow>
     (\<forall>h. hs_finished lib h \<longleftrightarrow> n \<le> pos h)
     \<and> (\<forall>h msg h'. hs_write lib h = Ok (msg, h') \<longrightarrow> pos h' = Suc (pos h))
     \<and> (\<forall>h frame h'. hs_read lib h frame = Ok h' \<longrightarrow> pos h' = Suc (pos h))"

lemma handshake_loop_ends:
  assumes "noise_pattern lib pos n"
  shows "\<exists>r out' rest. handshake_loop lib h out stream = Some (r, out', rest)
    \<and> (\<forall>h'. r = Ok h' \<longrightarrow> hs_finished lib h') \<and> length rest \<le> length stream"
proof (induction "n - pos h" arbitrary: h out stream rule: less_induct)
  case less
  show ?case
  proof (cases "hs_finished lib h")
    case False
    have next_h: "n - pos h' < n - pos h" if "hs_write lib h = Ok (m, h') \<or> hs_read lib h f = Ok h'" for m f h'
      using assms that False unfolding noise_pattern_def by (metis Suc_diff_Suc lessI not_le)
    show ?thesis
    proof (cases "hs_my_turn lib h")
      case True
      with False show ?thesis
        by (subst handshake_loop.simps) (auto split: sum.split intro!: less next_h)
    next
      case turn: False
      show ?thesis
      proof (cases "read_frame stream")
        case (Inr fr)
        obtain frame stream' where "fr = (frame, stream')" by (cases fr)
        with Inr read_frame_shorter have fr: "read_frame stream = Ok (frame, stream')"
            "length stream' < length stream" by blast+
        show ?thesis
        proof (cases "hs_read lib h frame")
          case (Inr h')
          with less [OF next_h] fr(2) obtain r out' rest where
            "handshake_loop lib h' out stream' = Some (r, out', rest)"
            "\<forall>h'. r = Ok h' \<longrightarrow> hs_finished lib h'" "length rest \<le> length stream"
            by (meson less_imp_le order_trans)
          with Inr fr(1) turn False show ?thesis by (subst handshake_loop.simps) simp
        qed (use fr turn False in \<open>subst handshake_loop.simps, simp\<close>)
      qed (use turn False in \<open>subst handshake_loop.simps, simp\<close>)
    qed
  qed (subst handshake_loop.simps, simp)
qed

text \<open>
  The handshake loop ends for every pattern of finitely many messages and whatever the other
  side sends: it returns an error or, after a finished handshake, a transport together with a static
  key of the right length.
\<close>

theorem handshake_ends:
  assumes "noise_pattern lib pos n"
  shows "\<exists>r out rest. handshake lib h stream = Some (r, out, rest)
    \<and> (\<forall>s key. r = Ok (s, key) \<longrightarrow> length key = key_len)"
  using handshake_loop_ends [OF assms, of h "[]" stream]
  by (auto simp: handshake_def bind_ok_Ok ok_or_Ok)

theorem handshake_ends_witness:
  defines "lib \<equiv> \<lparr>hs_finished = \<lambda>h :: nat. 1 \<le> h, hs_my_turn = \<lambda>h. False,
      hs_write = \<lambda>h. Ok ([], Suc h), hs_read = \<lambda>h f. Ok (Suc h),
      hs_remote_static = \<lambda>h. Some (replicate 32 0), hs_into_transport = \<lambda>h. Ok ()\<rparr>"
  shows "handshake lib 0 [] \<noteq> None"
proof -
  have "noise_pattern lib id 1"
    by (auto simp: noise_pattern_def lib_def)
  from handshake_ends [OF this, of 0 "[]"] show ?thesis by auto
qed

end
