(* ===== verification/Pairing_Code.thy ===== *)
theory Pairing_Code
  imports Lan_Error
begin

unbundle bit_operations_syntax

text \<open>
  \<open>crates/cled-lan/src/code.rs\<close>: pairing codes, eight characters of Crockford's base32. The five
  random bytes come from the system.
\<close>

definition code_alphabet :: rstr where
  "code_alphabet = str_lit ''0123456789ABCDEFGHJKMNPQRSTVWXYZ''"

definition code_len :: nat where
  "code_len = 8"

datatype pairing_code = PairingCode (code_chars: rstr)

definition code_bits :: "byte list \<Rightarrow> u64" where
  "code_bits bytes = foldl (\<lambda>acc b. push_bit 8 acc OR ucast b) 0 bytes"

definition code_generate :: "byte list lan_result \<Rightarrow> pairing_code lan_result" where
  "code_generate random =
     bind_ok random (\<lambda>bytes.
       Ok (PairingCode (map (\<lambda>i. code_alphabet ! unat (drop_bit (i * 5) (code_bits bytes) AND 0x1f))
             (rev [0..<code_len]))))"

definition code_char :: "nat \<Rightarrow> nat" where
  "code_char c =
     (let u = to_ascii_uppercase c
      in if u = of_char CHR ''I'' \<or> u = of_char CHR ''L'' then of_char CHR ''1''
         else if u = of_char CHR ''O'' then of_char CHR ''0'' else u)"

definition code_parse :: "rstr \<Rightarrow> pairing_code lan_result" where
  "code_parse input =
     (let code = map code_char (filter (\<lambda>c. \<not> is_whitespace c \<and> c \<noteq> of_char CHR ''-'') input)
      in if length (utf8 code) \<noteq> code_len
            \<or> \<not> (\<forall>b\<in>set (utf8 code). b \<in> set (utf8 code_alphabet))
         then Err WrongCode else Ok (PairingCode code))"

definition code_fmt :: "pairing_code \<Rightarrow> rstr" where
  "code_fmt code = take 4 (code_chars code) @ [of_char CHR ''-''] @ drop 4 (code_chars code)"

section \<open>Lemmas\<close>

definition valid_code :: "pairing_code \<Rightarrow> bool" where
  "valid_code code \<longleftrightarrow> length (code_chars code) = code_len \<and> set (code_chars code) \<subseteq> set code_alphabet"

lemma code_alphabet_eval: "code_alphabet =
   [48, 49, 50, 51, 52, 53, 54, 55, 56, 57, 65, 66, 67, 68, 69, 70, 71, 72, 74, 75, 77, 78, 80, 81,
    82, 83, 84, 86, 87, 88, 89, 90]"
  by (simp add: code_alphabet_def str_lit_def)

lemma alphabet_check:
  "list_all (\<lambda>c. c < 128 \<and> \<not> is_whitespace c \<and> c \<noteq> 45 \<and> code_char c = c) code_alphabet"
  by (simp add: code_alphabet_eval is_whitespace_def code_char_def to_ascii_uppercase_def)

lemma alphabet_facts:
  "c \<in> set code_alphabet \<Longrightarrow> c < 128 \<and> \<not> is_whitespace c \<and> c \<noteq> 45 \<and> code_char c = c"
  using alphabet_check unfolding list_all_iff by blast

lemma alphabet_distinct: "distinct code_alphabet" and length_alphabet: "length code_alphabet = 32"
  by (simp_all add: code_alphabet_eval)

lemma utf8_char_last_byte: "\<not> c < 128 \<Longrightarrow> of_nat (128 + c mod 64) \<in> set (utf8_char c)"
  by (simp add: utf8_char_def)

lemma alphabet_bytes: "utf8 code_alphabet = map of_nat code_alphabet"
  using alphabet_facts by (intro utf8_ascii) blast

lemma alphabet_byte_small: "b \<in> set (utf8 code_alphabet) \<Longrightarrow> unat b < 128"
  using alphabet_facts by (auto simp: alphabet_bytes unat_of_nat less_imp_le_nat)
    (metis le_less_trans mod_less_eq_dividend)

text \<open>Checking length and characters on the UTF-8 bytes is checking them on the characters.\<close>

lemma code_bytes_iff:
  "length (utf8 s) = n \<and> (\<forall>b\<in>set (utf8 s). b \<in> set (utf8 code_alphabet))
   \<longleftrightarrow> length s = n \<and> set s \<subseteq> set code_alphabet"
proof
  assume *: "length (utf8 s) = n \<and> (\<forall>b\<in>set (utf8 s). b \<in> set (utf8 code_alphabet))"
  have small: "c < 128" if "c \<in> set s" for c
  proof (rule ccontr)
    assume "\<not> c < 128"
    with that have "of_nat (128 + c mod 64) \<in> set (utf8 s)"
      using utf8_char_last_byte by (auto simp: utf8_def)
    with * have "unat (of_nat (128 + c mod 64) :: byte) < 128"
      using alphabet_byte_small by blast
    moreover have "128 + c mod 64 < 256"
      using mod_less_divisor [of 64 c] by linarith
    ultimately show False by (simp only: unat_byte)
  qed
  then have bytes: "utf8 s = map of_nat s" by (intro utf8_ascii) blast
  have "c \<in> set code_alphabet" if "c \<in> set s" for c
  proof -
    have "(of_nat c :: byte) \<in> set (utf8 code_alphabet)" using * that by (simp add: bytes)
    then obtain a where "a \<in> set code_alphabet" "(of_nat c :: byte) = of_nat a"
      by (auto simp: alphabet_bytes)
    moreover have "a < 256" "c < 256"
      using alphabet_facts [OF calculation(1)] small [OF that] by linarith+
    ultimately show ?thesis by (metis unat_byte)
  qed
  with * show "length s = n \<and> set s \<subseteq> set code_alphabet" by (auto simp: bytes)
next
  assume *: "length s = n \<and> set s \<subseteq> set code_alphabet"
  then have "utf8 s = map of_nat s"
    using alphabet_facts by (intro utf8_ascii) blast
  with * show "length (utf8 s) = n \<and> (\<forall>b\<in>set (utf8 s). b \<in> set (utf8 code_alphabet))"
    by (auto simp: alphabet_bytes)
qed

lemma code_parse_eq:
  "code_parse input =
     (let code = map code_char (filter (\<lambda>c. \<not> is_whitespace c \<and> c \<noteq> 45) input)
      in if valid_code (PairingCode code) then Ok (PairingCode code) else Err WrongCode)"
  unfolding code_parse_def valid_code_def Let_def pairing_code.sel code_bytes_iff [symmetric]
  by auto

lemma filter_alphabet:
  "set s \<subseteq> set code_alphabet \<Longrightarrow>
   map code_char (filter (\<lambda>c. \<not> is_whitespace c \<and> c \<noteq> 45) s) = s"
  using alphabet_facts by (induction s) auto

lemma code_parse_fmt:
  assumes "valid_code code"
  shows "code_parse (code_fmt code) = Ok code"
proof -
  have "set (code_chars code) \<subseteq> set code_alphabet" using assms by (simp add: valid_code_def)
  then have "set (take 4 (code_chars code)) \<subseteq> set code_alphabet"
    and "set (drop 4 (code_chars code)) \<subseteq> set code_alphabet"
    by (auto dest: in_set_takeD in_set_dropD)
  then have "map code_char (filter (\<lambda>c. \<not> is_whitespace c \<and> c \<noteq> 45) (code_fmt code))
      = code_chars code"
    unfolding code_fmt_def by (simp add: filter_alphabet del: filter_append map_append)
      (simp add: filter_alphabet)
  with assms show ?thesis by (simp add: code_parse_eq Let_def)
qed

lemma byte_step: "push_bit 8 (acc :: u64) OR ucast (b :: byte) = acc * 256 + ucast b"
proof -
  have "push_bit 8 acc AND ucast b = 0"
    by (rule bit_word_eqI) (auto simp: bit_simps dest: bit_imp_le_length)
  then show ?thesis
    by (simp add: disjunctive_add_eq_or [symmetric] push_bit_eq_mult)
qed

lemma code_bits_eq: "code_bits bs = of_nat (le_value (rev bs))"
proof (induction bs rule: rev_induct)
  case (snoc b bs)
  have "code_bits (bs @ [b]) = code_bits bs * 256 + ucast b"
    by (simp add: code_bits_def byte_step)
  with snoc show ?case by simp
qed (simp add: code_bits_def)

lemma unat_code_bits:
  assumes "length bs \<le> 8"
  shows "unat (code_bits bs) = le_value (rev bs)"
proof -
  have "le_value (rev bs) < 256 ^ length bs" using le_value_bound [of "rev bs"] by simp
  also have "\<dots> \<le> (256 :: nat) ^ 8" using assms by (intro power_increasing) simp_all
  finally show ?thesis by (simp add: code_bits_eq unat_of_nat)
qed

definition code_digit :: "byte list \<Rightarrow> nat \<Rightarrow> nat" where
  "code_digit bytes i = le_value (rev bytes) div 32 ^ i mod 32"

lemma unat_code_digit:
  assumes "length bs \<le> 8"
  shows "unat (drop_bit (i * 5) (code_bits bs) AND 0x1f) = code_digit bs i"
proof -
  have "drop_bit (i * 5) (code_bits bs) AND 0x1f = take_bit 5 (drop_bit (i * 5) (code_bits bs))"
    by (simp add: take_bit_eq_mask mask_eq_exp_minus_1)
  moreover have "unat (take_bit 5 (drop_bit (i * 5) (code_bits bs)))
      = take_bit 5 (drop_bit (i * 5) (unat (code_bits bs)))"
    by (simp only: unsigned_take_bit_eq unat_drop_bit_eq)
  moreover have "(2 :: nat) ^ (i * 5) = 32 ^ i"
    by (simp add: power_mult mult.commute [of i])
  ultimately show ?thesis
    by (simp add: code_digit_def unat_code_bits [OF assms] take_bit_eq_mod drop_bit_eq_div)
qed

text \<open>Five random bytes give a valid code, and different bytes give different codes.\<close>

definition code_of_bytes :: "byte list \<Rightarrow> pairing_code" where
  "code_of_bytes bs = PairingCode (map (\<lambda>i. code_alphabet ! code_digit bs i) (rev [0..<code_len]))"

lemma code_generate_bytes: "length bs = 5 \<Longrightarrow> code_generate (Ok bs) = Ok (code_of_bytes bs)"
  by (simp add: code_generate_def code_of_bytes_def unat_code_digit)

lemma valid_code_of_bytes: "valid_code (code_of_bytes bs)"
proof -
  have "code_alphabet ! code_digit bs i \<in> set code_alphabet" for i
    by (rule nth_mem) (simp add: length_alphabet code_digit_def)
  then show ?thesis by (auto simp: valid_code_def code_of_bytes_def)
qed

lemma base32_digits_eq:
  "(\<forall>i<n. x div 32 ^ i mod 32 = y div 32 ^ i mod 32) \<Longrightarrow> x < 32 ^ n \<Longrightarrow> y < 32 ^ n \<Longrightarrow> x = (y :: nat)"
proof (induction n arbitrary: x y)
  case (Suc n)
  have "x div 32 = y div 32"
  proof (rule Suc.IH)
    show "\<forall>i<n. x div 32 div 32 ^ i mod 32 = y div 32 div 32 ^ i mod 32"
    proof (intro allI impI)
      fix i assume "i < n"
      then show "x div 32 div 32 ^ i mod 32 = y div 32 div 32 ^ i mod 32"
        using Suc.prems(1) [rule_format, of "Suc i"] by (simp add: div_mult2_eq)
    qed
  qed (use Suc.prems in \<open>simp_all add: less_mult_imp_div_less mult.commute\<close>)
  moreover have "x mod 32 = y mod 32" using Suc.prems(1) [rule_format, of 0] by simp
  ultimately show ?case by (metis div_mult_mod_eq)
qed simp

lemma code_of_bytes_inject:
  assumes "length as = 5" and "length bs = 5" and "code_of_bytes as = code_of_bytes bs"
  shows "as = bs"
proof -
  have "code_digit as i = code_digit bs i" if "i < 8" for i
  proof -
    have "code_alphabet ! code_digit as i = code_alphabet ! code_digit bs i"
      using assms(3) that by (auto simp: code_of_bytes_def code_len_def)
    then show ?thesis
      using nth_eq_iff_index_eq [OF alphabet_distinct]
      by (simp add: length_alphabet code_digit_def)
  qed
  moreover have "le_value (rev as) < 32 ^ 8" "le_value (rev bs) < 32 ^ 8"
    using le_value_bound [of "rev as"] le_value_bound [of "rev bs"] assms(1,2) by simp_all
  ultimately have "le_value (rev as) = le_value (rev bs)"
    by (intro base32_digits_eq [of 8]) (simp_all add: code_digit_def)
  then have "rev as = rev bs"
    using assms(1,2) by (metis le_digits_le_value length_rev)
  then show ?thesis by simp
qed

section \<open>Properties\<close>

text \<open>
  A generated pairing code keeps all forty random bits: different random bytes give different
  codes, each of eight characters of the alphabet, and what is shown to the user parses back to the
  code.
\<close>

theorem pairing_code_keeps_random_bits:
  assumes "length as = 5" and "length bs = 5"
  shows "\<exists>code. code_generate (Ok as) = Ok code \<and> valid_code code \<and> code_parse (code_fmt code) = Ok code
    \<and> (code_generate (Ok bs) = Ok code \<longleftrightarrow> as = bs)"
  using assms code_of_bytes_inject valid_code_of_bytes code_parse_fmt
  by (auto simp: code_generate_bytes)

theorem pairing_code_keeps_random_bits_witness:
  "code_generate (Ok [0, 0, 0, 0, 1]) \<noteq> code_generate (Ok [0, 0, 0, 0, 2])"
  using pairing_code_keeps_random_bits [of "[0, 0, 0, 0, 1]" "[0, 0, 0, 0, 2]"] by auto

text \<open>
  Parsing forgives what people get wrong (lower case, spaces, dashes, I and L for 1, O for 0)
  and nothing else: any input either gives the code its characters normalize to, which is valid, or
  is refused as a wrong code, also when it has characters outside ASCII.
\<close>

theorem code_parse_normalizes:
  "code_parse input =
     (let code = PairingCode (map code_char (filter (\<lambda>c. \<not> is_whitespace c \<and> c \<noteq> of_char CHR ''-'') input))
      in if valid_code code then Ok code else Err WrongCode)
   \<and> (\<forall>code. code_parse input = Ok code \<longrightarrow> code_parse (code_fmt code) = Ok code)"
  using code_parse_fmt by (simp add: code_parse_eq Let_def)

theorem code_parse_normalizes_witness:
  "code_parse (str_lit ''0il-oabc d'') = Ok (PairingCode (str_lit ''0110ABCD''))"
proof -
  have "map code_char (filter (\<lambda>c. \<not> is_whitespace c \<and> c \<noteq> of_char CHR ''-'') (str_lit ''0il-oabc d''))
      = str_lit ''0110ABCD''"
    by (simp add: str_lit_def is_whitespace_def code_char_def to_ascii_uppercase_def Let_def)
  moreover have "valid_code (PairingCode (str_lit ''0110ABCD''))"
    by (simp add: valid_code_def code_len_def str_lit_def code_alphabet_eval)
  ultimately show ?thesis
    using code_parse_normalizes [of "str_lit ''0il-oabc d''"] by (simp add: Let_def)
qed

end
