(* ===== verification/Node_Protocol.thy ===== *)
theory Node_Protocol
  imports Noise_Channel Pairing_Code
begin

text \<open>
  The stateless parts of \<open>crates/cled-lan/src/node.rs\<close>: what a connection starts with and how an
  incoming one is told apart, the byte strings the handshakes are bound to, the exchange of hellos,
  and the choice of an address to connect to.
\<close>

section \<open>Preambles and prologues\<close>

definition magic :: "byte list" where
  "magic = utf8 (str_lit ''CLED'')"

definition preamble_version :: byte where "preamble_version = 1"
definition kind_session :: byte where "kind_session = 1"
definition kind_pairing :: byte where "kind_pairing = 2"

definition preamble :: "byte \<Rightarrow> device_id \<Rightarrow> byte list" where
  "preamble kind device = magic @ [preamble_version] @ [kind] @ device_id_to_bytes device"

definition session_prologue :: "device_id \<Rightarrow> device_id \<Rightarrow> byte list" where
  "session_prologue initiator responder =
     utf8 (str_lit ''cled-session-v1'') @ device_id_to_bytes initiator @ device_id_to_bytes responder"

definition pairing_prologue :: "device_id \<Rightarrow> device_id \<Rightarrow> byte list" where
  "pairing_prologue listener joiner =
     utf8 (str_lit ''cled-pair-v1'') @ device_id_to_bytes listener @ device_id_to_bytes joiner"

text \<open>Where an incoming connection came from, and what \<open>handle_incoming\<close> takes it for.\<close>

datatype origin = Tcp socket_addr | Tunnel device_id

datatype incoming =
    IncomingSession device_id "socket_addr option"
  | IncomingPairing device_id "socket_addr option"

fun origin_addr :: "origin \<Rightarrow> socket_addr option" where
  "origin_addr (Tcp a) = Some a"
| "origin_addr (Tunnel d) = None"

definition handle_incoming ::
  "device_id \<Rightarrow> byte list lan_result \<Rightarrow> origin \<Rightarrow> incoming lan_result" where
  "handle_incoming me received from =
     bind_ok received (\<lambda>pre.
       if take 4 pre \<noteq> magic \<or> pre ! 4 \<noteq> preamble_version
       then Err (Malformed ''not a Cled connection'')
       else
         let sender = device_id_from_bytes (take 16 (drop 6 pre))
         in if sender = me then Err (Malformed ''connection from self'')
            else if \<exists>opener. from = Tunnel opener \<and> opener \<noteq> sender
            then Err (Malformed ''tunnel opener doesn't match'')
            else if pre ! 5 = kind_session then Ok (IncomingSession sender (origin_addr from))
            else if pre ! 5 = kind_pairing then Ok (IncomingPairing sender (origin_addr from))
            else Err (Malformed ''unknown connection kind''))"

section \<open>Hellos\<close>

text \<open>\<open>sent\<close> and \<open>received\<close> are the outcomes of sending the own hello and receiving the other.\<close>

definition exchange_hellos ::
  "(byte list \<Rightarrow> message option) \<Rightarrow> device_id \<Rightarrow> unit lan_result \<Rightarrow> byte list lan_result
   \<Rightarrow> hello lan_result" where
  "exchange_hellos postcard_from expected sent received =
     bind_ok sent (\<lambda>_.
       bind_ok received (\<lambda>bytes.
         bind_ok (message_decode postcard_from bytes) (\<lambda>m.
           case m of
             Hello h \<Rightarrow>
               if h_protocol h \<noteq> protocol_version then Err (IncompatibleVersion (h_protocol h))
               else if device_id_from_bytes (h_device_id h) \<noteq> expected then Err UnknownPeer
               else Ok h
           | _ \<Rightarrow> Err (Malformed ''expected Hello''))))"

definition spake_key :: "byte list option \<Rightarrow> byte list lan_result" where
  "spake_key result =
     (case result of
        None \<Rightarrow> Err WrongCode
      | Some key \<Rightarrow> if length key = 32 then Ok key else Err WrongCode)"

text \<open>
  The pairing exchange once the SPAKE2 messages have crossed: \<open>finish\<close> is the result of SPAKE2,
  \<open>shake key prologue\<close> the Noise handshake keyed by it (with the other's static key), and \<open>hellos\<close>
  the exchange of hellos over the new channel.
\<close>

definition pairing_exchange ::
  "device_id \<Rightarrow> device_id \<Rightarrow> byte list option \<Rightarrow> (byte list \<Rightarrow> byte list \<Rightarrow> ('s \<times> byte list) lan_result)
   \<Rightarrow> ('s \<Rightarrow> hello lan_result) \<Rightarrow> (hello \<times> byte list) lan_result" where
  "pairing_exchange listener joiner finish shake hellos =
     bind_ok (spake_key finish) (\<lambda>key.
       case shake key (pairing_prologue listener joiner) of
         Inl _ \<Rightarrow> Err WrongCode
       | Inr (state, public) \<Rightarrow> bind_ok (hellos state) (\<lambda>h. Ok (h, public)))"

definition pairing_exchange_joiner ::
  "device_id \<Rightarrow> device_id \<Rightarrow> byte list option \<Rightarrow> (byte list \<Rightarrow> byte list \<Rightarrow> ('s \<times> byte list) lan_result)
   \<Rightarrow> ('s \<Rightarrow> hello lan_result) \<Rightarrow> (hello \<times> byte list) lan_result" where
  "pairing_exchange_joiner listener joiner finish shake hellos =
     bind_ok (spake_key finish) (\<lambda>key.
       case shake key (pairing_prologue listener joiner) of
         Inl _ \<Rightarrow> Err WrongCode
       | Inr (state, public) \<Rightarrow>
           (case hellos state of Inl _ \<Rightarrow> Err WrongCode | Inr h \<Rightarrow> Ok (h, public)))"

section \<open>Addresses\<close>

fun with_port :: "socket_addr \<Rightarrow> u16 \<Rightarrow> socket_addr" where
  "with_port (V4 ip _) port = V4 ip port"
| "with_port (V6 ip _ flow scope) port = V6 ip port flow scope"

text \<open>\<open>connect a\<close> is the outcome of connecting to \<open>a\<close>, a timeout being an error like others.\<close>

fun connect_from ::
  "(socket_addr \<Rightarrow> 's lan_result) \<Rightarrow> lan_error \<Rightarrow> socket_addr list \<Rightarrow> ('s \<times> socket_addr) lan_result" where
  "connect_from connect last_error [] = Err last_error"
| "connect_from connect last_error (a # as) =
     (case connect a of
        Inr stream \<Rightarrow> Ok (stream, a)
      | Inl e \<Rightarrow> connect_from connect e as)"

definition connect_any ::
  "(socket_addr \<Rightarrow> 's lan_result) \<Rightarrow> socket_addr list \<Rightarrow> ('s \<times> socket_addr) lan_result" where
  "connect_any connect addresses = connect_from connect UnknownPeer addresses"

section \<open>Lemmas\<close>

lemma magic_eval: "magic = [67, 76, 69, 68]"
  by (simp add: magic_def str_lit_def utf8_def utf8_char_def)

lemma length_preamble [simp]: "length (preamble k d) = 22"
  by (simp add: preamble_def magic_eval)

lemma handle_incoming_preamble:
  "handle_incoming me (Ok (preamble kind sender)) from =
     (if sender = me then Err (Malformed ''connection from self'')
      else if \<exists>opener. from = Tunnel opener \<and> opener \<noteq> sender
      then Err (Malformed ''tunnel opener doesn't match'')
      else if kind = kind_session then Ok (IncomingSession sender (origin_addr from))
      else if kind = kind_pairing then Ok (IncomingPairing sender (origin_addr from))
      else Err (Malformed ''unknown connection kind''))"
  by (auto simp: handle_incoming_def preamble_def magic_eval Let_def)

lemma session_prologue_eval:
  "session_prologue a b = map of_char ''cled-session-v1'' @ device_id_to_bytes a @ device_id_to_bytes b"
  by (simp add: session_prologue_def str_lit_def utf8_def utf8_char_def)

lemma pairing_prologue_eval:
  "pairing_prologue a b = map of_char ''cled-pair-v1'' @ device_id_to_bytes a @ device_id_to_bytes b"
  by (simp add: pairing_prologue_def str_lit_def utf8_def utf8_char_def)

lemma device_id_bytes_inject: "device_id_to_bytes a = device_id_to_bytes b \<longleftrightarrow> a = b"
  by (metis device_id_from_to_bytes)

lemma connect_from_first:
  "connect_from connect e as =
     (case find (\<lambda>a. \<exists>s. connect a = Ok s) as of
        Some a \<Rightarrow> (case connect a of Inr s \<Rightarrow> Ok (s, a) | Inl e \<Rightarrow> Err e)
      | None \<Rightarrow> Err (if as = [] then e else projl (connect (last as))))"
  by (induction as arbitrary: e) (auto split: sum.split option.split)

section \<open>Properties\<close>

text \<open>
  A connection is recognized from its preamble for what it is: who opened it and whether it is a
  session or a pairing attempt. A tunnel is accepted only for the device that is said to have opened
  it, and a device never talks to itself.
\<close>

theorem preamble_identifies_connection:
  "(handle_incoming me (Ok (preamble kind sender)) from = Ok (IncomingSession d a) \<longleftrightarrow>
     kind = kind_session \<and> d = sender \<and> sender \<noteq> me \<and> a = origin_addr from
     \<and> (\<forall>opener. from = Tunnel opener \<longrightarrow> opener = sender))
   \<and> (handle_incoming me (Ok (preamble kind sender)) from = Ok (IncomingPairing d a) \<longleftrightarrow>
     kind = kind_pairing \<and> d = sender \<and> sender \<noteq> me \<and> a = origin_addr from
     \<and> (\<forall>opener. from = Tunnel opener \<longrightarrow> opener = sender))"
  by (auto simp: handle_incoming_preamble kind_session_def kind_pairing_def)

theorem preamble_identifies_connection_witness:
  "handle_incoming (DeviceId 1) (Ok (preamble kind_session (DeviceId 2))) (Tunnel (DeviceId 2))
   = Ok (IncomingSession (DeviceId 2) None)"
  using preamble_identifies_connection [of "DeviceId 1" kind_session "DeviceId 2" "Tunnel (DeviceId 2)"
      "DeviceId 2" None]
  by simp

text \<open>
  The handshakes are bound to their purpose and to both devices in their roles: prologues of
  sessions and of pairings never coincide, and two prologues of a kind are equal only for the same
  two devices in the same roles.
\<close>

theorem prologues_bind_purpose_and_devices:
  "session_prologue a b \<noteq> pairing_prologue c d
   \<and> (session_prologue a b = session_prologue c d \<longleftrightarrow> a = c \<and> b = d)
   \<and> (pairing_prologue a b = pairing_prologue c d \<longleftrightarrow> a = c \<and> b = d)"
proof -
  have "length (session_prologue a b) = 47" "length (pairing_prologue c d) = 44"
    by (simp_all add: session_prologue_eval pairing_prologue_eval)
  then have "session_prologue a b \<noteq> pairing_prologue c d" by (intro notI) simp
  then show ?thesis
    by (simp add: session_prologue_eval pairing_prologue_eval device_id_bytes_inject)
qed

end
