(* ===== verification/Peers.thy ===== *)
theory Peers
  imports Wire Keys "HOL-Library.Option_ord"
begin

text \<open>
  \<open>crates/cled-lan/src/peers.rs\<close>: the paired devices of one device and the removals it remembers,
  how rosters of other devices are merged into them, and the file they are kept in. JSON text is
  left to \<open>serde_json\<close>: \<open>peer_file\<close> is the value it writes and reads. Every operation that saves
  takes the outcome of the file operations (\<open>None\<close>: they succeed) and leaves the file in the state.
\<close>

section \<open>Data\<close>

record peer =
  p_id :: device_id
  p_name :: rstr
  p_key :: "byte list"
  p_paired :: u64
  p_addr :: "socket_addr option"

record removed =
  r_peer :: peer
  r_at :: u64
  r_notified :: bool

record roster_change =
  rc_added :: "device_id list"
  rc_removed :: "device_id list"
  rc_learned :: bool

definition roster_change_default :: roster_change where
  "roster_change_default = \<lparr>rc_added = [], rc_removed = [], rc_learned = False\<rparr>"

definition change_is_empty :: "roster_change \<Rightarrow> bool" where
  "change_is_empty c \<longleftrightarrow> rc_added c = [] \<and> rc_removed c = [] \<and> \<not> rc_learned c"

record peer_record =
  pr_device_id :: rstr
  pr_name :: rstr
  pr_public_key :: rstr
  pr_paired :: u64
  pr_addr :: "socket_addr option"

record removed_record =
  rr_record :: peer_record
  rr_at :: u64
  rr_notified :: bool

record peer_file =
  pf_version :: u32
  pf_peers :: "peer_record list"
  pf_removed :: "removed_record list"

record peer_store =
  ps_peers :: "peer list"
  ps_removed :: "removed list"
  ps_file :: "peer_file option"

definition max_removed :: nat where "max_removed = 100"
definition max_roster_entries :: nat where "max_roster_entries = 256"
definition max_name_chars :: nat where "max_name_chars = 64"

section \<open>The file\<close>

definition record_of :: "(128 word \<Rightarrow> rstr) \<Rightarrow> peer \<Rightarrow> peer_record" where
  "record_of uuid_fmt p =
     \<lparr>pr_device_id = device_id_fmt uuid_fmt (p_id p), pr_name = p_name p,
      pr_public_key = hex (p_key p), pr_paired = p_paired p, pr_addr = p_addr p\<rparr>"

definition from_record :: "(rstr \<Rightarrow> 128 word option) \<Rightarrow> peer_record \<Rightarrow> peer option" where
  "from_record uuid_parse r =
     (case (device_id_from_str uuid_parse (pr_device_id r), from_hex (pr_public_key r)) of
        (Some d, Some bytes) \<Rightarrow>
          (case to_key bytes of
             Inl _ \<Rightarrow> None
           | Inr key \<Rightarrow>
               Some \<lparr>p_id = d, p_name = pr_name r, p_key = key, p_paired = pr_paired r,
                     p_addr = pr_addr r\<rparr>)
      | _ \<Rightarrow> None)"

text \<open>\<open>collect::<Option<_>>\<close>.\<close>

fun collect_some :: "'a option list \<Rightarrow> 'a list option" where
  "collect_some [] = Some []"
| "collect_some (None # xs) = None"
| "collect_some (Some x # xs) = map_option (Cons x) (collect_some xs)"

definition parse_file ::
  "(rstr \<Rightarrow> 128 word option) \<Rightarrow> peer_file \<Rightarrow> (peer list \<times> removed list) option" where
  "parse_file uuid_parse file =
     (case collect_some (map (from_record uuid_parse) (pf_peers file)) of
        None \<Rightarrow> None
      | Some peers \<Rightarrow>
          (case collect_some (map (\<lambda>r. map_option
                  (\<lambda>p. \<lparr>r_peer = p, r_at = rr_at r, r_notified = rr_notified r\<rparr>)
                  (from_record uuid_parse (rr_record r))) (pf_removed file)) of
             None \<Rightarrow> None
           | Some removed \<Rightarrow> Some (peers, removed)))"

text \<open>What reading the file gives: its parsed value, text that is no peer file, no file, an error.\<close>

datatype peer_read = PeerFileRead peer_file | PeerFileMalformed | PeerFileMissing | PeerFileError string

definition store_load :: "(rstr \<Rightarrow> 128 word option) \<Rightarrow> peer_read \<Rightarrow> peer_store lan_result" where
  "store_load uuid_parse r =
     (let start = (\<lambda>(ps, rs) file. Ok \<lparr>ps_peers = ps, ps_removed = rs, ps_file = file\<rparr>)
      in case r of
           PeerFileRead f \<Rightarrow>
             start (case parse_file uuid_parse f of None \<Rightarrow> ([], []) | Some x \<Rightarrow> x) (Some f)
         | PeerFileMalformed \<Rightarrow> start ([], []) None
         | PeerFileMissing \<Rightarrow> start ([], []) None
         | PeerFileError e \<Rightarrow> Err (LanIo e))"

definition save ::
  "(128 word \<Rightarrow> rstr) \<Rightarrow> lan_error option \<Rightarrow> peer_store \<Rightarrow> unit lan_result \<times> peer_store" where
  "save uuid_fmt io st =
     (let file = \<lparr>pf_version = 1, pf_peers = map (record_of uuid_fmt) (ps_peers st),
                  pf_removed = map (\<lambda>r. \<lparr>rr_record = record_of uuid_fmt (r_peer r), rr_at = r_at r,
                                          rr_notified = r_notified r\<rparr>) (ps_removed st)\<rparr>
      in case io of
           Some e \<Rightarrow> (Err e, st)
         | None \<Rightarrow> (Ok (), st\<lparr>ps_file := Some file\<rparr>))"

section \<open>Operations\<close>

definition get :: "peer_store \<Rightarrow> device_id \<Rightarrow> peer option" where
  "get st d = find (\<lambda>p. p_id p = d) (ps_peers st)"

definition get_removed :: "peer_store \<Rightarrow> device_id \<Rightarrow> peer option" where
  "get_removed st d =
     map_option r_peer (find (\<lambda>r. p_id (r_peer r) = d \<and> \<not> r_notified r) (ps_removed st))"

text \<open>Each operation changes the lists first; \<open>save\<close> then writes them.\<close>

definition upsert_mem :: "peer \<Rightarrow> peer_store \<Rightarrow> peer_store" where
  "upsert_mem p st =
     st\<lparr>ps_peers := filter (\<lambda>q. p_id q \<noteq> p_id p) (ps_peers st) @ [p],
        ps_removed := filter (\<lambda>r. p_id (r_peer r) \<noteq> p_id p) (ps_removed st)\<rparr>"

definition upsert ::
  "(128 word \<Rightarrow> rstr) \<Rightarrow> lan_error option \<Rightarrow> peer \<Rightarrow> peer_store \<Rightarrow> unit lan_result \<times> peer_store" where
  "upsert fmt io p st = save fmt io (upsert_mem p st)"

definition seen ::
  "(128 word \<Rightarrow> rstr) \<Rightarrow> lan_error option \<Rightarrow> device_id \<Rightarrow> rstr \<Rightarrow> socket_addr option \<Rightarrow> peer_store
   \<Rightarrow> unit lan_result \<times> peer_store" where
  "seen fmt io d name address st =
     (case get st d of
        None \<Rightarrow> (Ok (), st)
      | Some p \<Rightarrow>
          (let address = (case address of Some a \<Rightarrow> Some a | None \<Rightarrow> p_addr p)
           in if p_name p = name \<and> p_addr p = address then (Ok (), st)
              else save fmt io
                (st\<lparr>ps_peers := upd_first (\<lambda>q. p_id q = d)
                      (\<lambda>q. q\<lparr>p_name := name, p_addr := address\<rparr>) (ps_peers st)\<rparr>)))"

definition remember_removal :: "removed \<Rightarrow> peer_store \<Rightarrow> peer_store" where
  "remember_removal r st =
     (let rs = filter (\<lambda>q. p_id (r_peer q) \<noteq> p_id (r_peer r)) (ps_removed st) @ [r]
      in st\<lparr>ps_removed := if max_removed < length rs then tl rs else rs\<rparr>)"

definition remove_mem :: "device_id \<Rightarrow> u64 \<Rightarrow> peer_store \<Rightarrow> peer_store" where
  "remove_mem d at st =
     (case get st d of
        None \<Rightarrow> st
      | Some p \<Rightarrow>
          remember_removal \<lparr>r_peer = p, r_at = at, r_notified = False\<rparr>
            (st\<lparr>ps_peers := remove_first (\<lambda>q. p_id q = d) (ps_peers st)\<rparr>))"

definition remove ::
  "(128 word \<Rightarrow> rstr) \<Rightarrow> lan_error option \<Rightarrow> device_id \<Rightarrow> u64 \<Rightarrow> peer_store
   \<Rightarrow> peer option lan_result \<times> peer_store" where
  "remove fmt io d at st =
     (case get st d of
        None \<Rightarrow> (Ok None, st)
      | Some p \<Rightarrow>
          (let (r, st') = save fmt io (remove_mem d at st) in (bind_ok r (\<lambda>_. Ok (Some p)), st')))"

definition clear ::
  "(128 word \<Rightarrow> rstr) \<Rightarrow> lan_error option \<Rightarrow> peer_store \<Rightarrow> unit lan_result \<times> peer_store" where
  "clear fmt io st = save fmt io (st\<lparr>ps_peers := []\<rparr>)"

definition mark_notified ::
  "(128 word \<Rightarrow> rstr) \<Rightarrow> lan_error option \<Rightarrow> device_id \<Rightarrow> peer_store \<Rightarrow> unit lan_result \<times> peer_store" where
  "mark_notified fmt io d st =
     (if find (\<lambda>r. p_id (r_peer r) = d \<and> \<not> r_notified r) (ps_removed st) = None then (Ok (), st)
      else save fmt io
        (st\<lparr>ps_removed := upd_first (\<lambda>r. p_id (r_peer r) = d \<and> \<not> r_notified r)
              (\<lambda>r. r\<lparr>r_notified := True\<rparr>) (ps_removed st)\<rparr>))"

section \<open>Rosters\<close>

definition shareable :: "socket_addr \<Rightarrow> bool" where
  "shareable a = (case a of V6 _ _ _ scope \<Rightarrow> scope = 0 | V4 _ _ \<Rightarrow> True)"

definition to_roster :: "peer \<Rightarrow> roster_peer" where
  "to_roster p =
     \<lparr>rp_device_id = device_id_to_bytes (p_id p), rp_name = p_name p, rp_public_key = p_key p,
      rp_paired_at_ms = p_paired p,
      rp_address = (case p_addr p of Some a \<Rightarrow> if shareable a then Some a else None | None \<Rightarrow> None)\<rparr>"

definition from_roster :: "roster_peer \<Rightarrow> peer option" where
  "from_roster r =
     (if rp_public_key r = replicate key_len 0 then None
      else Some \<lparr>p_id = device_id_from_bytes (rp_device_id r), p_name = take max_name_chars (rp_name r),
                 p_key = rp_public_key r, p_paired = rp_paired_at_ms r, p_addr = rp_address r\<rparr>)"

definition roster_of :: "peer_store \<Rightarrow> roster" where
  "roster_of st =
     \<lparr>ro_members = map to_roster (ps_peers st),
      ro_removed = map (\<lambda>r. \<lparr>rr_peer = to_roster (r_peer r), rr_removed_at_ms = r_at r\<rparr>)
                     (ps_removed st)\<rparr>"

text \<open>The state of the two loops of \<open>merge\<close>: the store, what changed, and whether to save anyway.\<close>

type_synonym merge_state = "peer_store \<times> roster_change \<times> bool"

definition about_others :: "device_id \<Rightarrow> device_id \<Rightarrow> device_id \<Rightarrow> bool" where
  "about_others me sender d \<longleftrightarrow> d \<noteq> me \<and> d \<noteq> sender"

definition merge_peer :: "merge_state \<Rightarrow> peer \<Rightarrow> merge_state" where
  "merge_peer s p =
     (let (st, change, dirty) = s; d = p_id p
      in if \<exists>r\<in>set (ps_removed st). p_id (r_peer r) = d \<and> p_paired p \<le> r_at r then s
         else
           case get st d of
             Some known \<Rightarrow>
               (let rekey = (p_key known \<noteq> p_key p \<and> p_paired known < p_paired p);
                    readdr = (p_addr known = None \<and> p_addr p \<noteq> None);
                    new = (\<lambda>q. if rekey then q\<lparr>p_key := p_key p, p_paired := p_paired p\<rparr> else q);
                    new' = (\<lambda>q. if readdr then (new q)\<lparr>p_addr := p_addr p\<rparr> else new q)
                in (st\<lparr>ps_peers := upd_first (\<lambda>q. p_id q = d) new' (ps_peers st)\<rparr>,
                    if rekey then change\<lparr>rc_added := rc_added change @ [d]\<rparr> else change,
                    dirty \<or> readdr))
           | None \<Rightarrow>
               (st\<lparr>ps_removed := filter (\<lambda>r. p_id (r_peer r) \<noteq> d) (ps_removed st),
                   ps_peers := ps_peers st @ [p]\<rparr>,
                change\<lparr>rc_added := rc_added change @ [d]\<rparr>, dirty))"

definition merge_removed :: "merge_state \<Rightarrow> peer \<times> u64 \<Rightarrow> merge_state" where
  "merge_removed s pt =
     (let (st, change, dirty) = s; (p, at) = pt; d = p_id p
      in case get st d of
           Some known \<Rightarrow>
             if p_paired known \<le> at
             then (remember_removal \<lparr>r_peer = known, r_at = at, r_notified = False\<rparr>
                     (st\<lparr>ps_peers := remove_first (\<lambda>q. p_id q = d) (ps_peers st)\<rparr>),
                   change\<lparr>rc_removed := rc_removed change @ [d]\<rparr>, dirty)
             else s
         | None \<Rightarrow>
             if \<exists>r\<in>set (ps_removed st). p_id (r_peer r) = d \<and> at \<le> r_at r then s
             else (remember_removal \<lparr>r_peer = p, r_at = at, r_notified = False\<rparr> st,
                   change\<lparr>rc_learned := True\<rparr>, dirty))"

definition merge_member ::
  "device_id \<Rightarrow> device_id \<Rightarrow> merge_state \<Rightarrow> roster_peer \<Rightarrow> merge_state" where
  "merge_member me sender s rp =
     (case from_roster rp of
        None \<Rightarrow> s
      | Some p \<Rightarrow> if about_others me sender (p_id p) then merge_peer s p else s)"

definition merge_removal ::
  "device_id \<Rightarrow> device_id \<Rightarrow> merge_state \<Rightarrow> roster_removal \<Rightarrow> merge_state" where
  "merge_removal me sender s rr =
     (case from_roster (rr_peer rr) of
        None \<Rightarrow> s
      | Some p \<Rightarrow>
          if about_others me sender (p_id p) then merge_removed s (p, rr_removed_at_ms rr) else s)"

definition merge_mem ::
  "device_id \<Rightarrow> device_id \<Rightarrow> roster \<Rightarrow> peer_store \<Rightarrow> merge_state" where
  "merge_mem me sender ro st =
     foldl (merge_removal me sender)
       (foldl (merge_member me sender) (st, roster_change_default, False)
          (take max_roster_entries (ro_members ro)))
       (take max_roster_entries (ro_removed ro))"

definition merge ::
  "(128 word \<Rightarrow> rstr) \<Rightarrow> lan_error option \<Rightarrow> device_id \<Rightarrow> device_id \<Rightarrow> roster \<Rightarrow> peer_store
   \<Rightarrow> roster_change lan_result \<times> peer_store" where
  "merge fmt io me sender ro st =
     (let (st', change, dirty) = merge_mem me sender ro st
      in if dirty \<or> \<not> change_is_empty change
         then (let (r, st'') = save fmt io st' in (bind_ok r (\<lambda>_. Ok change), st''))
         else (Ok change, st'))"

section \<open>Runs\<close>

datatype store_event =
    Upsert peer
  | Seen device_id rstr "socket_addr option"
  | Remove device_id u64
  | Clear
  | MarkNotified device_id
  | MergeRoster device_id device_id roster

fun store_step ::
  "(128 word \<Rightarrow> rstr) \<Rightarrow> peer_store \<Rightarrow> store_event \<times> lan_error option \<Rightarrow> peer_store" where
  "store_step fmt st (Upsert p, io) = snd (upsert fmt io p st)"
| "store_step fmt st (Seen d name a, io) = snd (seen fmt io d name a st)"
| "store_step fmt st (Remove d at, io) = snd (remove fmt io d at st)"
| "store_step fmt st (Clear, io) = snd (clear fmt io st)"
| "store_step fmt st (MarkNotified d, io) = snd (mark_notified fmt io d st)"
| "store_step fmt st (MergeRoster me sender ro, io) = snd (merge fmt io me sender ro st)"

section \<open>Invariant\<close>

abbreviation r_id :: "removed \<Rightarrow> device_id" where "r_id r \<equiv> p_id (r_peer r)"

definition store_inv :: "peer_store \<Rightarrow> bool" where
  "store_inv st \<longleftrightarrow>
     distinct (map p_id (ps_peers st)) \<and> distinct (map r_id (ps_removed st))
     \<and> p_id ` set (ps_peers st) \<inter> r_id ` set (ps_removed st) = {}
     \<and> length (ps_removed st) \<le> max_removed"

lemma ps_save [simp]:
  "ps_peers (snd (save fmt io st)) = ps_peers st" "ps_removed (snd (save fmt io st)) = ps_removed st"
  by (simp_all add: save_def Let_def split: option.split)

lemma store_inv_cong:
  "ps_peers st = ps_peers st' \<Longrightarrow> ps_removed st = ps_removed st' \<Longrightarrow> store_inv st = store_inv st'"
  by (simp add: store_inv_def)

lemma store_inv_save [simp]: "store_inv (snd (save fmt io st)) = store_inv st"
  by (rule store_inv_cong) simp_all

lemma get_Some: "get st d = Some p \<Longrightarrow> p \<in> set (ps_peers st) \<and> p_id p = d"
  unfolding get_def using find_SomeD by fastforce

lemma get_None: "get st d = None \<longleftrightarrow> d \<notin> p_id ` set (ps_peers st)"
  by (auto simp: get_def find_None_iff_ball)

lemma get_member: "store_inv st \<Longrightarrow> p \<in> set (ps_peers st) \<Longrightarrow> get st (p_id p) = Some p"
  unfolding get_def store_inv_def by (intro find_distinct_Some) auto

lemma store_inv_upsert: "store_inv st \<Longrightarrow> store_inv (upsert_mem p st)"
  unfolding store_inv_def upsert_mem_def
  by (auto simp: distinct_map_filter intro: order_trans [OF length_filter_le])

lemma upd_first_keys:
  "(\<And>q. p_id (f q) = p_id q) \<Longrightarrow> map p_id (upd_first P f ps) = map p_id ps"
  by (rule map_upd_first)

lemma set_map_ids: "map p_id ps = map p_id qs \<Longrightarrow> p_id ` set ps = p_id ` set qs"
  by (metis list.set_map)

lemma store_inv_peers:
  "store_inv st \<Longrightarrow> map p_id ps = map p_id (ps_peers st) \<Longrightarrow> store_inv (st\<lparr>ps_peers := ps\<rparr>)"
  using set_map_ids [of ps "ps_peers st"] by (simp add: store_inv_def)

lemma set_tl_subset: "set (tl xs) \<subseteq> set xs"
  by (cases xs) auto

lemma store_inv_remember:
  assumes "store_inv st" and "r_id r \<notin> p_id ` set (ps_peers st)"
  shows "store_inv (remember_removal r st)"
proof -
  let ?rs = "filter (\<lambda>q. r_id q \<noteq> r_id r) (ps_removed st) @ [r]"
  have "distinct (map r_id ?rs)"
    using assms(1) unfolding store_inv_def by (auto simp: distinct_map_filter)
  then have "distinct (map r_id (tl ?rs))"
    by (simp add: distinct_tl map_tl)
  moreover have "length ?rs \<le> Suc max_removed"
    using assms(1) order_trans [OF length_filter_le, of "ps_removed st" max_removed]
    by (simp add: store_inv_def)
  moreover have disj: "p_id ` set (ps_peers st) \<inter> r_id ` set ?rs = {}"
    using assms by (auto simp: store_inv_def)
  moreover have "p_id ` set (ps_peers st) \<inter> r_id ` set (tl ?rs) = {}"
    using disj image_mono [OF set_tl_subset, of r_id ?rs] by blast
  ultimately show ?thesis
    using assms(1) \<open>distinct (map r_id ?rs)\<close>
    by (simp add: store_inv_def remember_removal_def Let_def del: filter_append)
qed

lemma get_drop_first:
  "store_inv st \<Longrightarrow>
   get (st\<lparr>ps_peers := remove_first (\<lambda>q. p_id q = d) (ps_peers st)\<rparr>) x = (if x = d then None else get st x)"
  by (auto simp: get_def store_inv_def remove_first_filter find_filter_other)

lemma store_inv_drop_first:
  "store_inv st \<Longrightarrow> store_inv (st\<lparr>ps_peers := remove_first (\<lambda>q. p_id q = d) (ps_peers st)\<rparr>)"
  using set_remove_first [of "\<lambda>q. p_id q = d" "ps_peers st"]
  unfolding store_inv_def by (auto intro: distinct_map_remove_first)

lemma store_inv_move:
  assumes "store_inv st" and "r_id r = d"
  shows "store_inv (remember_removal r (st\<lparr>ps_peers := remove_first (\<lambda>q. p_id q = d) (ps_peers st)\<rparr>))"
proof (rule store_inv_remember [OF store_inv_drop_first [OF assms(1)]])
  have "d \<notin> p_id ` set (remove_first (\<lambda>q. p_id q = d) (ps_peers st))"
    using assms(1) by (auto simp: store_inv_def remove_first_filter)
  then show "r_id r \<notin> p_id ` set (ps_peers (st\<lparr>ps_peers := remove_first (\<lambda>q. p_id q = d) (ps_peers st)\<rparr>))"
    using assms(2) by simp
qed

lemma store_inv_removal:
  "store_inv st \<Longrightarrow> get st d = Some p \<Longrightarrow>
   store_inv (remember_removal \<lparr>r_peer = p, r_at = at, r_notified = n\<rparr>
     (st\<lparr>ps_peers := remove_first (\<lambda>q. p_id q = d) (ps_peers st)\<rparr>))"
  by (rule store_inv_move) (simp_all add: get_Some)

lemma store_inv_merge_peer: "store_inv (fst s) \<Longrightarrow> store_inv (fst (merge_peer s p))"
proof (cases s)
  case (fields st change dirty)
  assume inv: "store_inv (fst s)"
  show ?thesis
  proof (cases "get st (p_id p)")
    case None
    then have "store_inv (st\<lparr>ps_removed := filter (\<lambda>r. r_id r \<noteq> p_id p) (ps_removed st), ps_peers := ps_peers st @ [p]\<rparr>)"
      using inv fields unfolding store_inv_def get_None
      by (auto simp: distinct_map_filter intro: order_trans [OF length_filter_le])
    with None inv fields show ?thesis by (simp add: merge_peer_def Let_def)
  next
    case (Some known)
    with inv fields show ?thesis
      by (auto simp: merge_peer_def Let_def intro!: store_inv_peers upd_first_keys)
  qed
qed

lemma store_inv_merge_removed: "store_inv (fst s) \<Longrightarrow> store_inv (fst (merge_removed s pt))"
  by (cases s; cases pt)
    (auto simp: merge_removed_def Let_def store_inv_removal store_inv_remember get_None
      split: option.split)

lemma store_inv_merge_mem: "store_inv st \<Longrightarrow> store_inv (fst (merge_mem me sender ro st))"
proof -
  assume inv: "store_inv st"
  have members: "store_inv (fst s) \<Longrightarrow> store_inv (fst (foldl (merge_member me sender) s ms))" for s ms
    by (induction ms arbitrary: s)
      (auto simp: merge_member_def store_inv_merge_peer split: option.split)
  have removals: "store_inv (fst s) \<Longrightarrow> store_inv (fst (foldl (merge_removal me sender) s rs))" for s rs
    by (induction rs arbitrary: s)
      (auto simp: merge_removal_def store_inv_merge_removed split: option.split)
  show ?thesis
    unfolding merge_mem_def by (intro removals members) (simp add: inv)
qed

lemma store_inv_step:
  assumes "store_inv st"
  shows "store_inv (store_step fmt st e)"
proof (cases e)
  case (Pair ev io)
  show ?thesis
  proof (cases ev)
    case (Seen d name a)
    with assms Pair show ?thesis
      by (auto simp: seen_def Let_def intro!: store_inv_peers upd_first_keys split: option.split)
  next
    case (Remove d at)
    with assms Pair show ?thesis
      by (auto simp: remove_def remove_mem_def Let_def case_prod_beta store_inv_removal
          split: option.split)
  next
    case (MarkNotified d)
    have ids: "map r_id (upd_first P (\<lambda>r. r\<lparr>r_notified := True\<rparr>) rs) = map r_id rs" for P rs
      by (rule map_upd_first) simp
    then have "r_id ` set (upd_first P (\<lambda>r. r\<lparr>r_notified := True\<rparr>) rs) = r_id ` set rs" for P rs
      by (metis list.set_map)
    with assms Pair MarkNotified ids show ?thesis
      by (simp add: mark_notified_def store_inv_def)
  next
    case (MergeRoster me sender ro)
    with Pair store_inv_merge_mem [OF assms, of me sender ro] show ?thesis
      by (cases "merge_mem me sender ro st") (simp add: merge_def Let_def case_prod_beta)
  qed (use assms Pair in \<open>simp_all add: upsert_def clear_def store_inv_upsert,
      simp add: store_inv_def\<close>)
qed

interpretation peers: state_machine "store_step fmt" store_inv for fmt
  by unfold_locales (rule store_inv_step)

section \<open>Specification: the newer word about each device\<close>

text \<open>
  What a store says about a device: a member since some time, removed at some time, or nothing. Of
  two words the one with the later time counts, and at the same time the removal.
\<close>

type_synonym status = "(u64 \<times> bool) option"

definition status :: "peer_store \<Rightarrow> device_id \<Rightarrow> status" where
  "status st d =
     (case get st d of
        Some p \<Rightarrow> Some (p_paired p, False)
      | None \<Rightarrow> map_option (\<lambda>r. (r_at r, True)) (find (\<lambda>r. r_id r = d) (ps_removed st)))"

definition join_status :: "status \<Rightarrow> status \<Rightarrow> status" where
  "join_status a b = max a b"

interpretation status: merge_lattice join_status
  by unfold_locales (simp_all only: join_status_def max.assoc max.idem, rule max.commute)

lemma join_status_None [simp]: "join_status None a = a" "join_status a None = a"
  by (cases a; simp add: join_status_def max_def)+

lemma join_status_Some:
  "join_status (Some (a, x)) (Some (b, y)) =
     (if a < b \<or> a = b \<and> (x \<longrightarrow> y) then Some (b, y) else Some (a, x))"
  by (auto simp: join_status_def max_def)

text \<open>What a roster says about a device, in the order it is read.\<close>

definition roster_words :: "device_id \<Rightarrow> device_id \<Rightarrow> roster \<Rightarrow> device_id \<Rightarrow> status list" where
  "roster_words me sender ro d =
     (if about_others me sender d
      then map (\<lambda>p. Some (p_paired p, False))
             (filter (\<lambda>p. p_id p = d)
                (List.map_filter from_roster (take max_roster_entries (ro_members ro))))
           @ map (\<lambda>(p, at). Some (at, True))
             (filter (\<lambda>(p, at). p_id p = d)
                (List.map_filter (\<lambda>rr. map_option (\<lambda>p. (p, rr_removed_at_ms rr)) (from_roster (rr_peer rr)))
                   (take max_roster_entries (ro_removed ro))))
      else [])"

text \<open>
  The assumption the merge makes: a device is paired anew only with a new key, so that the time a
  device joined is determined by its identifier and key (\<open>since\<close>).
\<close>

definition times_by_key :: "(device_id \<Rightarrow> byte list \<Rightarrow> u64) \<Rightarrow> peer list \<Rightarrow> bool" where
  "times_by_key since ps \<longleftrightarrow> (\<forall>p\<in>set ps. p_paired p = since (p_id p) (p_key p))"

section \<open>Lemmas: one entry\<close>

lemma get_upd_first_other:
  "x \<noteq> d \<Longrightarrow> (\<And>q. p_id (f q) = p_id q) \<Longrightarrow>
   get (st\<lparr>ps_peers := upd_first (\<lambda>q. p_id q = d) f (ps_peers st)\<rparr>) x = get st x"
  by (simp add: get_def find_upd_first_other)

lemma get_upd_first_same:
  "(\<And>q. p_id (f q) = p_id q) \<Longrightarrow>
   get (st\<lparr>ps_peers := upd_first (\<lambda>q. p_id q = d) f (ps_peers st)\<rparr>) d = map_option f (get st d)"
  by (simp add: get_def find_upd_first_same)

lemma find_removed:
  assumes "store_inv st" and "r \<in> set (ps_removed st)"
  shows "find (\<lambda>q. r_id q = r_id r) (ps_removed st) = Some r"
  using find_distinct_Some [of r_id "ps_removed st" r] assms by (simp add: store_inv_def)

lemma status_member: "get st d = Some p \<Longrightarrow> status st d = Some (p_paired p, False)"
  by (simp add: status_def)

lemma status_removed:
  assumes "store_inv st" and "r \<in> set (ps_removed st)"
  shows "status st (r_id r) = Some (r_at r, True)"
proof -
  have "get st (r_id r) = None"
    using assms unfolding get_None store_inv_def by auto
  then show ?thesis by (simp add: status_def find_removed [OF assms])
qed

lemma status_merge_peer:
  assumes inv: "store_inv (fst s)" and since: "times_by_key since (ps_peers (fst s))"
    and p: "p_paired p = since (p_id p) (p_key p)"
  shows "status (fst (merge_peer s p)) x =
      (if x = p_id p then join_status (status (fst s) x) (Some (p_paired p, False)) else status (fst s) x)"
    and "times_by_key since (ps_peers (fst (merge_peer s p)))"
    and "length (ps_removed (fst (merge_peer s p))) \<le> length (ps_removed (fst s))"
proof -
  obtain st change dirty where s: "s = (st, change, dirty)" by (cases s)
  let ?st = "fst (merge_peer s p)"
  have "(status ?st x = (if x = p_id p then join_status (status st x) (Some (p_paired p, False)) else status st x))
    \<and> times_by_key since (ps_peers ?st) \<and> length (ps_removed ?st) \<le> length (ps_removed st)"
  proof (cases "\<exists>r\<in>set (ps_removed st). r_id r = p_id p \<and> p_paired p \<le> r_at r")
    case True
    then obtain r where r: "r \<in> set (ps_removed st)" "r_id r = p_id p" "p_paired p \<le> r_at r" by blast
    then have "status st (p_id p) = Some (r_at r, True)"
      using status_removed [of st r] inv s by simp
    with True r(3) since s show ?thesis
      by (auto simp: merge_peer_def Let_def join_status_Some)
  next
    case not_removed: False
    show ?thesis
    proof (cases "get st (p_id p)")
      case None
      have "get (st\<lparr>ps_removed := rs, ps_peers := ps_peers st @ [p]\<rparr>) x
          = (if x = p_id p then Some p else get st x)" for rs
        using None by (auto simp: get_def find_append split: option.split)
      moreover have "join_status (status st (p_id p)) (Some (p_paired p, False)) = Some (p_paired p, False)"
      proof (cases "find (\<lambda>r. r_id r = p_id p) (ps_removed st)")
        case (Some r)
        with not_removed have "r_at r < p_paired p"
          using find_SomeD [OF Some] by (auto simp: not_le)
        with Some None show ?thesis by (simp add: status_def join_status_Some)
      qed (simp add: status_def None)
      ultimately show ?thesis
        using None not_removed since p s
        by (auto simp: merge_peer_def Let_def status_def find_filter_other times_by_key_def
            split: option.split)
    next
      case (Some known)
      let ?rekey = "p_key known \<noteq> p_key p \<and> p_paired known < p_paired p"
      let ?readdr = "p_addr known = None \<and> p_addr p \<noteq> None"
      define f where "f = (\<lambda>q :: peer. let q' = (if ?rekey then q\<lparr>p_key := p_key p, p_paired := p_paired p\<rparr> else q)
        in if ?readdr then q'\<lparr>p_addr := p_addr p\<rparr> else q')"
      have known: "p_id known = p_id p" "p_paired known = since (p_id p) (p_key known)"
        using get_Some [OF Some] since s by (auto simp: times_by_key_def)
      have f: "p_id (f q) = p_id q"
          "p_paired (f q) = (if ?rekey then p_paired p else p_paired q)"
          "p_key (f q) = (if ?rekey then p_key p else p_key q)" for q
        by (simp_all add: f_def Let_def)
      have st: "?st = st\<lparr>ps_peers := upd_first (\<lambda>q. p_id q = p_id p) f (ps_peers st)\<rparr>"
        using Some not_removed by (auto simp: s merge_peer_def Let_def f_def)
      have since': "\<forall>q\<in>set (ps_peers st). p_paired q = since (p_id q) (p_key q)"
        using since s by (simp add: times_by_key_def)
      have "set (upd_first (\<lambda>q. p_id q = p_id p) f qs) \<subseteq> set qs \<union> f ` {q \<in> set qs. p_id q = p_id p}" for qs
        by (induction qs) auto
      then have times: "times_by_key since (ps_peers ?st)"
        using since' p unfolding st times_by_key_def by (fastforce simp: f)
      have "join_status (status st (p_id p)) (Some (p_paired p, False))
          = Some (if ?rekey then p_paired p else p_paired known, False)"
        using p known Some by (auto simp: status_def join_status_Some)
      moreover have "status ?st (p_id p) = Some (if ?rekey then p_paired p else p_paired known, False)"
        using Some unfolding st by (simp add: status_def get_upd_first_same f)
      moreover have "status ?st x = status st x" if "x \<noteq> p_id p"
        using that unfolding st by (simp add: status_def get_upd_first_other f split: option.split)
      ultimately show ?thesis
        using times by (simp add: st)
    qed
  qed
  then show "status ?st x = (if x = p_id p then join_status (status (fst s) x) (Some (p_paired p, False)) else status (fst s) x)"
    and "times_by_key since (ps_peers ?st)"
    and "length (ps_removed ?st) \<le> length (ps_removed (fst s))"
    by (simp_all add: s)
qed

lemma get_remember [simp]: "get (remember_removal r st) = get st"
  by (simp add: get_def remember_removal_def Let_def fun_eq_iff)

lemma ps_peers_remember [simp]: "ps_peers (remember_removal r st) = ps_peers st"
  by (simp add: remember_removal_def Let_def)

lemma remember_with_room:
  assumes "length (ps_removed st) < max_removed"
  shows "ps_removed (remember_removal r st) = filter (\<lambda>q. r_id q \<noteq> r_id r) (ps_removed st) @ [r]"
proof -
  have "length (filter (\<lambda>q. r_id q \<noteq> r_id r) (ps_removed st)) < max_removed"
    using length_filter_le assms by (rule le_less_trans)
  then show ?thesis by (simp add: remember_removal_def Let_def)
qed

lemma status_remember:
  assumes "length (ps_removed st) < max_removed" and "get st (r_id r) = None"
  shows "status (remember_removal r st) x = (if x = r_id r then Some (r_at r, True) else status st x)"
  using assms
  by (auto simp: status_def remember_with_room find_append find_filter_other split: option.split)

lemma status_merge_removed:
  assumes inv: "store_inv (fst s)" and since: "times_by_key since (ps_peers (fst s))"
    and room: "length (ps_removed (fst s)) < max_removed"
  shows "status (fst (merge_removed s (p, at))) x =
      (if x = p_id p then join_status (status (fst s) x) (Some (at, True)) else status (fst s) x)"
    and "times_by_key since (ps_peers (fst (merge_removed s (p, at))))"
    and "length (ps_removed (fst (merge_removed s (p, at)))) \<le> Suc (length (ps_removed (fst s)))"
proof -
  obtain st change dirty where s: "s = (st, change, dirty)" by (cases s)
  let ?st = "fst (merge_removed s (p, at))"
  have len: "length (ps_removed (remember_removal r st')) \<le> Suc (length (ps_removed st'))" for r st'
    by (auto simp: remember_removal_def Let_def intro: le_SucI)
  have since': "times_by_key since (remove_first P (ps_peers st))" for P
    using since set_remove_first [of P "ps_peers st"] by (auto simp: times_by_key_def s)
  have "(status ?st x = (if x = p_id p then join_status (status st x) (Some (at, True)) else status st x))
    \<and> times_by_key since (ps_peers ?st) \<and> length (ps_removed ?st) \<le> Suc (length (ps_removed st))"
  proof (cases "get st (p_id p)")
    case (Some known)
    let ?drop = "st\<lparr>ps_peers := remove_first (\<lambda>q. p_id q = p_id p) (ps_peers st)\<rparr>"
    let ?r = "\<lparr>r_peer = known, r_at = at, r_notified = False\<rparr>"
    have id: "p_id known = p_id p" using get_Some [OF Some] by simp
    have drop: "get ?drop y = (if y = p_id p then None else get st y)" for y
      using inv by (simp add: s get_drop_first)
    then have "status (remember_removal ?r ?drop) x
        = (if x = p_id p then Some (at, True) else status st x)"
      using room by (subst status_remember) (auto simp: id s status_def split: option.split)
    then show ?thesis
      using Some since since' len [of ?r ?drop] s
      by (auto simp: merge_removed_def Let_def status_member [OF Some] join_status_Some)
  next
    case None
    show ?thesis
    proof (cases "\<exists>r\<in>set (ps_removed st). r_id r = p_id p \<and> at \<le> r_at r")
      case True
      then obtain r where r: "r \<in> set (ps_removed st)" "r_id r = p_id p" "at \<le> r_at r" by blast
      then have "status st (p_id p) = Some (r_at r, True)"
        using status_removed [of st r] inv s by simp
      with True r(3) None since s show ?thesis
        by (auto simp: merge_removed_def Let_def join_status_Some)
    next
      case False
      let ?r = "\<lparr>r_peer = p, r_at = at, r_notified = False\<rparr>"
      have "join_status (status st (p_id p)) (Some (at, True)) = Some (at, True)"
      proof (cases "find (\<lambda>r. r_id r = p_id p) (ps_removed st)")
        case (Some r)
        with False have "r_at r < at" using find_SomeD [OF Some] by (auto simp: not_le)
        with Some None show ?thesis by (simp add: status_def join_status_Some)
      qed (simp add: status_def None)
      moreover have "status (remember_removal ?r st) x
          = (if x = p_id p then Some (at, True) else status st x)"
        using room None by (subst status_remember) (simp_all add: s)
      ultimately show ?thesis
        using None False since len [of ?r st] s by (auto simp: merge_removed_def Let_def)
    qed
  qed
  then show "status ?st x = (if x = p_id p then join_status (status (fst s) x) (Some (at, True)) else status (fst s) x)"
    and "times_by_key since (ps_peers ?st)"
    and "length (ps_removed ?st) \<le> Suc (length (ps_removed (fst s)))"
    by (simp_all add: s)
qed

section \<open>Lemmas: whole rosters\<close>

definition merge_ready ::
  "(device_id \<Rightarrow> byte list \<Rightarrow> u64) \<Rightarrow> nat \<Rightarrow> peer_store \<Rightarrow> bool" where
  "merge_ready since n st \<longleftrightarrow>
     store_inv st \<and> times_by_key since (ps_peers st) \<and> length (ps_removed st) + n \<le> max_removed"

lemma merge_members:
  assumes "merge_ready since n (fst s)"
    and "times_by_key since (List.map_filter from_roster ms)"
  shows "merge_ready since n (fst (foldl (merge_member me sender) s ms))
    \<and> status (fst (foldl (merge_member me sender) s ms)) x =
        foldl join_status (status (fst s) x)
          (if about_others me sender x
           then map (\<lambda>p. Some (p_paired p, False))
                  (filter (\<lambda>p. p_id p = x) (List.map_filter from_roster ms))
           else [])"
  using assms
proof (induction ms arbitrary: s)
  case (Cons m ms)
  show ?case
  proof (cases "from_roster m")
    case None
    with Cons show ?thesis by (simp add: merge_member_def map_filter_simps)
  next
    case (Some p)
    let ?s = "merge_member me sender s m"
    have p: "p_paired p = since (p_id p) (p_key p)"
      and ms: "times_by_key since (List.map_filter from_roster ms)"
      using Cons.prems(2) Some by (simp_all add: map_filter_simps times_by_key_def)
    have ready: "store_inv (fst s)" "times_by_key since (ps_peers (fst s))"
      using Cons.prems(1) by (simp_all add: merge_ready_def)
    note step = status_merge_peer [OF ready p]
    have "merge_ready since n (fst ?s)"
      using Cons.prems(1) step(2,3) Some
      by (auto simp: merge_ready_def merge_member_def store_inv_merge_peer)
    with Cons.IH [of ?s] ms step(1) [of x] Some show ?thesis
      by (auto simp: map_filter_simps merge_member_def)
  qed
qed (simp add: map_filter_simps)

lemma merge_removals:
  assumes "merge_ready since (length rs) (fst s)"
  shows "status (fst (foldl (merge_removal me sender) s rs)) x =
        foldl join_status (status (fst s) x)
          (if about_others me sender x
           then map (\<lambda>(p, at). Some (at, True))
             (filter (\<lambda>(p, at). p_id p = x)
                (List.map_filter (\<lambda>rr. map_option (\<lambda>p. (p, rr_removed_at_ms rr)) (from_roster (rr_peer rr))) rs))
           else [])
    \<and> merge_ready since 0 (fst (foldl (merge_removal me sender) s rs))
    \<and> length (ps_removed (fst (foldl (merge_removal me sender) s rs)))
        \<le> length (ps_removed (fst s)) + length rs"
  using assms
proof (induction rs arbitrary: s)
  case (Cons r rs)
  have ready: "store_inv (fst s)" "times_by_key since (ps_peers (fst s))"
      "length (ps_removed (fst s)) < max_removed"
    using Cons.prems by (simp_all add: merge_ready_def)
  have less: "merge_ready since (length rs) (fst s)"
    using Cons.prems by (simp add: merge_ready_def)
  show ?case
  proof (cases "from_roster (rr_peer r)")
    case None
    with Cons.IH [OF less] show ?thesis by (auto simp: merge_removal_def map_filter_simps)
  next
    case (Some p)
    let ?s = "merge_removal me sender s r"
    note step = status_merge_removed [OF ready, of p "rr_removed_at_ms r"]
    have "merge_ready since (length rs) (fst ?s)"
      using Cons.prems step(2,3) Some
      by (auto simp: merge_ready_def merge_removal_def store_inv_merge_removed)
    with Cons.IH [of ?s] step(1) [of x] step(3) Some show ?thesis
      by (auto simp: map_filter_simps merge_removal_def)
  qed
qed (simp add: map_filter_simps merge_ready_def)

lemma merge_mem_words:
  assumes "merge_ready since (length (ro_removed ro)) st"
    and "times_by_key since (List.map_filter from_roster (ro_members ro))"
  shows "status (fst (merge_mem me sender ro st)) x
      = foldl join_status (status st x) (roster_words me sender ro x)
    \<and> merge_ready since 0 (fst (merge_mem me sender ro st))
    \<and> length (ps_removed (fst (merge_mem me sender ro st)))
        \<le> length (ps_removed st) + length (ro_removed ro)"
proof -
  let ?ms = "take max_roster_entries (ro_members ro)" and ?rs = "take max_roster_entries (ro_removed ro)"
  let ?s = "foldl (merge_member me sender) (st, roster_change_default, False) ?ms"
  have "set (List.map_filter from_roster ?ms) \<subseteq> set (List.map_filter from_roster (ro_members ro))"
    by (auto simp: map_filter_def dest: in_set_takeD)
  then have "times_by_key since (List.map_filter from_roster ?ms)"
    using assms(2) by (auto simp: times_by_key_def)
  moreover have "merge_ready since (length ?rs) (fst (st, roster_change_default, False))"
    using assms(1) by (auto simp: merge_ready_def)
  ultimately have members: "merge_ready since (length ?rs) (fst ?s)"
      "\<And>y. status (fst ?s) y = foldl join_status (status st y)
        (if about_others me sender y
         then map (\<lambda>p. Some (p_paired p, False)) (filter (\<lambda>p. p_id p = y) (List.map_filter from_roster ?ms))
         else [])"
    using merge_members [of since "length ?rs" "(st, roster_change_default, False)" ?ms me sender] by auto
  have shrink: "length (ps_removed (fst (foldl (merge_member me sender) s ms))) \<le> length (ps_removed (fst s))" for s ms
  proof (induction ms arbitrary: s)
    case (Cons m ms)
    have "length (ps_removed (fst (merge_member me sender s m))) \<le> length (ps_removed (fst s))"
      by (cases s) (auto simp: merge_member_def merge_peer_def Let_def split: option.split)
    with Cons [of "merge_member me sender s m"] show ?case by simp
  qed simp
  note removals = merge_removals [OF members(1), of me sender]
  have merge: "merge_mem me sender ro st = foldl (merge_removal me sender) ?s ?rs"
    by (simp add: merge_mem_def)
  have "status (fst (merge_mem me sender ro st)) x
      = foldl join_status (status st x) (roster_words me sender ro x)"
    using removals [of x] members(2) [of x] by (simp add: merge roster_words_def)
  moreover have "length (ps_removed (fst (merge_mem me sender ro st)))
      \<le> length (ps_removed st) + length (ro_removed ro)"
  proof -
    have "length (ps_removed (fst (merge_mem me sender ro st)))
        \<le> length (ps_removed (fst ?s)) + length ?rs"
      using removals by (simp add: merge)
    also have "\<dots> \<le> length (ps_removed st) + length (ro_removed ro)"
      using shrink [of "(st, roster_change_default, False)" ?ms] by (intro add_mono) simp_all
    finally show ?thesis .
  qed
  ultimately show ?thesis
    using removals by (simp add: merge)
qed

lemma get_cong: "ps_peers st = ps_peers st' \<Longrightarrow> get st = get st'"
  by (simp add: get_def fun_eq_iff)

lemma merge_lists [simp]:
  "ps_peers (snd (merge fmt io me sender ro st)) = ps_peers (fst (merge_mem me sender ro st))"
  "ps_removed (snd (merge fmt io me sender ro st)) = ps_removed (fst (merge_mem me sender ro st))"
  by (cases "merge_mem me sender ro st"; simp add: merge_def Let_def case_prod_beta)+

lemma status_merge: "status (snd (merge fmt io me sender ro st)) = status (fst (merge_mem me sender ro st))"
  by (auto simp: status_def fun_eq_iff get_cong [OF merge_lists(1)] split: option.split)

lemma ready_merge:
  "merge_ready since n (snd (merge fmt io me sender ro st)) = merge_ready since n (fst (merge_mem me sender ro st))"
  by (simp add: merge_ready_def store_inv_def)

text \<open>Merging one roster after the other, each with its sender.\<close>

definition merge_all ::
  "(128 word \<Rightarrow> rstr) \<Rightarrow> device_id \<Rightarrow> peer_store \<Rightarrow> (device_id \<times> roster) list \<Rightarrow> peer_store" where
  "merge_all fmt me = foldl (\<lambda>st (sender, ro). snd (merge fmt None me sender ro st))"

definition all_removals :: "(device_id \<times> roster) list \<Rightarrow> nat" where
  "all_removals ros = sum_list (map (\<lambda>(_, ro). length (ro_removed ro)) ros)"

lemma merge_all_words:
  assumes "merge_ready since (all_removals ros) st"
    and "\<forall>(sender, ro)\<in>set ros. times_by_key since (List.map_filter from_roster (ro_members ro))"
  shows "status (merge_all fmt me st ros) x
    = foldl join_status (status st x) (concat (map (\<lambda>(sender, ro). roster_words me sender ro x) ros))"
  using assms
proof (induction ros arbitrary: st)
  case (Cons r ros)
  obtain sender ro where r: "r = (sender, ro)" by (cases r)
  let ?st = "snd (merge fmt None me sender ro st)"
  have one: "merge_ready since (length (ro_removed ro)) st"
    using Cons.prems(1) by (simp add: r all_removals_def merge_ready_def)
  have times: "times_by_key since (List.map_filter from_roster (ro_members ro))"
    using Cons.prems(2) r by simp
  note words = merge_mem_words [OF one times, of me sender]
  have "length (ps_removed ?st) \<le> length (ps_removed st) + length (ro_removed ro)"
    using words by simp
  moreover have "length (ps_removed st) + (length (ro_removed ro) + all_removals ros) \<le> max_removed"
    using Cons.prems(1) by (simp add: r all_removals_def merge_ready_def)
  ultimately have "length (ps_removed (fst (merge_mem me sender ro st))) + all_removals ros \<le> max_removed"
    by simp
  then have "merge_ready since (all_removals ros) ?st"
    using words unfolding ready_merge by (simp add: merge_ready_def)
  with Cons.IH [of ?st] Cons.prems(2) words show ?case
    by (simp add: r merge_all_def status_merge)
qed (simp add: merge_all_def)

section \<open>Lemmas: the roster of another store\<close>

lemma filter_find:
  "distinct (map f xs) \<Longrightarrow>
   filter (\<lambda>y. f y = k) xs = (case find (\<lambda>y. f y = k) xs of None \<Rightarrow> [] | Some y \<Rightarrow> [y])"
proof (induction xs)
  case (Cons a xs)
  have "find (\<lambda>y. f y = f a) xs = None" "filter (\<lambda>y. f y = f a) xs = []"
    using Cons.prems by (auto simp: find_None_iff_ball filter_empty_conv rev_image_eqI)
  with Cons show ?case by auto
qed simp

definition keys_ok :: "peer_store \<Rightarrow> bool" where
  "keys_ok st \<longleftrightarrow>
     (\<forall>p\<in>set (ps_peers st) \<union> r_peer ` set (ps_removed st). p_key p \<noteq> replicate key_len 0)"

definition sent_peer :: "peer \<Rightarrow> peer" where
  "sent_peer p = p\<lparr>p_name := take max_name_chars (p_name p), p_addr := rp_address (to_roster p)\<rparr>"

lemma sent_peer_simps [simp]:
  "p_id (sent_peer p) = p_id p" "p_key (sent_peer p) = p_key p" "p_paired (sent_peer p) = p_paired p"
  by (simp_all add: sent_peer_def)

lemma from_to_roster: "p_key p \<noteq> replicate key_len 0 \<Longrightarrow> from_roster (to_roster p) = Some (sent_peer p)"
  by (simp add: from_roster_def to_roster_def sent_peer_def)

lemma map_filter_Some: "(\<forall>x\<in>set xs. f (g x) = Some (h x)) \<Longrightarrow> List.map_filter f (map g xs) = map h xs"
  by (induction xs) (simp_all add: map_filter_simps)

lemma roster_of_words:
  assumes "store_inv other" and "keys_ok other" and "about_others me sender x"
    and "length (ps_peers other) \<le> max_roster_entries"
  shows "roster_words me sender (roster_of other) x
    = (case status other x of None \<Rightarrow> [] | Some w \<Rightarrow> [Some w])"
proof -
  let ?rr = "\<lambda>r. \<lparr>rr_peer = to_roster (r_peer r), rr_removed_at_ms = r_at r\<rparr>"
  have members: "List.map_filter from_roster (map to_roster (ps_peers other)) = map sent_peer (ps_peers other)"
    using assms(2) by (intro map_filter_Some) (simp add: keys_ok_def from_to_roster)
  have removals: "List.map_filter (\<lambda>rr. map_option (\<lambda>p. (p, rr_removed_at_ms rr)) (from_roster (rr_peer rr)))
      (map ?rr (ps_removed other)) = map (\<lambda>r. (sent_peer (r_peer r), r_at r)) (ps_removed other)"
    using assms(2) by (intro map_filter_Some) (simp add: keys_ok_def from_to_roster)
  have few: "length (ps_removed other) \<le> max_roster_entries"
    using assms(1) by (simp add: store_inv_def max_removed_def max_roster_entries_def)
  have filters: "filter (\<lambda>p. p_id p = x) (map sent_peer (ps_peers other))
      = map sent_peer (filter (\<lambda>p. p_id p = x) (ps_peers other))"
    "filter (\<lambda>(p, at). p_id p = x) (map (\<lambda>r. (sent_peer (r_peer r), r_at r)) (ps_removed other))
      = map (\<lambda>r. (sent_peer (r_peer r), r_at r)) (filter (\<lambda>r. r_id r = x) (ps_removed other))"
    by (simp_all add: filter_map comp_def)
  have finds: "filter (\<lambda>p. p_id p = x) (ps_peers other)
      = (case find (\<lambda>p. p_id p = x) (ps_peers other) of None \<Rightarrow> [] | Some y \<Rightarrow> [y])"
    "filter (\<lambda>r. r_id r = x) (ps_removed other)
      = (case find (\<lambda>r. r_id r = x) (ps_removed other) of None \<Rightarrow> [] | Some y \<Rightarrow> [y])"
    using assms(1) by (auto simp: store_inv_def intro!: filter_find)
  have "find (\<lambda>r. r_id r = x) (ps_removed other) = None" if "get other x = Some p" for p
    using get_Some [OF that] assms(1) by (auto simp: store_inv_def find_None_iff_ball)
  then show ?thesis
    using assms(3,4) few
    by (auto simp: roster_words_def roster_of_def members removals filters finds status_def get_def
        split: option.splits)
qed

section \<open>The store as a directory\<close>

lemma get_upsert: "get (upsert_mem p st) d = (if d = p_id p then Some p else get st d)"
  by (auto simp: get_def upsert_mem_def find_append find_filter_other split: option.split)

lemma get_remove: "store_inv st \<Longrightarrow> get (remove_mem d at st) x = (if x = d then None else get st x)"
  by (auto simp: remove_mem_def get_drop_first split: option.split)

lemma store_inv_remove: "store_inv st \<Longrightarrow> store_inv (remove_mem d at st)"
  by (auto simp: remove_mem_def store_inv_removal split: option.split)

interpretation trusted: directory get upsert_mem "\<lambda>d. remove_mem d at" p_id store_inv for at
  by unfold_locales
    (simp_all add: store_inv_upsert store_inv_remove get_upsert get_remove)

lemma get_removed_remove:
  assumes "get st d = Some p"
  shows "get_removed (remove_mem d at st) d = Some p"
proof -
  let ?r = "\<lparr>r_peer = p, r_at = at, r_notified = False\<rparr>"
  let ?st = "st\<lparr>ps_peers := remove_first (\<lambda>q. p_id q = d) (ps_peers st)\<rparr>"
  have id: "p_id p = d" using get_Some [OF assms] by simp
  obtain rs where rs: "ps_removed (remember_removal ?r ?st) = rs @ [?r]" "\<forall>r\<in>set rs. r_id r \<noteq> d"
  proof (cases "max_removed < length (filter (\<lambda>q. r_id q \<noteq> d) (ps_removed st) @ [?r])")
    case True
    then have "filter (\<lambda>q. r_id q \<noteq> d) (ps_removed st) \<noteq> []"
      by (auto simp: max_removed_def)
    then have "tl (filter (\<lambda>q. r_id q \<noteq> d) (ps_removed st) @ [?r])
        = tl (filter (\<lambda>q. r_id q \<noteq> d) (ps_removed st)) @ [?r]" by simp
    with True id have "ps_removed (remember_removal ?r ?st)
        = tl (filter (\<lambda>q. r_id q \<noteq> d) (ps_removed st)) @ [?r]"
      by (simp add: remember_removal_def Let_def)
    moreover have "\<forall>r\<in>set (tl (filter (\<lambda>q. r_id q \<noteq> d) (ps_removed st))). r_id r \<noteq> d"
      by (auto dest: subsetD [OF set_tl_subset])
    ultimately show ?thesis by (rule that)
  next
    case False
    with id have "ps_removed (remember_removal ?r ?st)
        = filter (\<lambda>q. r_id q \<noteq> d) (ps_removed st) @ [?r]"
      by (simp add: remember_removal_def Let_def)
    then show ?thesis by (rule that) simp
  qed
  have "find (\<lambda>r. r_id r = d \<and> \<not> r_notified r) (rs @ [?r]) = Some ?r"
  proof -
    have "find (\<lambda>r. r_id r = d \<and> \<not> r_notified r) rs = None"
      using rs(2) by (simp add: find_None_iff_ball)
    then show ?thesis using id by (simp add: find_append)
  qed
  with assms rs(1) show ?thesis by (simp add: get_removed_def remove_mem_def)
qed

section \<open>Lemmas: the file\<close>

text \<open>What the \<open>uuid\<close> crate documents: the text form reads back and has no blanks around it.\<close>

definition uuid_text ::
  "(128 word \<Rightarrow> rstr) \<Rightarrow> (rstr \<Rightarrow> 128 word option) \<Rightarrow> device_id \<Rightarrow> bool" where
  "uuid_text uuid_fmt uuid_parse d \<longleftrightarrow>
     uuid_parse (trim (uuid_fmt (device_uuid d))) = Some (device_uuid d)"

definition store_ids :: "peer_store \<Rightarrow> device_id set" where
  "store_ids st = p_id ` set (ps_peers st) \<union> r_id ` set (ps_removed st)"

definition store_keys :: "peer_store \<Rightarrow> byte list set" where
  "store_keys st = p_key ` set (ps_peers st) \<union> (p_key \<circ> r_peer) ` set (ps_removed st)"

lemma from_record_of:
  "uuid_text f g (p_id p) \<Longrightarrow> length (p_key p) = key_len \<Longrightarrow> from_record g (record_of f p) = Some p"
  by (simp add: from_record_def record_of_def device_id_from_str_def device_id_fmt_def uuid_text_def
      from_hex_hex to_key_def)

lemma collect_some_map: "(\<forall>x\<in>set xs. f x = Some (g x)) \<Longrightarrow> collect_some (map f xs) = Some (map g xs)"
  by (induction xs) simp_all

lemma collect_some_id: "(\<forall>x\<in>set xs. f (h x) = Some x) \<Longrightarrow> collect_some (map (f \<circ> h) xs) = Some xs"
  using collect_some_map [of xs "f \<circ> h" id] by simp

lemma load_saved:
  assumes "\<forall>d\<in>store_ids st. uuid_text f g d" and "\<forall>k\<in>store_keys st. length k = key_len"
    and "save f None st = (r, st')" and "ps_file st' = Some file"
  shows "store_load g (PeerFileRead file) = Ok st'"
proof -
  have peers: "collect_some (map (from_record g \<circ> record_of f) (ps_peers st)) = Some (ps_peers st)"
    using assms(1,2) by (intro collect_some_id) (simp add: store_ids_def store_keys_def from_record_of)
  have removed: "collect_some (map ((\<lambda>r. map_option
        (\<lambda>p. \<lparr>r_peer = p, r_at = rr_at r, r_notified = rr_notified r\<rparr>) (from_record g (rr_record r)))
      \<circ> (\<lambda>r. \<lparr>rr_record = record_of f (r_peer r), rr_at = r_at r, rr_notified = r_notified r\<rparr>))
      (ps_removed st)) = Some (ps_removed st)"
    using assms(1,2)
    by (intro collect_some_id) (simp add: store_ids_def store_keys_def from_record_of)
  from assms(3,4) peers removed show ?thesis
    by (auto simp: save_def Let_def store_load_def parse_file_def)
qed

section \<open>Properties\<close>

text \<open>
  C16: In every run of operations (pairing, removals, rosters of other devices, also when writing the
  file fails) the two lists stay consistent: a device is listed once, never both as paired and as
  removed, and at most 100 removals are kept.
\<close>

theorem peer_lists_stay_consistent:
  assumes "ps_peers st = []" and "ps_removed st = []"
  shows "store_inv (foldl (store_step fmt) st events)"
  using assms by (intro peers.invar_run) (simp add: store_inv_def)

theorem peer_lists_stay_consistent_witness:
  "store_inv (foldl (store_step (\<lambda>_. [])) \<lparr>ps_peers = [], ps_removed = [], ps_file = None\<rparr>
     [(Upsert \<lparr>p_id = DeviceId 3, p_name = [], p_key = [], p_paired = 1, p_addr = None\<rparr>, None),
      (Remove (DeviceId 3) 5, Some LanStopped), (Clear, None)])"
  by (rule peer_lists_stay_consistent) simp_all

text \<open>
  C35: Whatever was saved is what the next start loads: the paired devices with names, keys, times and
  addresses, and the removals with their times and whether the device was told.
\<close>

theorem saved_peers_load_back:
  assumes "\<forall>d\<in>store_ids st. uuid_text f g d" and "\<forall>k\<in>store_keys st. length k = key_len"
    and "save f None st = (r, st')"
  shows "\<exists>file. ps_file st' = Some file \<and> store_load g (PeerFileRead file) = Ok st'
    \<and> ps_peers st' = ps_peers st \<and> ps_removed st' = ps_removed st"
proof -
  have "ps_peers st' = ps_peers st" "ps_removed st' = ps_removed st"
    using ps_save [of f None st] assms(3) by simp_all
  moreover obtain pf where "ps_file st' = Some pf"
    using assms(3) by (auto simp: save_def Let_def)
  ultimately show ?thesis
    using load_saved [OF assms] by blast
qed

theorem saved_peers_load_back_witness:
  defines "p \<equiv> \<lparr>p_id = DeviceId 7, p_name = [97], p_key = replicate 32 1, p_paired = 5, p_addr = None\<rparr>"
  defines "f \<equiv> \<lambda>u :: 128 word. [65 + unat u]" and "g \<equiv> \<lambda>s. if s = [72] then Some (7 :: 128 word) else None"
  shows "\<exists>file. store_load g (PeerFileRead file)
    = Ok \<lparr>ps_peers = [p], ps_removed = [], ps_file = Some file\<rparr>"
proof -
  let ?st = "\<lparr>ps_peers = [p], ps_removed = [], ps_file = None\<rparr>"
  obtain r st' where save: "save f None ?st = (r, st')" by fastforce
  have "\<forall>d\<in>store_ids ?st. uuid_text f g d"
    by (simp add: store_ids_def p_def uuid_text_def f_def g_def trim_def trim_end_def is_whitespace_def)
  moreover have "\<forall>k\<in>store_keys ?st. length k = key_len"
    by (simp add: store_keys_def p_def key_len_def)
  ultimately obtain pf where "ps_file st' = Some pf" "store_load g (PeerFileRead pf) = Ok st'"
      "ps_peers st' = [p]" "ps_removed st' = []"
    using saved_peers_load_back [OF _ _ save, of g] by auto
  then show ?thesis by (metis peer_store.surjective old.unit.exhaust)
qed


definition example_peer :: "128 word \<Rightarrow> byte \<Rightarrow> u64 \<Rightarrow> peer" where
  "example_peer d k t =
     \<lparr>p_id = DeviceId d, p_name = [], p_key = replicate 32 k, p_paired = t, p_addr = None\<rparr>"




text \<open>
  The assumption on times matters. A device that is paired again with the same key gets a new
  time on the device that paired it, which other devices do not adopt from its roster. Then the
  order decides: with the pairing (time 5) read before an older removal (time 3), the device ends
  up removed; the other way around it ends up paired.
\<close>

theorem rosters_disagree_after_same_key_pairing:
  fixes st :: peer_store
  defines "again \<equiv> (DeviceId 2, roster_of \<lparr>ps_peers = [example_peer 4 1 5], ps_removed = [], ps_file = None\<rparr>)"
    and "gone \<equiv> (DeviceId 3, roster_of \<lparr>ps_peers = [],
                 ps_removed = [\<lparr>r_peer = example_peer 4 1 1, r_at = 3, r_notified = True\<rparr>], ps_file = None\<rparr>)"
    and "st \<equiv> \<lparr>ps_peers = [example_peer 4 1 1], ps_removed = [], ps_file = None\<rparr>"
  shows "status (merge_all (\<lambda>_. []) (DeviceId 1) st [again, gone]) (DeviceId 4) = Some (3, True)
    \<and> status (merge_all (\<lambda>_. []) (DeviceId 1) st [gone, again]) (DeviceId 4) = Some (5, False)"
  by (simp add: again_def gone_def st_def merge_all_def merge_def merge_mem_def merge_member_def
      merge_removal_def merge_peer_def merge_removed_def roster_of_def to_roster_def from_roster_def
      example_peer_def key_len_def max_name_chars_def max_roster_entries_def about_others_def get_def
      status_def roster_change_default_def change_is_empty_def save_def remember_removal_def
      max_removed_def Let_def)

text \<open>
  Removing a device forgets its trust but keeps it, with its key, to be told; storing a peer
  replaces whatever was known about that device and undoes its removal; neither touches any other
  device. No roster tells others a scoped IPv6 address.
\<close>

theorem store_operations_frame:
  assumes "store_inv st"
  shows "get (remove_mem d at st) x = (if x = d then None else get st x)
    \<and> get (upsert_mem p st) x = (if x = p_id p then Some p else get st x)
    \<and> get_removed (upsert_mem p st) (p_id p) = None
    \<and> (\<forall>q. get st d = Some q \<longrightarrow> get_removed (remove_mem d at st) d = Some q)
    \<and> (\<forall>m a. m \<in> set (ro_members (roster_of st)) \<and> rp_address m = Some a \<longrightarrow> shareable a)"
proof -
  have "get_removed (upsert_mem p st) (p_id p) = None"
    by (auto simp: get_removed_def upsert_mem_def find_None_iff_ball)
  moreover have "\<forall>m a. m \<in> set (ro_members (roster_of st)) \<and> rp_address m = Some a \<longrightarrow> shareable a"
    by (auto simp: roster_of_def to_roster_def split: option.splits if_splits)
  ultimately show ?thesis
    using trusted.lookup_drop [OF assms] trusted.lookup_store [OF assms] get_removed_remove by blast
qed

theorem store_operations_frame_witness:
  "get_removed (remove_mem (DeviceId 4) 9 \<lparr>ps_peers = [example_peer 4 1 1], ps_removed = [], ps_file = None\<rparr>)
     (DeviceId 4) = Some (example_peer 4 1 1)"
proof -
  let ?st = "\<lparr>ps_peers = [example_peer 4 1 1], ps_removed = [], ps_file = None\<rparr>"
  have "store_inv ?st" by (simp add: store_inv_def)
  moreover have "get ?st (DeviceId 4) = Some (example_peer 4 1 1)"
    by (simp add: get_def example_peer_def)
  ultimately show ?thesis using store_operations_frame [of ?st "DeviceId 4" 9] by blast
qed

end
