(* ===== verification/Node.thy ===== *)
theory Node
  imports Node_Protocol Peers "HOL-Library.AList"
begin

text \<open>
  The state of \<open>crates/cled-lan/src/node.rs\<close>: the paired devices, the open connections, dialing with
  backoff, pairing mode, the roster exchange and the dispatch of messages. Every handler of the
  source is a function from the node to the node and its effects in order; the network, the clock,
  the file system and the random numbers enter as arguments. The maps of the node are association
  lists with distinct keys.
\<close>

section \<open>State\<close>

definition max_backoff :: nat where "max_backoff = secs 30"
definition code_lifetime :: nat where "code_lifetime = secs 120"
definition max_pairing_failures :: u32 where "max_pairing_failures = 3"
definition clock_skew_warning_ms :: u64 where "clock_skew_warning_ms = 5000"
definition fallback_dial_intervals :: nat where "fallback_dial_intervals = 3"

record conn =
  cn_id :: u64
  cn_initiator :: device_id

datatype outgoing = OutMessage "byte list" | OutLast "byte list" | OutClose

record pairing_session =
  pg_code :: pairing_code
  pg_expires :: nat
  pg_failures :: u32

record backoff =
  bo_next_attempt :: nat
  bo_delay :: nat

datatype event =
    PeersChanged
  | ItemReceived clipboard_item device_id
  | Paired device_id rstr
  | PairingCodeChanged "pairing_code option"
  | RemovedBy device_id rstr
  | ClockSkew device_id u64

record peer_status =
  pst_id :: device_id
  pst_name :: rstr
  pst_online :: bool

text \<open>
  What a handler does besides changing the state: events for the app, messages handed to the writer
  of a connection, dial tasks it spawns, and the name it announces while pairing.
\<close>

datatype node_effect =
    Emit event
  | SendTo u64 outgoing
  | SpawnDial device_id
  | Announce "rstr option"

text \<open>\<open>nd_reading\<close> holds the sessions whose read loop is still running.\<close>

record node =
  nd_device :: device_id
  nd_name :: rstr
  nd_redial :: nat
  nd_discovery :: bool
  nd_peers :: peer_store
  nd_conns :: "(device_id \<times> conn) list"
  nd_reading :: "(device_id \<times> u64) list"
  nd_dialing :: "device_id list"
  nd_backoff :: "(device_id \<times> backoff) list"
  nd_pairing :: "pairing_session option"
  nd_next_conn :: u64
  nd_started :: nat
  nd_offline :: "(device_id \<times> nat) list"

text \<open>The libraries, and what one step finds: clock, wall clock, file system, random bytes.\<close>

record node_lib =
  nl_uuid_fmt :: "128 word \<Rightarrow> rstr"
  nl_postcard :: "message \<Rightarrow> byte list lan_result"
  nl_postcard_from :: "byte list \<Rightarrow> message option"
  nl_png_read :: "byte list \<Rightarrow> (u32 \<times> u32 \<times> byte list) option"

record node_env =
  ne_now :: nat
  ne_wall :: u64
  ne_io :: "lan_error option"
  ne_random :: "byte list lan_result"

section \<open>Connections\<close>

definition peer_statuses :: "node \<Rightarrow> peer_status list" where
  "peer_statuses nd =
     map (\<lambda>p. \<lparr>pst_id = p_id p, pst_name = p_name p,
               pst_online = map_of (nd_conns nd) (p_id p) \<noteq> None\<rparr>) (ps_peers (nd_peers nd))"

definition is_connected :: "device_id \<Rightarrow> node \<Rightarrow> bool" where
  "is_connected d nd \<longleftrightarrow> map_of (nd_conns nd) d \<noteq> None"

definition send_to_all :: "byte list \<Rightarrow> node \<Rightarrow> node_effect list" where
  "send_to_all bytes nd = map (\<lambda>(_, c). SendTo (cn_id c) (OutMessage bytes)) (nd_conns nd)"

definition register :: "device_id \<Rightarrow> conn \<Rightarrow> node \<Rightarrow> bool \<times> node \<times> node_effect list" where
  "register d c nd =
     (let preferred = min (nd_device nd) d;
          nd' = nd\<lparr>nd_conns := AList.update d c (nd_conns nd),
                   nd_offline := AList.delete d (nd_offline nd)\<rparr>
      in if get (nd_peers nd) d = None then (False, nd, [])
         else case map_of (nd_conns nd) d of
                None \<Rightarrow> (True, nd', [])
              | Some existing \<Rightarrow>
                  if cn_initiator existing = preferred \<or> cn_initiator c \<noteq> preferred
                  then (False, nd, [])
                  else (True, nd', [SendTo (cn_id existing) OutClose]))"

definition unregister :: "device_id \<Rightarrow> u64 \<Rightarrow> nat \<Rightarrow> node \<Rightarrow> node" where
  "unregister d cid now nd =
     (case map_of (nd_conns nd) d of
        Some c \<Rightarrow>
          if cn_id c = cid
          then nd\<lparr>nd_conns := AList.delete d (nd_conns nd),
                  nd_offline := AList.update d now (nd_offline nd)\<rparr>
          else nd
      | None \<Rightarrow> nd)"

definition should_dial :: "nat \<Rightarrow> device_id \<Rightarrow> node \<Rightarrow> bool" where
  "should_dial now d nd \<longleftrightarrow>
     nd_device nd < d
     \<or> (let since = (case map_of (nd_offline nd) d of Some t \<Rightarrow> t | None \<Rightarrow> nd_started nd)
        in nd_redial nd * fallback_dial_intervals \<le> now - since)"

text \<open>The app's question before it opens a relay tunnel.\<close>

definition should_connect :: "nat \<Rightarrow> device_id \<Rightarrow> node \<Rightarrow> bool" where
  "should_connect now d nd \<longleftrightarrow>
     get (nd_peers nd) d \<noteq> None \<and> \<not> is_connected d nd \<and> should_dial now d nd"

definition addresses_of :: "socket_addr list \<Rightarrow> peer \<Rightarrow> socket_addr list" where
  "addresses_of discovered p =
     (case p_addr p of
        Some a \<Rightarrow> if a \<in> set discovered then discovered else discovered @ [a]
      | None \<Rightarrow> discovered)"

definition trigger_dial :: "device_id \<Rightarrow> node \<Rightarrow> node \<times> node_effect list" where
  "trigger_dial d nd = (nd\<lparr>nd_backoff := AList.delete d (nd_backoff nd)\<rparr>, [SpawnDial d])"

definition on_discovered :: "device_id \<Rightarrow> node \<Rightarrow> node \<times> node_effect list" where
  "on_discovered d nd =
     (if get (nd_peers nd) d \<noteq> None \<and> \<not> is_connected d nd then trigger_dial d nd else (nd, []))"

section \<open>Dialing\<close>

text \<open>A dial task up to its connection attempt, and after it; an unknown peer fails at once.\<close>

definition dial_end :: "device_id \<Rightarrow> bool \<Rightarrow> nat \<Rightarrow> node \<Rightarrow> node" where
  "dial_end d connected now nd =
     (let nd = nd\<lparr>nd_dialing := removeAll d (nd_dialing nd)\<rparr>
      in if connected then nd\<lparr>nd_backoff := AList.delete d (nd_backoff nd)\<rparr>
         else let b = (case map_of (nd_backoff nd) d of
                         Some b \<Rightarrow> b
                       | None \<Rightarrow> \<lparr>bo_next_attempt = now, bo_delay = secs 1\<rparr>)
              in nd\<lparr>nd_backoff := AList.update d
                      \<lparr>bo_next_attempt = now + bo_delay b, bo_delay = min (bo_delay b * 2) max_backoff\<rparr>
                      (nd_backoff nd)\<rparr>)"

definition dial_start :: "device_id \<Rightarrow> nat \<Rightarrow> node \<Rightarrow> peer option \<times> node" where
  "dial_start d now nd =
     (if is_connected d nd \<or> \<not> should_dial now d nd \<or> d \<in> set (nd_dialing nd) then (None, nd)
      else let nd = nd\<lparr>nd_dialing := d # nd_dialing nd\<rparr>
           in case get (nd_peers nd) d of
                Some p \<Rightarrow> (Some p, nd)
              | None \<Rightarrow> (None, dial_end d False now nd))"

text \<open>The devices one tick of the dial loop starts to dial.\<close>

definition dial_due :: "nat \<Rightarrow> node \<Rightarrow> device_id list" where
  "dial_due now nd =
     filter (\<lambda>d. \<not> is_connected d nd)
       (filter (\<lambda>d. case map_of (nd_backoff nd) d of None \<Rightarrow> True | Some b \<Rightarrow> bo_next_attempt b \<le> now)
         (map p_id (ps_peers (nd_peers nd))))"

section \<open>The group\<close>

definition roster_message :: "node_lib \<Rightarrow> node \<Rightarrow> byte list option" where
  "roster_message lib nd =
     (case message_encode (nl_postcard lib) (RosterMsg (roster_of (nd_peers nd))) of
        Inr bytes \<Rightarrow> Some bytes
      | Inl _ \<Rightarrow> None)"

definition send_roster_to_all :: "node_lib \<Rightarrow> node \<Rightarrow> node_effect list" where
  "send_roster_to_all lib nd =
     (case roster_message lib nd of Some bytes \<Rightarrow> send_to_all bytes nd | None \<Rightarrow> [])"

definition send_roster_to :: "node_lib \<Rightarrow> device_id \<Rightarrow> node \<Rightarrow> node_effect list" where
  "send_roster_to lib d nd =
     (case (roster_message lib nd, map_of (nd_conns nd) d) of
        (Some bytes, Some c) \<Rightarrow> [SendTo (cn_id c) (OutMessage bytes)]
      | _ \<Rightarrow> [])"

definition disconnect_removed :: "node_lib \<Rightarrow> device_id \<Rightarrow> node \<Rightarrow> node \<times> node_effect list" where
  "disconnect_removed lib d nd =
     (nd\<lparr>nd_conns := AList.delete d (nd_conns nd), nd_backoff := AList.delete d (nd_backoff nd)\<rparr>,
      case (map_of (nd_conns nd) d, message_encode (nl_postcard lib) (Bye Unpaired)) of
        (Some c, Inr bye) \<Rightarrow> [SendTo (cn_id c) (OutLast bye)]
      | _ \<Rightarrow> [])"

definition remove_peer ::
  "node_lib \<Rightarrow> node_env \<Rightarrow> device_id \<Rightarrow> node \<Rightarrow> unit lan_result \<times> node \<times> node_effect list" where
  "remove_peer lib env d nd =
     (let (nd, bye) = disconnect_removed lib d nd;
          (r, peers) = remove (nl_uuid_fmt lib) (ne_io env) d (ne_wall env) (nd_peers nd);
          nd = nd\<lparr>nd_peers := peers\<rparr>
      in case r of
           Inl e \<Rightarrow> (Err e, nd, bye)
         | Inr _ \<Rightarrow> (Ok (), nd, bye @ send_roster_to_all lib nd @ [Emit PeersChanged]))"

text \<open>The loops of \<open>apply_roster\<close> over the devices that were removed and added.\<close>

fun drop_removed :: "node_lib \<Rightarrow> device_id list \<Rightarrow> node \<Rightarrow> node \<times> node_effect list" where
  "drop_removed lib [] nd = (nd, [])"
| "drop_removed lib (d # ds) nd =
     (let (nd, eff) = disconnect_removed lib d nd; (nd, more) = drop_removed lib ds nd
      in (nd, eff @ more))"

fun redial_added :: "device_id list \<Rightarrow> node \<Rightarrow> node \<times> node_effect list" where
  "redial_added [] nd = (nd, [])"
| "redial_added (d # ds) nd =
     (let close = (case map_of (nd_conns nd) d of Some c \<Rightarrow> [SendTo (cn_id c) OutClose] | None \<Rightarrow> []);
          nd = nd\<lparr>nd_conns := AList.delete d (nd_conns nd)\<rparr>;
          (nd, dial) = trigger_dial d nd;
          (nd, more) = redial_added ds nd
      in (nd, close @ dial @ more))"

definition apply_roster ::
  "node_lib \<Rightarrow> node_env \<Rightarrow> device_id \<Rightarrow> roster \<Rightarrow> node \<Rightarrow> node \<times> node_effect list" where
  "apply_roster lib env from ro nd =
     (let (r, peers) = merge (nl_uuid_fmt lib) (ne_io env) (nd_device nd) from ro (nd_peers nd);
          nd = nd\<lparr>nd_peers := peers\<rparr>
      in case r of
           Inl _ \<Rightarrow> (nd, [])
         | Inr change \<Rightarrow>
             if change_is_empty change then (nd, [])
             else let (nd, byes) = drop_removed lib (rc_removed change) nd;
                      (nd, dials) = redial_added (rc_added change) nd
                  in (nd, byes @ dials @ send_roster_to_all lib nd @ [Emit PeersChanged]))"

definition leave_group ::
  "node_lib \<Rightarrow> node_env \<Rightarrow> device_id \<Rightarrow> node \<Rightarrow> node \<times> node_effect list" where
  "leave_group lib env from nd =
     (case get (nd_peers nd) from of
        None \<Rightarrow> (nd, [])
      | Some p \<Rightarrow>
          (nd\<lparr>nd_peers := snd (clear (nl_uuid_fmt lib) (ne_io env) (nd_peers nd)),
              nd_conns := [], nd_backoff := []\<rparr>,
           map (\<lambda>(_, c). SendTo (cn_id c) OutClose) (nd_conns nd) @ [Emit (RemovedBy from (p_name p))]))"

section \<open>Pairing\<close>

definition announce :: "rstr option \<Rightarrow> node \<Rightarrow> node_effect list" where
  "announce name nd = (if nd_discovery nd then [Announce name] else [])"

definition start_pairing ::
  "node_env \<Rightarrow> node \<Rightarrow> pairing_code lan_result \<times> node \<times> node_effect list" where
  "start_pairing env nd =
     (case code_generate (ne_random env) of
        Inl e \<Rightarrow> (Err e, nd, [])
      | Inr code \<Rightarrow>
          (Ok code,
           nd\<lparr>nd_pairing := Some \<lparr>pg_code = code, pg_expires = ne_now env + code_lifetime, pg_failures = 0\<rparr>\<rparr>,
           announce (Some (nd_name nd)) nd))"

definition end_pairing :: "node \<Rightarrow> node \<times> node_effect list" where
  "end_pairing nd = (nd\<lparr>nd_pairing := None\<rparr>, announce None nd)"

definition store_peer ::
  "node_lib \<Rightarrow> node_env \<Rightarrow> device_id \<Rightarrow> hello \<Rightarrow> byte list \<Rightarrow> socket_addr option \<Rightarrow> node
   \<Rightarrow> unit lan_result \<times> node" where
  "store_peer lib env d h key address nd =
     (let p = \<lparr>p_id = d, p_name = h_name h, p_key = key, p_paired = ne_wall env,
               p_addr = map_option (\<lambda>a. with_port a (h_listen_port h)) address\<rparr>;
          (r, peers) = upsert (nl_uuid_fmt lib) (ne_io env) p (nd_peers nd)
      in (r, nd\<lparr>nd_peers := peers\<rparr>))"

text \<open>
  \<open>exchange code\<close> is the outcome of the pairing exchange with that code, a timeout included; it ends
  at the instant \<open>later\<close>.
\<close>

definition accept_pairing ::
  "node_lib \<Rightarrow> node_env \<Rightarrow> nat \<Rightarrow> device_id \<Rightarrow> socket_addr option
   \<Rightarrow> (pairing_code \<Rightarrow> (hello \<times> byte list) lan_result) \<Rightarrow> node
   \<Rightarrow> unit lan_result \<times> node \<times> node_effect list" where
  "accept_pairing lib env later joiner address exchange nd =
     (case nd_pairing nd of
        None \<Rightarrow> (Err NotPairing, nd, [])
      | Some active \<Rightarrow>
          if pg_expires active < ne_now env
          then (let (nd, eff) = end_pairing nd
                in (Err CodeExpired, nd, eff @ [Emit (PairingCodeChanged None)]))
          else
            (case exchange (pg_code active) of
               Inr (h, key) \<Rightarrow>
                 (let (nd, eff) = end_pairing nd;
                      (r, nd) = store_peer lib env joiner h key address nd
                  in case r of
                       Inl e \<Rightarrow> (Err e, nd, eff)
                     | Inr _ \<Rightarrow>
                         (let roster = send_roster_to_all lib nd;
                              (nd, dial) = trigger_dial joiner nd
                          in (Ok (), nd,
                              eff @ roster @ [Emit (Paired joiner (h_name h)), Emit PeersChanged] @ dial)))
             | Inl e \<Rightarrow>
                 (let active = active\<lparr>pg_failures := pg_failures active + 1\<rparr>;
                      nd = nd\<lparr>nd_pairing := Some active\<rparr>
                  in if max_pairing_failures \<le> pg_failures active
                     then case code_generate (ne_random env) of
                            Inl e' \<Rightarrow> (Err e', nd, [])
                          | Inr code \<Rightarrow>
                              (Err e,
                               nd\<lparr>nd_pairing := Some \<lparr>pg_code = code, pg_expires = later + code_lifetime,
                                                      pg_failures = 0\<rparr>\<rparr>,
                               [Emit (PairingCodeChanged (Some code))])
                     else (Err e, nd, []))))"

text \<open>
  \<open>listener\<close> is what was read of the other side's identifier (\<open>None\<close>: the connection closed first),
  \<open>exchange listener\<close> the outcome of the exchange with it.
\<close>

definition join_pairing_over ::
  "node_lib \<Rightarrow> node_env \<Rightarrow> socket_addr option \<Rightarrow> device_id option \<Rightarrow> unit lan_result \<Rightarrow> byte list option
   \<Rightarrow> (device_id \<Rightarrow> (hello \<times> byte list) lan_result) \<Rightarrow> node
   \<Rightarrow> peer_status lan_result \<times> node \<times> node_effect list" where
  "join_pairing_over lib env address expected preamble_sent listener_id exchange nd =
     (case preamble_sent of
        Inl e \<Rightarrow> (Err e, nd, [])
      | Inr _ \<Rightarrow>
        (case listener_id of
           None \<Rightarrow> (Err NotPairing, nd, [])
         | Some bytes \<Rightarrow>
             (let listener = device_id_from_bytes bytes
              in if expected \<noteq> None \<and> expected \<noteq> Some listener then (Err UnknownPeer, nd, [])
                 else
                   (case exchange listener of
                      Inl e \<Rightarrow> (Err e, nd, [])
                    | Inr (h, key) \<Rightarrow>
                        (let (r, nd) = store_peer lib env listener h key address nd
                         in case r of
                              Inl e \<Rightarrow> (Err e, nd, [])
                            | Inr _ \<Rightarrow>
                                (let roster = send_roster_to_all lib nd;
                                     (nd, dial) = trigger_dial listener nd
                                 in (Ok \<lparr>pst_id = listener, pst_name = h_name h, pst_online = False\<rparr>, nd,
                                     roster @ [Emit PeersChanged] @ dial)))))))"

section \<open>Sessions\<close>

definition start_session ::
  "node_lib \<Rightarrow> node_env \<Rightarrow> device_id \<Rightarrow> device_id \<Rightarrow> hello \<Rightarrow> socket_addr option \<Rightarrow> node
   \<Rightarrow> node \<times> node_effect list" where
  "start_session lib env d initiator h address nd =
     (let skew = (if h_time_ms h \<le> ne_wall env then ne_wall env - h_time_ms h
                  else h_time_ms h - ne_wall env);
          warn = (if clock_skew_warning_ms < skew then [Emit (ClockSkew d skew)] else []);
          nd = nd\<lparr>nd_peers := snd (seen (nl_uuid_fmt lib) (ne_io env) d (h_name h) address (nd_peers nd))\<rparr>;
          cid = nd_next_conn nd;
          nd = nd\<lparr>nd_next_conn := cid + 1\<rparr>;
          (ok, nd, close) = register d \<lparr>cn_id = cid, cn_initiator = initiator\<rparr> nd
      in if \<not> ok then (nd, warn)
         else (nd\<lparr>nd_reading := (d, cid) # nd_reading nd\<rparr>,
               warn @ close @ send_roster_to lib d nd @ [Emit PeersChanged]))"

text \<open>The dialing side once the handshake and the hellos went through with outcome \<open>shaken\<close>.\<close>

definition connect_over ::
  "node_lib \<Rightarrow> node_env \<Rightarrow> peer \<Rightarrow> (byte list \<Rightarrow> hello lan_result) \<Rightarrow> socket_addr option \<Rightarrow> node
   \<Rightarrow> unit lan_result \<times> node \<times> node_effect list" where
  "connect_over lib env p shaken address nd =
     (case shaken (p_key p) of
        Inl e \<Rightarrow> (Err e, nd, [])
      | Inr h \<Rightarrow>
          (let (nd, eff) = start_session lib env (p_id p) (nd_device nd) h
                             (map_option (\<lambda>a. with_port a (h_listen_port h)) address) nd
           in (Ok (), nd, eff)))"

definition session_peer :: "device_id \<Rightarrow> node \<Rightarrow> (peer \<times> bool) lan_result" where
  "session_peer d nd =
     (case (get (nd_peers nd) d, get_removed (nd_peers nd) d) of
        (Some p, _) \<Rightarrow> Ok (p, False)
      | (None, Some p) \<Rightarrow> Ok (p, True)
      | (None, None) \<Rightarrow> Err UnknownPeer)"

text \<open>The accepting side; \<open>bye_sent\<close> is the outcome of telling a removed device.\<close>

definition accept_session ::
  "node_lib \<Rightarrow> node_env \<Rightarrow> device_id \<Rightarrow> socket_addr option \<Rightarrow> (byte list \<Rightarrow> hello lan_result)
   \<Rightarrow> unit lan_result \<Rightarrow> node \<Rightarrow> unit lan_result \<times> node \<times> node_effect list" where
  "accept_session lib env initiator address shaken bye_sent nd =
     (case session_peer initiator nd of
        Inl e \<Rightarrow> (Err e, nd, [])
      | Inr (p, was_removed) \<Rightarrow>
          (case shaken (p_key p) of
             Inl e \<Rightarrow> (Err e, nd, [])
           | Inr h \<Rightarrow>
               if was_removed
               then
                 (case bind_ok (message_encode (nl_postcard lib) (Bye Unpaired)) (\<lambda>_. bye_sent) of
                    Inl e \<Rightarrow> (Err e, nd, [])
                  | Inr _ \<Rightarrow>
                      (let (r, peers) = mark_notified (nl_uuid_fmt lib) (ne_io env) initiator (nd_peers nd)
                       in (r, nd\<lparr>nd_peers := peers\<rparr>, [])))
               else
                 (let (nd, eff) = start_session lib env initiator initiator h
                                    (map_option (\<lambda>a. with_port a (h_listen_port h)) address) nd
                  in (Ok (), nd, eff))))"

text \<open>The end of a read loop.\<close>

definition session_ended :: "device_id \<Rightarrow> u64 \<Rightarrow> nat \<Rightarrow> node \<Rightarrow> node \<times> node_effect list" where
  "session_ended d cid now nd =
     (unregister d cid now (nd\<lparr>nd_reading := removeAll (d, cid) (nd_reading nd)\<rparr>), [Emit PeersChanged])"

text \<open>One message received by the read loop of a session, which must still be running.\<close>

definition on_message ::
  "node_lib \<Rightarrow> node_env \<Rightarrow> device_id \<Rightarrow> u64 \<Rightarrow> byte list \<Rightarrow> node \<Rightarrow> node \<times> node_effect list" where
  "on_message lib env d cid bytes nd =
     (if (d, cid) \<notin> set (nd_reading nd) then (nd, [])
      else
        case message_decode (nl_postcard_from lib) bytes of
          Inl _ \<Rightarrow> (nd, [])
        | Inr m \<Rightarrow>
            (case m of
               Item w \<Rightarrow>
                 (case into_item (nl_png_read lib) w of
                    Inr item \<Rightarrow> (nd, [Emit (ItemReceived item d)])
                  | Inl _ \<Rightarrow> (nd, []))
             | Bye Unpaired \<Rightarrow>
                 (let (nd, eff) = leave_group lib env d nd; (nd, ended) = session_ended d cid (ne_now env) nd
                  in (nd, eff @ ended))
             | RosterMsg ro \<Rightarrow> apply_roster lib env d ro nd
             | Ping \<Rightarrow> (nd, [])
             | Hello _ \<Rightarrow> (nd, [])))"

text \<open>
  The writer of a connection: what it is told (\<open>None\<close>: its channel closed), the ticks of its ping
  timer, and which sends fail. The result is what went out before it shut down the connection.
\<close>

datatype write_input = WriteNext "outgoing option" | WriteTick

fun write_loop :: "byte list \<Rightarrow> (write_input \<times> bool) list \<Rightarrow> byte list list" where
  "write_loop ping [] = []"
| "write_loop ping ((WriteNext (Some (OutMessage bytes)), ok) # ins) =
     (if ok then bytes # write_loop ping ins else [])"
| "write_loop ping ((WriteNext (Some (OutLast bytes)), ok) # ins) = (if ok then [bytes] else [])"
| "write_loop ping ((WriteNext (Some OutClose), ok) # ins) = []"
| "write_loop ping ((WriteNext None, ok) # ins) = []"
| "write_loop ping ((WriteTick, ok) # ins) = (if ok then ping # write_loop ping ins else [])"

section \<open>Runs of a node\<close>

datatype node_event =
    NStartPairing
  | NEndPairing
  | NAcceptPairing nat device_id "socket_addr option" "pairing_code \<Rightarrow> (hello \<times> byte list) lan_result"
  | NJoinPairing "socket_addr option" "device_id option" "unit lan_result" "byte list option"
      "device_id \<Rightarrow> (hello \<times> byte list) lan_result"
  | NRemovePeer device_id
  | NConnect device_id "byte list \<Rightarrow> hello lan_result" "socket_addr option"
  | NAccept device_id "socket_addr option" "byte list \<Rightarrow> hello lan_result" "unit lan_result"
  | NMessage device_id u64 "byte list"
  | NEnded device_id u64
  | NDialStart device_id
  | NDialEnd device_id bool
  | NDiscovered device_id

fun node_step :: "node_lib \<Rightarrow> node \<Rightarrow> node_event \<times> node_env \<Rightarrow> node \<times> node_effect list" where
  "node_step lib nd (NStartPairing, env) = snd (start_pairing env nd)"
| "node_step lib nd (NEndPairing, env) = end_pairing nd"
| "node_step lib nd (NAcceptPairing later d a x, env) = snd (accept_pairing lib env later d a x nd)"
| "node_step lib nd (NJoinPairing a ex sent l x, env) = snd (join_pairing_over lib env a ex sent l x nd)"
| "node_step lib nd (NRemovePeer d, env) = snd (remove_peer lib env d nd)"
| "node_step lib nd (NConnect d x a, env) =
     (case get (nd_peers nd) d of None \<Rightarrow> (nd, []) | Some p \<Rightarrow> snd (connect_over lib env p x a nd))"
| "node_step lib nd (NAccept d a x sent, env) = snd (accept_session lib env d a x sent nd)"
| "node_step lib nd (NMessage d cid bytes, env) = on_message lib env d cid bytes nd"
| "node_step lib nd (NEnded d cid, env) =
     (if (d, cid) \<in> set (nd_reading nd) then session_ended d cid (ne_now env) nd else (nd, []))"
| "node_step lib nd (NDialStart d, env) = (snd (dial_start d (ne_now env) nd), [])"
| "node_step lib nd (NDialEnd d ok, env) = (dial_end d ok (ne_now env) nd, [])"
| "node_step lib nd (NDiscovered d, env) = on_discovered d nd"

end
