(* ===== verification/Node_Correct.thy ===== *)
theory Node_Correct
  imports Node
begin

text \<open>
  What keeps the node of \<open>node.rs\<close> correct: sessions exist only with paired devices, two connections
  to one device resolve to the same one on both sides, dialing backs off, a pairing code allows a
  bounded number of guesses, and a device is trusted only after a pairing or on the word of a
  running session.
\<close>

declare AList.update_conv' [simp] AList.delete_conv' [simp]

section \<open>What the handlers do to the paired devices\<close>

lemma get_save [simp]: "get (snd (save fmt io st)) = get st"
  by (rule get_cong) simp

lemma get_seen: "get (snd (seen fmt io d name a st)) x = None \<longleftrightarrow> get st x = None"
proof (cases "x = d")
  case True
  then show ?thesis
    by (auto simp: seen_def Let_def get_upd_first_same split: option.split)
next
  case False
  then show ?thesis
    by (auto simp: seen_def Let_def get_upd_first_other split: option.split)
qed

lemma get_mark_notified [simp]: "get (snd (mark_notified fmt io d st)) = get st"
proof (rule get_cong)
  show "ps_peers (snd (mark_notified fmt io d st)) = ps_peers st"
    by (simp add: mark_notified_def)
qed

lemma get_upsert_io: "get (snd (upsert fmt io p st)) x = (if x = p_id p then Some p else get st x)"
  by (simp add: upsert_def get_upsert)

lemma get_remove_io:
  "store_inv st \<Longrightarrow> get (snd (remove fmt io d at st)) x = (if x = d then None else get st x)"
  by (auto simp: remove_def Let_def case_prod_beta get_remove split: option.split)

lemma get_clear [simp]: "get (snd (clear fmt io st)) x = None"
  by (simp add: clear_def get_def)

lemma store_inv_events:
  assumes "store_inv st"
  shows "store_inv (snd (upsert fmt io p st))" "store_inv (snd (seen fmt io d name a st))"
    "store_inv (snd (remove fmt io d at st))" "store_inv (snd (clear fmt io st))"
    "store_inv (snd (mark_notified fmt io d st))" "store_inv (snd (merge fmt io me sender ro st))"
  using store_inv_step [OF assms, of fmt "(Upsert p, io)"] store_inv_step [OF assms, of fmt "(Seen d name a, io)"]
    store_inv_step [OF assms, of fmt "(Remove d at, io)"] store_inv_step [OF assms, of fmt "(Clear, io)"]
    store_inv_step [OF assms, of fmt "(MarkNotified d, io)"]
    store_inv_step [OF assms, of fmt "(MergeRoster me sender ro, io)"]
  by simp_all

text \<open>A device that a merge removes is in the list of removed devices the merge returns.\<close>

definition accounts_for :: "peer_store \<Rightarrow> merge_state \<Rightarrow> bool" where
  "accounts_for st0 s \<longleftrightarrow>
     store_inv (fst s) \<and>
     (\<forall>d. get st0 d \<noteq> None \<longrightarrow> get (fst s) d \<noteq> None \<or> d \<in> set (rc_removed (fst (snd s))))"

lemma get_merge_peer: "get (fst s) d \<noteq> None \<Longrightarrow> get (fst (merge_peer s p)) d \<noteq> None"
proof (cases s)
  case (fields st change dirty)
  assume *: "get (fst s) d \<noteq> None"
  show ?thesis
  proof (cases "get st (p_id p)")
    case None
    with * fields show ?thesis
      by (auto simp: merge_peer_def Let_def get_def find_append split: option.split)
  next
    case (Some known)
    with * fields show ?thesis
      by (cases "d = p_id p")
        (auto simp: merge_peer_def Let_def get_upd_first_same get_upd_first_other)
  qed
qed

lemma rc_removed_merge_peer [simp]: "rc_removed (fst (snd (merge_peer s p))) = rc_removed (fst (snd s))"
  by (cases s) (simp add: merge_peer_def Let_def split: option.split)

lemma accounts_for_merge_peer: "accounts_for st0 s \<Longrightarrow> accounts_for st0 (merge_peer s p)"
  unfolding accounts_for_def using get_merge_peer [of s] by (auto simp: store_inv_merge_peer)

lemma accounts_for_merge_removed: "accounts_for st0 s \<Longrightarrow> accounts_for st0 (merge_removed s (p, at))"
proof (cases s)
  case (fields st change dirty)
  assume "accounts_for st0 s"
  with fields show ?thesis
    using store_inv_merge_removed [of s "(p, at)"]
    by (auto simp: accounts_for_def merge_removed_def Let_def get_drop_first split: option.splits if_splits)
qed

lemma accounts_for_merge:
  assumes "store_inv st"
  shows "accounts_for st (merge_mem me sender ro st)"
proof -
  have members: "accounts_for st0 s \<Longrightarrow> accounts_for st0 (foldl (merge_member me sender) s ms)" for st0 s ms
    by (induction ms arbitrary: s)
      (auto simp: merge_member_def accounts_for_merge_peer split: option.split)
  have removals: "accounts_for st0 s \<Longrightarrow> accounts_for st0 (foldl (merge_removal me sender) s rs)" for st0 s rs
    by (induction rs arbitrary: s)
      (auto simp: merge_removal_def accounts_for_merge_removed split: option.split)
  show ?thesis
    unfolding merge_mem_def
    by (intro removals members) (simp add: accounts_for_def assms)
qed

lemma merge_lost:
  assumes "store_inv st" and "get st d \<noteq> None" and "get (snd (merge fmt None me sender ro st)) d = None"
  shows "\<exists>change. fst (merge fmt None me sender ro st) = Ok change \<and> d \<in> set (rc_removed change)
    \<and> \<not> change_is_empty change"
proof -
  obtain st' change dirty where m: "merge_mem me sender ro st = (st', change, dirty)"
    by (cases "merge_mem me sender ro st")
  have "get (snd (merge fmt None me sender ro st)) = get st'"
    using m by (intro get_cong) simp
  with accounts_for_merge [OF assms(1), of me sender ro] assms(2,3) m
  have "d \<in> set (rc_removed change)"
    by (auto simp: accounts_for_def)
  moreover from this have "\<not> change_is_empty change"
    by (auto simp: change_is_empty_def)
  ultimately show ?thesis
    using m by (auto simp: merge_def save_def Let_def)
qed

lemma merge_saved: "\<exists>change. fst (merge fmt None me sender ro st) = Ok change"
  by (cases "merge_mem me sender ro st") (simp add: merge_def save_def Let_def)

section \<open>Invariant\<close>

definition node_inv :: "node \<Rightarrow> bool" where
  "node_inv nd \<longleftrightarrow>
     store_inv (nd_peers nd) \<and> distinct (map fst (nd_conns nd))
     \<and> (\<forall>d. is_connected d nd \<longrightarrow> get (nd_peers nd) d \<noteq> None)"

lemma distinct_conns [simp]:
  "distinct (map fst cs) \<Longrightarrow> distinct (map fst (AList.update d c cs))"
  "distinct (map fst cs) \<Longrightarrow> distinct (map fst (AList.delete d cs))"
  by (simp_all add: AList.distinct_update AList.delete_keys distinct_removeAll)

lemma node_inv_frame:
  "nd_peers nd' = nd_peers nd \<Longrightarrow> nd_conns nd' = nd_conns nd \<Longrightarrow> node_inv nd' = node_inv nd"
  by (simp add: node_inv_def is_connected_def)

lemma node_inv_peers:
  "node_inv nd \<Longrightarrow> store_inv ps \<Longrightarrow> (\<And>d. get (nd_peers nd) d \<noteq> None \<Longrightarrow> get ps d \<noteq> None) \<Longrightarrow>
   node_inv (nd\<lparr>nd_peers := ps\<rparr>)"
  by (simp add: node_inv_def is_connected_def)

lemma node_inv_drop:
  "node_inv nd \<Longrightarrow> node_inv (nd\<lparr>nd_conns := AList.delete d (nd_conns nd)\<rparr>)"
  by (simp add: node_inv_def is_connected_def)

lemma nd_peers_register [simp]: "nd_peers (fst (snd (register d c nd))) = nd_peers nd"
  by (simp add: register_def Let_def split: option.split)

lemma register_conns:
  "fst (register d c nd) \<and> get (nd_peers nd) d \<noteq> None
     \<and> nd_conns (fst (snd (register d c nd))) = AList.update d c (nd_conns nd)
   \<or> \<not> fst (register d c nd) \<and> fst (snd (register d c nd)) = nd"
  by (simp add: register_def Let_def split: option.split)

lemma node_inv_register:
  assumes "node_inv nd"
  shows "node_inv (fst (snd (register d c nd)))"
  using register_conns [of d c nd]
proof
  assume *: "fst (register d c nd) \<and> get (nd_peers nd) d \<noteq> None
     \<and> nd_conns (fst (snd (register d c nd))) = AList.update d c (nd_conns nd)"
  then have "is_connected x (fst (snd (register d c nd))) \<longleftrightarrow> x = d \<or> is_connected x nd" for x
    by (simp add: is_connected_def del: map_of_eq_Some_iff)
  with * assms show ?thesis by (auto simp: node_inv_def)
qed (use assms in simp)

lemma drop_removed_conns:
  "nd_conns (fst (drop_removed lib ds nd)) = foldl (\<lambda>cs d. AList.delete d cs) (nd_conns nd) ds
   \<and> nd_peers (fst (drop_removed lib ds nd)) = nd_peers nd"
  by (induction ds arbitrary: nd) (simp_all add: disconnect_removed_def Let_def case_prod_beta)

lemma map_of_deletes:
  "map_of (foldl (\<lambda>cs d. AList.delete d cs) cs ds) x = (if x \<in> set ds then None else map_of cs x)"
  by (induction ds arbitrary: cs) auto

lemma distinct_deletes:
  "distinct (map fst cs) \<Longrightarrow> distinct (map fst (foldl (\<lambda>cs d. AList.delete d cs) cs ds))"
  by (induction ds arbitrary: cs) simp_all

lemma redial_added_conns:
  "nd_conns (fst (redial_added ds nd)) = foldl (\<lambda>cs d. AList.delete d cs) (nd_conns nd) ds
   \<and> nd_peers (fst (redial_added ds nd)) = nd_peers nd"
  by (induction ds arbitrary: nd) (simp_all add: trigger_dial_def Let_def case_prod_beta)

lemma node_inv_apply_roster:
  assumes inv: "node_inv nd" and io: "ne_io env = None"
  shows "node_inv (fst (apply_roster lib env from ro nd))"
proof -
  let ?m = "merge (nl_uuid_fmt lib) None (nd_device nd) from ro (nd_peers nd)"
  have store: "store_inv (nd_peers nd)" using inv by (simp add: node_inv_def)
  have store': "store_inv (snd ?m)" using store by (rule store_inv_events)
  obtain change where change: "fst ?m = Ok change"
    using merge_saved by blast
  then obtain peers where m: "?m = (Ok change, peers)" by (cases ?m) simp
  have lost: "get (nd_peers nd) d \<noteq> None \<Longrightarrow> get peers d = None \<Longrightarrow>
      d \<in> set (rc_removed change) \<and> \<not> change_is_empty change" for d
    using merge_lost [OF store, of d "nl_uuid_fmt lib" "nd_device nd" "from" ro] by (simp add: m)
  show ?thesis
  proof (cases "change_is_empty change")
    case True
    with lost inv store' m io show ?thesis
      by (auto simp: apply_roster_def Let_def intro!: node_inv_peers)
  next
    case False
    let ?nd = "nd\<lparr>nd_peers := peers\<rparr>"
    let ?nd1 = "fst (drop_removed lib (rc_removed change) ?nd)"
    let ?nd2 = "fst (redial_added (rc_added change) ?nd1)"
    have result: "fst (apply_roster lib env from ro nd) = ?nd2"
      using m io False by (simp add: apply_roster_def Let_def case_prod_beta)
    have conns: "map_of (nd_conns ?nd2) d = (if d \<in> set (rc_removed change) \<union> set (rc_added change) then None
        else map_of (nd_conns nd) d)" for d
      using redial_added_conns [of "rc_added change" ?nd1] drop_removed_conns [of lib "rc_removed change" ?nd]
      by (simp add: map_of_deletes)
    have peers: "nd_peers ?nd2 = peers"
      using redial_added_conns [of "rc_added change" ?nd1] drop_removed_conns [of lib "rc_removed change" ?nd]
      by simp
    have "distinct (map fst (nd_conns ?nd2))"
      using redial_added_conns [of "rc_added change" ?nd1] drop_removed_conns [of lib "rc_removed change" ?nd] inv
      by (simp add: node_inv_def distinct_deletes)
    moreover have "get peers d \<noteq> None" if "is_connected d ?nd2" for d
    proof -
      have "is_connected d nd" "d \<notin> set (rc_removed change)"
        using that by (auto simp: is_connected_def conns simp del: map_of_eq_Some_iff split: if_splits)
      then show ?thesis using lost [of d] inv unfolding node_inv_def by blast
    qed
    ultimately show ?thesis
      unfolding result using store' m by (simp add: node_inv_def peers)
  qed
qed

lemma node_inv_store_peer:
  "node_inv nd \<Longrightarrow> node_inv (snd (store_peer lib env d h key a nd))"
  unfolding store_peer_def Let_def case_prod_beta snd_conv
  by (rule node_inv_peers) (auto simp: store_inv_events get_upsert_io node_inv_def)

lemma node_inv_trigger [simp]: "node_inv (fst (trigger_dial d nd)) = node_inv nd"
  by (rule node_inv_frame) (simp_all add: trigger_dial_def)

lemma node_inv_end_pairing [simp]: "node_inv (fst (end_pairing nd)) = node_inv nd"
  by (rule node_inv_frame) (simp_all add: end_pairing_def)

lemma node_inv_pairing [simp]: "node_inv (nd\<lparr>nd_pairing := p\<rparr>) = node_inv nd"
  by (rule node_inv_frame) simp_all

lemma node_inv_accept_pairing:
  assumes "node_inv nd"
  shows "node_inv (fst (snd (accept_pairing lib env later d a x nd)))"
proof (cases "nd_pairing nd")
  case (Some active)
  show ?thesis
  proof (cases "x (pg_code active)")
    case (Inr hk)
    have "node_inv (snd (store_peer lib env d (fst hk) (snd hk) a (fst (end_pairing nd))))"
      using assms by (intro node_inv_store_peer) simp
    with Some Inr assms show ?thesis
      by (cases hk)
        (auto simp: accept_pairing_def Let_def case_prod_beta split: sum.splits)
  qed (use Some assms in \<open>auto simp: accept_pairing_def Let_def case_prod_beta split: sum.splits\<close>)
qed (use assms in \<open>simp add: accept_pairing_def\<close>)

lemma node_inv_join_pairing:
  assumes "node_inv nd"
  shows "node_inv (fst (snd (join_pairing_over lib env a ex sent l x nd)))"
  using assms node_inv_store_peer [OF assms]
  by (auto simp: join_pairing_over_def Let_def case_prod_beta split: sum.splits option.splits)

lemma node_inv_start_session:
  assumes "node_inv nd"
  shows "node_inv (fst (start_session lib env d i h a nd))"
proof -
  let ?nd = "nd\<lparr>nd_peers := snd (seen (nl_uuid_fmt lib) (ne_io env) d (h_name h) a (nd_peers nd)),
                nd_next_conn := nd_next_conn nd + 1\<rparr>"
  have "node_inv (nd\<lparr>nd_peers := snd (seen (nl_uuid_fmt lib) (ne_io env) d (h_name h) a (nd_peers nd))\<rparr>)"
    using assms
    by (intro node_inv_peers) (auto simp: get_seen node_inv_def intro: store_inv_events)
  then have "node_inv ?nd" by (subst node_inv_frame) auto
  then have "node_inv (fst (snd (register d c ?nd)))" for c
    by (rule node_inv_register)
  then have "node_inv (fst (snd (register d c ?nd))\<lparr>nd_reading := r\<rparr>)" for c r
    by (subst node_inv_frame) auto
  with \<open>\<And>c. node_inv (fst (snd (register d c ?nd)))\<close> show ?thesis
    by (simp add: start_session_def Let_def case_prod_beta)
qed

lemma node_inv_connect:
  "node_inv nd \<Longrightarrow> node_inv (fst (snd (connect_over lib env p x a nd)))"
  by (auto simp: connect_over_def Let_def case_prod_beta node_inv_start_session split: sum.split)

lemma node_inv_accept_session:
  assumes "node_inv nd"
  shows "node_inv (fst (snd (accept_session lib env d a x sent nd)))"
proof -
  have "node_inv (nd\<lparr>nd_peers := snd (mark_notified (nl_uuid_fmt lib) (ne_io env) d (nd_peers nd))\<rparr>)"
    using assms by (intro node_inv_peers) (auto simp: node_inv_def intro: store_inv_events)
  with assms show ?thesis
    by (auto simp: accept_session_def Let_def case_prod_beta node_inv_start_session
        split: sum.split)
qed

lemma node_inv_unregister: "node_inv nd \<Longrightarrow> node_inv (unregister d cid now nd)"
proof -
  assume inv: "node_inv nd"
  have "node_inv (nd\<lparr>nd_conns := AList.delete d (nd_conns nd),
      nd_offline := AList.update d now (nd_offline nd)\<rparr>)"
    using node_inv_drop [OF inv, of d] by (subst node_inv_frame) auto
  with inv show ?thesis by (simp add: unregister_def split: option.split)
qed

lemma node_inv_session_ended: "node_inv nd \<Longrightarrow> node_inv (fst (session_ended d cid now nd))"
  unfolding session_ended_def fst_conv
  by (intro node_inv_unregister) (simp add: node_inv_def is_connected_def)

lemma node_inv_leave_group: "node_inv nd \<Longrightarrow> node_inv (fst (leave_group lib env d nd))"
  by (auto simp: leave_group_def node_inv_def is_connected_def store_inv_events split: option.split)

lemma node_inv_on_message:
  assumes "node_inv nd" and "ne_io env = None"
  shows "node_inv (fst (on_message lib env d cid bytes nd))"
  using assms node_inv_session_ended [OF node_inv_leave_group [OF assms(1)]]
    node_inv_apply_roster [OF assms]
  by (auto simp: on_message_def Let_def case_prod_beta
      split: sum.split message.split bye_reason.split)

lemma node_inv_remove_peer:
  assumes "node_inv nd"
  shows "node_inv (fst (snd (remove_peer lib env d nd)))"
proof -
  let ?nd = "fst (disconnect_removed lib d nd)"
  have inv: "node_inv ?nd" "\<not> is_connected d ?nd"
    using node_inv_drop [OF assms, of d]
    by (auto simp: disconnect_removed_def node_inv_def is_connected_def)
  let ?peers = "snd (remove (nl_uuid_fmt lib) (ne_io env) d (ne_wall env) (nd_peers ?nd))"
  have "node_inv (?nd\<lparr>nd_peers := ?peers\<rparr>)"
  proof -
    have store: "store_inv (nd_peers ?nd)" using inv by (simp add: node_inv_def)
    have "get ?peers x \<noteq> None" if "is_connected x ?nd" for x
      using that inv get_remove_io [OF store, of "nl_uuid_fmt lib" "ne_io env" d "ne_wall env" x]
      unfolding node_inv_def by (cases "x = d") auto
    then show ?thesis
      using inv store_inv_events(3) [OF store] by (simp add: node_inv_def is_connected_def)
  qed
  then show ?thesis
    by (auto simp: remove_peer_def Let_def case_prod_beta split: sum.split)
qed

lemma node_inv_dial_end: "node_inv nd \<Longrightarrow> node_inv (dial_end d ok now nd)"
  by (subst node_inv_frame [of _ nd]) (auto simp: dial_end_def Let_def)

lemma node_inv_dial_start: "node_inv nd \<Longrightarrow> node_inv (snd (dial_start d now nd))"
proof -
  assume "node_inv nd"
  then have "node_inv (nd\<lparr>nd_dialing := ds\<rparr>)" for ds by (subst node_inv_frame [of _ nd]) auto
  with \<open>node_inv nd\<close> show ?thesis
    by (auto simp: dial_start_def Let_def node_inv_dial_end split: option.split)
qed

text \<open>Steps in which writing the peers file succeeds.\<close>

definition saved_step :: "node_lib \<Rightarrow> node \<Rightarrow> node_event \<times> node_env \<Rightarrow> node" where
  "saved_step lib nd e = fst (node_step lib nd (fst e, (snd e)\<lparr>ne_io := None\<rparr>))"

lemma node_inv_saved_step:
  assumes "node_inv nd"
  shows "node_inv (saved_step lib nd e)"
proof (cases e)
  case (Pair ev env)
  show ?thesis
  proof (cases ev)
    case NStartPairing
    with assms Pair show ?thesis
      by (auto simp: saved_step_def start_pairing_def split: sum.split)
  next
    case (NDiscovered d)
    with assms Pair show ?thesis by (simp add: saved_step_def on_discovered_def)
  qed (use assms Pair in \<open>auto simp: saved_step_def node_inv_accept_pairing node_inv_join_pairing
      node_inv_remove_peer node_inv_connect node_inv_accept_session node_inv_on_message
      node_inv_session_ended node_inv_dial_end node_inv_dial_start split: option.split\<close>)
qed

interpretation node: state_machine "saved_step lib" node_inv for lib
  by unfold_locales (rule node_inv_saved_step)

section \<open>Two connections to one device\<close>

fun register_all :: "device_id \<Rightarrow> conn list \<Rightarrow> node \<Rightarrow> node" where
  "register_all d [] nd = nd"
| "register_all d (c # cs) nd = register_all d cs (fst (snd (register d c nd)))"

lemma nd_device_register [simp]: "nd_device (fst (snd (register d c nd))) = nd_device nd"
  by (simp add: register_def Let_def split: option.split)

lemma register_all_kept:
  assumes "get (nd_peers nd) d \<noteq> None" and "map_of (nd_conns nd) d = Some k"
  shows "map_of (nd_conns (register_all d cs nd)) d =
    Some (if cn_initiator k = min (nd_device nd) d then k
          else case find (\<lambda>c. cn_initiator c = min (nd_device nd) d) cs of Some c \<Rightarrow> c | None \<Rightarrow> k)"
  using assms
proof (induction cs arbitrary: nd k)
  case (Cons c cs)
  show ?case
  proof (cases "cn_initiator k = min (nd_device nd) d \<or> cn_initiator c \<noteq> min (nd_device nd) d")
    case True
    then have "fst (snd (register d c nd)) = nd"
      using Cons.prems by (auto simp: register_def Let_def)
    with Cons.IH [OF Cons.prems] True show ?thesis by auto
  next
    case False
    then have "map_of (nd_conns (fst (snd (register d c nd)))) d = Some c"
      using Cons.prems by (auto simp: register_def Let_def update_conv')
    with Cons.IH [of "fst (snd (register d c nd))" c] Cons.prems False show ?thesis by auto
  qed
qed simp

section \<open>Dial backoff\<close>

definition next_dial_delay :: "nat \<Rightarrow> nat" where
  "next_dial_delay delay = min (delay * 2) max_backoff"

interpretation dial: doubling_delay "secs 1" max_backoff next_dial_delay
  by unfold_locales (simp_all add: secs_def max_backoff_def next_dial_delay_def)

lemma dial_failures:
  assumes "map_of (nd_backoff nd) d = None"
  shows "map_of (nd_backoff (foldl (\<lambda>nd t. dial_end d False t nd) nd (ts @ [t]))) d
    = Some \<lparr>bo_next_attempt = t + (next_dial_delay ^^ length ts) (secs 1),
            bo_delay = (next_dial_delay ^^ Suc (length ts)) (secs 1)\<rparr>"
proof (induction ts arbitrary: t rule: rev_induct)
  case Nil
  with assms show ?case by (simp add: dial_end_def Let_def next_dial_delay_def)
next
  case (snoc u ts)
  from snoc [of u] show ?case by (simp add: dial_end_def Let_def next_dial_delay_def)
qed

section \<open>Properties\<close>


definition example_lib :: node_lib where
  "example_lib = \<lparr>nl_uuid_fmt = \<lambda>_. [], nl_postcard = \<lambda>_. Ok [1],
     nl_postcard_from = \<lambda>bs. if bs = [1]
       then Some (RosterMsg \<lparr>ro_members = [to_roster (example_peer 3 1 5)], ro_removed = []\<rparr>) else None,
     nl_png_read = \<lambda>_. None\<rparr>"

definition example_node :: node where
  "example_node = \<lparr>nd_device = DeviceId 1, nd_name = [97], nd_redial = secs 5, nd_discovery = False,
     nd_peers = \<lparr>ps_peers = [example_peer 2 1 1], ps_removed = [], ps_file = None\<rparr>,
     nd_conns = [], nd_reading = [], nd_dialing = [], nd_backoff = [], nd_pairing = None,
     nd_next_conn = 1, nd_started = 0, nd_offline = []\<rparr>"

definition example_now :: node_env where
  "example_now = \<lparr>ne_now = 10, ne_wall = 10, ne_io = None, ne_random = Ok [0, 0, 0, 0, 1]\<rparr>"

definition example_hello :: hello where
  "example_hello = \<lparr>h_protocol = 1, h_device_id = device_id_to_bytes (DeviceId 2), h_name = [],
     h_listen_port = 4000, h_time_ms = 10\<rparr>"

lemmas example_defs = example_lib_def example_node_def example_now_def example_hello_def
  example_peer_def




text \<open>
  A device that cannot be reached is dialed less and less often: after the \<open>n\<close>-th failure in a
  row the dial loop leaves it alone for \<open>2 ^ (n - 1)\<close> seconds, at most 30.
\<close>

theorem dial_loop_backs_off:
  assumes "map_of (nd_backoff nd) d = None"
    and "now < t + min (2 ^ length ts * secs 1) max_backoff"
  shows "d \<notin> set (dial_due now (foldl (\<lambda>nd t. dial_end d False t nd) nd (ts @ [t])))"
  using assms(2) dial_failures [OF assms(1), of ts t, unfolded dial.delay_after_failures]
  by (simp add: dial_due_def del: foldl_append)

theorem dial_loop_backs_off_witness:
  "DeviceId 2 \<notin> set (dial_due (secs 11) (foldl (\<lambda>nd t. dial_end (DeviceId 2) False t nd) example_node
     ([secs 1, secs 2, secs 4] @ [secs 8])))"
  by (rule dial_loop_backs_off) (simp_all add: example_defs secs_def max_backoff_def)

section \<open>Where trust comes from\<close>

text \<open>
  The steps that may add \<open>d\<close>: a pairing that \<open>d\<close> completed with the code on the screen, a pairing
  this device completed with \<open>d\<close>, and a message of a running session that decodes to a roster.
\<close>

definition vouches :: "node_lib \<Rightarrow> node \<Rightarrow> node_event \<times> node_env \<Rightarrow> device_id \<Rightarrow> bool" where
  "vouches lib nd e d \<longleftrightarrow>
     (case e of
        (NAcceptPairing later joiner a x, env) \<Rightarrow>
          joiner = d
          \<and> (case nd_pairing nd of
               None \<Rightarrow> False
             | Some active \<Rightarrow> ne_now env \<le> pg_expires active \<and> \<not> isl (x (pg_code active)))
      | (NJoinPairing a ex sent listener_id x, env) \<Rightarrow>
          \<not> isl sent
          \<and> (case listener_id of
               None \<Rightarrow> False
             | Some bytes \<Rightarrow> device_id_from_bytes bytes = d \<and> (ex = None \<or> ex = Some d) \<and> \<not> isl (x d))
      | (NMessage sender cid bytes, env) \<Rightarrow>
          (sender, cid) \<in> set (nd_reading nd) \<and> sender \<noteq> d
          \<and> (case message_decode (nl_postcard_from lib) bytes of
               Inr (RosterMsg ro) \<Rightarrow>
                 d \<in> device_id_from_bytes ` rp_device_id ` set (take max_roster_entries (ro_members ro))
             | _ \<Rightarrow> False)
      | _ \<Rightarrow> False)"

lemma get_remove_first_new:
  "get (st\<lparr>ps_peers := remove_first P (ps_peers st)\<rparr>) d \<noteq> None \<Longrightarrow> get st d \<noteq> None"
  unfolding get_None using set_remove_first [of P "ps_peers st"] by auto

lemma get_merge_removed_new: "get (fst (merge_removed s pt)) d \<noteq> None \<Longrightarrow> get (fst s) d \<noteq> None"
proof (cases s)
  case (fields st change dirty)
  assume *: "get (fst (merge_removed s pt)) d \<noteq> None"
  obtain p at where pt: "pt = (p, at)" by (cases pt)
  show ?thesis
  proof (cases "get st (p_id p)")
    case None
    with * fields pt show ?thesis by (simp add: merge_removed_def Let_def split: if_splits)
  next
    case (Some known)
    with * fields pt get_remove_first_new show ?thesis
      by (simp add: merge_removed_def Let_def split: if_splits)
  qed
qed

lemma get_merge_peer_new:
  assumes "get (fst (merge_peer s p)) d \<noteq> None"
  shows "get (fst s) d \<noteq> None \<or> d = p_id p"
proof (cases s)
  case (fields st change dirty)
  show ?thesis
  proof (cases "get st (p_id p)")
    case None
    with assms fields show ?thesis
      by (auto simp: merge_peer_def Let_def get_def find_append split: option.splits if_splits)
  next
    case (Some known)
    with assms fields show ?thesis
      by (cases "d = p_id p") (auto simp: merge_peer_def Let_def get_upd_first_other split: if_splits)
  qed
qed

lemma from_roster_id: "from_roster rp = Some p \<Longrightarrow> p_id p = device_id_from_bytes (rp_device_id rp)"
  by (auto simp: from_roster_def split: if_splits)


lemma get_merge_new:
  assumes "get (snd (merge fmt io me sender ro st)) d \<noteq> None" and "get st d = None"
  shows "d \<noteq> sender \<and>
    d \<in> device_id_from_bytes ` rp_device_id ` set (take max_roster_entries (ro_members ro))"
proof -
  have members: "get (fst (foldl (merge_member me sender) s ms)) d \<noteq> None \<Longrightarrow>
      get (fst s) d \<noteq> None \<or> d \<noteq> sender \<and> d \<in> device_id_from_bytes ` rp_device_id ` set ms" for s ms
  proof (induction ms arbitrary: s)
    case (Cons m ms)
    from Cons.IH [of "merge_member me sender s m"] Cons.prems show ?case
      using get_merge_peer_new [of s _ d] from_roster_id [of m]
      by (auto simp: merge_member_def about_others_def split: option.splits if_splits)
  qed simp
  have removals: "get (fst (foldl (merge_removal me sender) s rs)) d \<noteq> None \<Longrightarrow> get (fst s) d \<noteq> None" for s rs
  proof (induction rs arbitrary: s)
    case (Cons r rs)
    from Cons.IH [of "merge_removal me sender s r"] Cons.prems show ?case
      using get_merge_removed_new [of s _ d]
      by (auto simp: merge_removal_def split: option.splits if_splits)
  qed simp
  have "get (fst (merge_mem me sender ro st)) d \<noteq> None"
    using assms(1) get_cong [of "snd (merge fmt io me sender ro st)" "fst (merge_mem me sender ro st)"]
    by simp
  from members [OF removals [OF this [unfolded merge_mem_def]]] assms(2) show ?thesis by simp
qed

lemma get_connect:
  "get (nd_peers (fst (start_session lib env d' i h a nd))) d = None \<longleftrightarrow> get (nd_peers nd) d = None"
  by (simp add: start_session_def Let_def case_prod_beta get_seen)

lemma trust_apply_roster:
  assumes "get (nd_peers (fst (apply_roster lib env sender ro nd))) d \<noteq> None" and "get (nd_peers nd) d = None"
  shows "d \<noteq> sender \<and> d \<in> device_id_from_bytes ` rp_device_id ` set (take max_roster_entries (ro_members ro))"
proof -
  have "nd_peers (fst (apply_roster lib env sender ro nd))
      = snd (merge (nl_uuid_fmt lib) (ne_io env) (nd_device nd) sender ro (nd_peers nd))"
    by (simp add: apply_roster_def Let_def case_prod_beta drop_removed_conns redial_added_conns split: sum.split)
  with assms get_merge_new show ?thesis by metis
qed

lemma trust_accept_pairing:
  assumes "get (nd_peers (fst (snd (accept_pairing lib env later joiner a x nd)))) d \<noteq> None"
    and "get (nd_peers nd) d = None"
  shows "\<exists>active. nd_pairing nd = Some active \<and> ne_now env \<le> pg_expires active \<and> \<not> isl (x (pg_code active))
    \<and> joiner = d"
  using assms
  by (auto simp: accept_pairing_def Let_def case_prod_beta end_pairing_def store_peer_def trigger_dial_def
      get_upsert_io split: option.splits if_splits sum.splits)

lemma trust_join_pairing:
  assumes "get (nd_peers (fst (snd (join_pairing_over lib env a ex sent l x nd)))) d \<noteq> None"
    and "get (nd_peers nd) d = None"
  shows "\<not> isl sent \<and> (\<exists>bytes. l = Some bytes \<and> device_id_from_bytes bytes = d)
    \<and> (ex = None \<or> ex = Some d) \<and> \<not> isl (x d)"
  using assms
  by (auto simp: join_pairing_over_def Let_def case_prod_beta store_peer_def trigger_dial_def
      get_upsert_io split: option.splits if_splits sum.splits)

lemma trust_frame [simp]:
  "nd_peers (fst (disconnect_removed lib d nd)) = nd_peers nd"
  "nd_peers (dial_end d ok now nd) = nd_peers nd"
  "nd_peers (snd (dial_start d now nd)) = nd_peers nd"
  "nd_peers (fst (session_ended d cid now nd)) = nd_peers nd"
  "nd_peers (fst (on_discovered d nd)) = nd_peers nd"
  "nd_peers (fst (end_pairing nd)) = nd_peers nd"
  "nd_peers (fst (snd (start_pairing env nd))) = nd_peers nd"
  by (simp_all add: disconnect_removed_def dial_end_def dial_start_def session_ended_def unregister_def
      on_discovered_def trigger_dial_def end_pairing_def start_pairing_def Let_def
      split: option.split sum.split)

lemma trust_remove:
  "get (nd_peers (fst (snd (remove_peer lib env d' nd)))) d \<noteq> None \<Longrightarrow> get (nd_peers nd) d \<noteq> None"
proof -
  have "get (snd (remove fmt io d' at st)) d \<noteq> None \<Longrightarrow> get st d \<noteq> None" for fmt io at st
    using get_remove_first_new
    by (simp add: remove_def remove_mem_def Let_def case_prod_beta split: option.splits)
  then show "get (nd_peers (fst (snd (remove_peer lib env d' nd)))) d \<noteq> None \<Longrightarrow> get (nd_peers nd) d \<noteq> None"
    by (simp add: remove_peer_def Let_def case_prod_beta split: sum.splits)
qed

lemma trust_sessions:
  "get (nd_peers (fst (snd (connect_over lib env p x a nd)))) d = None \<longleftrightarrow> get (nd_peers nd) d = None"
  "get (nd_peers (fst (snd (accept_session lib env i a x sent nd)))) d = None \<longleftrightarrow> get (nd_peers nd) d = None"
  by (simp_all add: connect_over_def accept_session_def Let_def case_prod_beta get_connect split: sum.split)

lemma trust_message:
  assumes "get (nd_peers (fst (on_message lib env sender cid bytes nd))) d \<noteq> None"
    and "get (nd_peers nd) d = None"
  shows "(sender, cid) \<in> set (nd_reading nd) \<and> (\<exists>ro. message_decode (nl_postcard_from lib) bytes = Ok (RosterMsg ro)
    \<and> d \<noteq> sender \<and> d \<in> device_id_from_bytes ` rp_device_id ` set (take max_roster_entries (ro_members ro)))"
  using assms trust_apply_roster [of lib env sender _ nd d]
  by (auto simp: on_message_def Let_def case_prod_beta leave_group_def
      split: sum.splits message.splits bye_reason.splits option.splits if_splits)



section \<open>Guessing a pairing code\<close>

text \<open>
  An attempt at pairing, up to the instant \<open>until\<close>, whose exchange fails with every code; the random
  source then gives the bytes of \<open>code\<close>.
\<close>

definition failed_guess :: "nat \<Rightarrow> pairing_code \<Rightarrow> node_event \<times> node_env \<Rightarrow> bool" where
  "failed_guess until code e \<longleftrightarrow>
     (case e of
        (NAcceptPairing later d a x, env) \<Rightarrow>
          (\<forall>c. isl (x c)) \<and> ne_now env \<le> until \<and> until \<le> later + code_lifetime
          \<and> code_generate (ne_random env) = Ok code
      | _ \<Rightarrow> False)"

lemma below_three:
  fixes w :: u32
  assumes "w < 3"
  shows "w = 0 \<or> w = 1 \<or> w = 2"
proof -
  have "unat w < 3" using assms by (simp add: word_less_nat_alt)
  then consider "unat w = unat (0 :: u32)" | "unat w = unat (1 :: u32)" | "unat w = unat (2 :: u32)"
    by force
  then show ?thesis by cases (simp_all only: word_unat_eq_iff simp_thms)
qed

lemma failed_guess_step:
  assumes "failed_guess until code e" and "nd_pairing nd = Some s" and "until \<le> pg_expires s"
    and "pg_failures s < 3"
  shows "\<exists>s'. nd_pairing (fst (node_step lib nd e)) = Some s' \<and> until \<le> pg_expires s'
    \<and> nd_peers (fst (node_step lib nd e)) = nd_peers nd
    \<and> (if pg_failures s = 2 then pg_code s' = code \<and> pg_failures s' = 0
       else pg_code s' = pg_code s \<and> pg_failures s' = pg_failures s + 1)"
proof -
  obtain later d a x env where e: "e = (NAcceptPairing later d a x, env)"
    and guess: "\<forall>c. isl (x c)" "ne_now env \<le> until" "until \<le> later + code_lifetime"
    "code_generate (ne_random env) = Ok code"
    using assms(1) by (cases e; cases "fst e") (auto simp: failed_guess_def)
  obtain err where err: "x (pg_code s) = Err err" using guess(1) by (metis isl_def)
  have "3 \<le> pg_failures s + 1 \<longleftrightarrow> pg_failures s = 2"
    using below_three [OF assms(4)] by (auto simp: word_le_nat_alt)
  with assms(2,3) guess err e show ?thesis
    by (simp add: accept_pairing_def Let_def max_pairing_failures_def)
qed

text \<open>After \<open>n\<close> failures in a row the session has \<open>n mod 3\<close> failures and the code after \<open>n div 3\<close> renewals.\<close>

definition guessed :: "(nat \<Rightarrow> pairing_code) \<Rightarrow> nat \<Rightarrow> nat \<Rightarrow> pairing_session \<Rightarrow> bool" where
  "guessed codes until n s \<longleftrightarrow>
     pg_code s = codes (n div 3) \<and> pg_failures s = of_nat (n mod 3) \<and> until \<le> pg_expires s"

lemma guessed_step:
  assumes "failed_guess until (codes (Suc (n div 3))) e" and "nd_pairing nd = Some s"
    and "guessed codes until n s"
  shows "\<exists>s'. nd_pairing (fst (node_step lib nd e)) = Some s' \<and> guessed codes until (Suc n) s'
    \<and> nd_peers (fst (node_step lib nd e)) = nd_peers nd"
proof -
  consider "n mod 3 = 0" | "n mod 3 = 1" | "n mod 3 = 2" by arith
  then show ?thesis
    using assms(3) failed_guess_step [OF assms(1,2)]
    by cases (auto simp: guessed_def mod_Suc div_Suc)
qed

lemma guessed_run:
  assumes "\<And>i. i < length es \<Longrightarrow> failed_guess until (codes (Suc (i div 3))) (es ! i)"
    and "nd_pairing nd = Some s" and "guessed codes until 0 s"
  shows "\<exists>s'. nd_pairing (foldl (\<lambda>nd e. fst (node_step lib nd e)) nd es) = Some s'
    \<and> guessed codes until (length es) s'
    \<and> nd_peers (foldl (\<lambda>nd e. fst (node_step lib nd e)) nd es) = nd_peers nd"
  using assms(1)
proof (induction es rule: rev_induct)
  case Nil
  with assms(2,3) show ?case by simp
next
  case (snoc e es)
  have "failed_guess until (codes (Suc (i div 3))) (es ! i)" if "i < length es" for i
    using snoc.prems [of i] that by (simp add: nth_append)
  from snoc.IH [OF this] obtain s' where s': "nd_pairing (foldl (\<lambda>nd e. fst (node_step lib nd e)) nd es) = Some s'"
      "guessed codes until (length es) s'"
      "nd_peers (foldl (\<lambda>nd e. fst (node_step lib nd e)) nd es) = nd_peers nd" by blast
  have "failed_guess until (codes (Suc (length es div 3))) e"
    using snoc.prems [of "length es"] by simp
  from guessed_step [OF this s'(1,2), of lib] s'(3) show ?case by simp
qed


definition example_code :: pairing_code where
  "example_code = (case code_generate (Ok [0, 0, 0, 0, 1]) of Inr c \<Rightarrow> c | Inl _ \<Rightarrow> PairingCode [])"

lemma example_code_generated: "code_generate (Ok [0, 0, 0, 0, 1]) = Ok example_code"
  by (simp add: example_code_def code_generate_def)

definition wrong_guess :: "node_event \<times> node_env" where
  "wrong_guess = (NAcceptPairing 5 (DeviceId 9) None (\<lambda>_. Err NotPairing), example_now)"

definition pairing_node :: node where
  "pairing_node = example_node\<lparr>nd_pairing := Some \<lparr>pg_code = PairingCode [48], pg_expires = 20, pg_failures = 0\<rparr>\<rparr>"


section \<open>Leaving and removing\<close>

text \<open>
  A device told by a paired device that it was unpaired leaves the whole group: it forgets every
  paired device and connection, closes every connection it had and tells the app who removed it, but
  remembers no removal, since the others were not removed from its own list.
\<close>

theorem unpaired_device_leaves_the_group:
  assumes "get (nd_peers nd) d = Some p"
  shows "ps_peers (nd_peers (fst (leave_group lib env d nd))) = []
    \<and> ps_removed (nd_peers (fst (leave_group lib env d nd))) = ps_removed (nd_peers nd)
    \<and> nd_conns (fst (leave_group lib env d nd)) = []
    \<and> snd (leave_group lib env d nd)
        = map (\<lambda>c. SendTo c OutClose) (map (cn_id \<circ> snd) (nd_conns nd)) @ [Emit (RemovedBy d (p_name p))]"
  using assms by (simp add: leave_group_def clear_def comp_def case_prod_beta)

theorem unpaired_device_leaves_the_group_witness:
  "ps_peers (nd_peers (fst (leave_group example_lib example_now (DeviceId 2) example_node))) = []"
  using unpaired_device_leaves_the_group [of example_node "DeviceId 2" "example_peer 2 1 1" example_lib example_now]
  by (simp add: get_def example_defs)

text \<open>
  C37: Removing a device does not end its session. The read loop of a removed device goes on until the
  device itself closes the connection, and until then the items it sends still reach the app: a
  removed device that ignores the goodbye keeps writing to this clipboard.
\<close>

theorem removed_device_still_reaches_the_app:
  assumes "(d, cid) \<in> set (nd_reading nd)" and "store_inv (nd_peers nd)"
    and "message_decode (nl_postcard_from lib) bytes = Ok (Item w)"
    and "into_item (nl_png_read lib) w = Ok item"
  shows "get (nd_peers (fst (snd (remove_peer lib env d nd)))) d = None
    \<and> on_message lib env' d cid bytes (fst (snd (remove_peer lib env d nd)))
      = (fst (snd (remove_peer lib env d nd)), [Emit (ItemReceived item d)])"
  using assms get_remove_io [OF assms(2), of "nl_uuid_fmt lib" "ne_io env" d "ne_wall env" d]
  by (auto simp: remove_peer_def disconnect_removed_def on_message_def Let_def case_prod_beta
      split: sum.split)

definition text_lib :: node_lib where
  "text_lib = example_lib\<lparr>nl_postcard_from := \<lambda>_. Some (Item \<lparr>w_id = [], w_origin = [], w_created_at_ms = 0,
     w_content_hash = [], w_content = WireText [104, 105]\<rparr>)\<rparr>"

theorem removed_device_still_reaches_the_app_witness:
  "\<exists>item. snd (on_message text_lib example_now (DeviceId 2) 1 [7]
      (fst (snd (remove_peer text_lib example_now (DeviceId 2) (example_node\<lparr>nd_reading := [(DeviceId 2, 1)]\<rparr>)))))
    = [Emit (ItemReceived item (DeviceId 2))]"
proof -
  let ?w = "\<lparr>w_id = [], w_origin = [], w_created_at_ms = 0, w_content_hash = [], w_content = WireText [104, 105]\<rparr>"
  obtain item where "into_item (nl_png_read text_lib) ?w = Ok item"
    by (simp add: into_item_def)
  moreover have "store_inv (nd_peers (example_node\<lparr>nd_reading := [(DeviceId 2, 1)]\<rparr>))"
    by (simp add: store_inv_def max_removed_def example_defs)
  moreover have "message_decode (nl_postcard_from text_lib) [7] = Ok (Item ?w)"
    by (simp add: message_decode_def text_lib_def)
  ultimately show ?thesis
    using removed_device_still_reaches_the_app [of "DeviceId 2" 1 "example_node\<lparr>nd_reading := [(DeviceId 2, 1)]\<rparr>"
        text_lib "[7]" ?w item example_now example_now] by simp
qed

text \<open>
  When the peers file cannot be written, a roster that removes a device removes it from the list
  in memory but leaves its connection open and sends no message: the connection to a device that is
  no longer paired remains, which never happens while the file can be written.
\<close>

theorem unsaved_removal_keeps_the_connection:
  "let removal = \<lparr>rr_peer = to_roster (example_peer 3 1 5), rr_removed_at_ms = 9\<rparr>;
       nd = example_node\<lparr>nd_peers := \<lparr>ps_peers = [example_peer 2 1 1, example_peer 3 1 5],
                                        ps_removed = [], ps_file = None\<rparr>,
                         nd_conns := [(DeviceId 3, \<lparr>cn_id = 1, cn_initiator = DeviceId 1\<rparr>)]\<rparr>;
       (nd', effects) = apply_roster example_lib (example_now\<lparr>ne_io := Some (LanIo ''disk full'')\<rparr>)
                          (DeviceId 2) \<lparr>ro_members = [], ro_removed = [removal]\<rparr> nd
   in get (nd_peers nd') (DeviceId 3) = None \<and> is_connected (DeviceId 3) nd' \<and> effects = []"
  by (simp add: apply_roster_def merge_def merge_mem_def max_roster_entries_def merge_removal_def
      from_to_roster merge_removed_def about_others_def get_def save_def change_is_empty_def
      roster_change_default_def remember_removal_def max_removed_def is_connected_def Let_def
      case_prod_beta key_len_def example_defs)

end
