(* ===== verification/Discovery.thy ===== *)
theory Discovery
  imports Addr Sync_Item Lan_Error "HOL-Library.AList"
begin

text \<open>
  \<open>crates/cled-lan/src/discovery.rs\<close>: what a device announces with mDNS and what it remembers of the
  announcements of others. The mDNS daemon is a source of service events; the addresses of the local
  network interfaces, which ranking uses, are an argument. The map of found devices is an
  association list with distinct keys (its order stands for the unspecified order of a hash map).
\<close>

section \<open>State\<close>

datatype ip_addr = Ip4 u32 | Ip6 "128 word"

record found =
  fd_device :: device_id
  fd_port :: u16
  fd_ips :: "(ip_addr \<times> u32) list"
  fd_pairing :: "rstr option"

type_synonym found_map = "(rstr \<times> found) list"

text \<open>A resolved service: the values of its TXT properties, its port and its scoped addresses.\<close>

record mdns_service =
  ms_fullname :: rstr
  ms_id :: "rstr option"
  ms_pair :: "rstr option"
  ms_name :: "rstr option"
  ms_port :: u16
  ms_addrs :: "(ip_addr \<times> u32) list"

datatype mdns_event = Resolved mdns_service | ServiceRemoved rstr | OtherService

record pairable_device =
  pd_device :: device_id
  pd_name :: rstr
  pd_address :: socket_addr

section \<open>Operations\<close>

definition found_addresses :: "(u32 \<times> u32) list \<Rightarrow> found \<Rightarrow> socket_addr list" where
  "found_addresses nets f =
     rank_with (map (\<lambda>(ip, scope). case ip of
                       Ip6 v6 \<Rightarrow> V6 v6 (fd_port f) 0 scope
                     | Ip4 v4 \<Rightarrow> V4 v4 (fd_port f)) (fd_ips f)) nets"

text \<open>The properties of the announcement; the name is part of it only while pairing.\<close>

definition advertise :: "(128 word \<Rightarrow> rstr) \<Rightarrow> rstr \<Rightarrow> device_id \<Rightarrow> rstr option \<Rightarrow> (rstr \<times> rstr) list" where
  "advertise uuid_fmt version me pairing_name =
     [(str_lit ''v'', version), (str_lit ''id'', device_id_fmt uuid_fmt me)]
     @ (case pairing_name of
          Some name \<Rightarrow> [(str_lit ''pair'', str_lit ''1''), (str_lit ''name'', name)]
        | None \<Rightarrow> [])"

definition discovered_addresses :: "(u32 \<times> u32) list \<Rightarrow> device_id \<Rightarrow> found_map \<Rightarrow> socket_addr list" where
  "discovered_addresses nets d found =
     concat (map (found_addresses nets) (filter (\<lambda>f. fd_device f = d) (map snd found)))"

definition pairable :: "(u32 \<times> u32) list \<Rightarrow> device_id \<Rightarrow> found_map \<Rightarrow> pairable_device list" where
  "pairable nets me found =
     List.map_filter
       (\<lambda>f. case (fd_pairing f, found_addresses nets f) of
              (Some name, a # _) \<Rightarrow> Some \<lparr>pd_device = fd_device f, pd_name = name, pd_address = a\<rparr>
            | _ \<Rightarrow> None)
       (filter (\<lambda>f. fd_device f \<noteq> me) (map snd found))"

text \<open>The device a resolved service announces: none without a readable identifier, nor this one.\<close>

definition announced :: "(rstr \<Rightarrow> 128 word option) \<Rightarrow> device_id \<Rightarrow> mdns_service \<Rightarrow> device_id option" where
  "announced uuid_parse me s =
     (case ms_id s of
        None \<Rightarrow> None
      | Some text \<Rightarrow>
          (case device_id_from_str uuid_parse text of
             None \<Rightarrow> None
           | Some d \<Rightarrow> if d = me then None else Some d))"

definition push_new :: "'a list \<Rightarrow> 'a list \<Rightarrow> 'a list" where
  "push_new known new = foldl (\<lambda>xs x. if x \<in> set xs then xs else xs @ [x]) known new"

text \<open>One event of the browse loop: the new map and the device the node is told about.\<close>

fun on_service_event ::
  "(rstr \<Rightarrow> 128 word option) \<Rightarrow> device_id \<Rightarrow> found_map \<Rightarrow> mdns_event \<Rightarrow> found_map \<times> device_id option" where
  "on_service_event uuid_parse me found (Resolved s) =
     (case announced uuid_parse me s of
        None \<Rightarrow> (found, None)
      | Some d \<Rightarrow>
          (let pairing_name = (if ms_pair s = Some (str_lit ''1'') then ms_name s else None);
               entry = (case map_of found (ms_fullname s) of
                          Some f \<Rightarrow> f
                        | None \<Rightarrow> \<lparr>fd_device = d, fd_port = ms_port s, fd_ips = [], fd_pairing = None\<rparr>);
               ips = (if fd_port entry \<noteq> ms_port s \<or> fd_device entry \<noteq> d then [] else fd_ips entry)
           in (AList.update (ms_fullname s)
                 \<lparr>fd_device = d, fd_port = ms_port s, fd_ips = push_new ips (ms_addrs s),
                  fd_pairing = pairing_name\<rparr> found,
               Some d)))"
| "on_service_event uuid_parse me found (ServiceRemoved name) = (AList.delete name found, None)"
| "on_service_event uuid_parse me found OtherService = (found, None)"

definition discover ::
  "(rstr \<Rightarrow> 128 word option) \<Rightarrow> device_id \<Rightarrow> found_map \<Rightarrow> mdns_event \<Rightarrow> found_map" where
  "discover uuid_parse me found e = fst (on_service_event uuid_parse me found e)"

section \<open>Invariant\<close>

declare AList.update_conv' [simp] AList.delete_conv' [simp]

lemma set_push_new [simp]: "set (push_new known new) = set known \<union> set new"
  unfolding push_new_def by (induction new arbitrary: known) (simp_all, auto)

lemma distinct_push_new [simp]: "distinct known \<Longrightarrow> distinct (push_new known new)"
  unfolding push_new_def by (induction new arbitrary: known) simp_all

definition found_inv :: "device_id \<Rightarrow> found_map \<Rightarrow> bool" where
  "found_inv me found \<longleftrightarrow>
     distinct (map fst found)
     \<and> (\<forall>n f. map_of found n = Some f \<longrightarrow> fd_device f \<noteq> me \<and> distinct (fd_ips f))"

lemma announced_other: "announced uuid_parse me s = Some d \<Longrightarrow> d \<noteq> me"
  by (auto simp: announced_def split: option.splits if_splits)

lemma found_inv_discover:
  assumes "found_inv me found"
  shows "found_inv me (discover uuid_parse me found e)"
proof (cases e)
  case (Resolved s)
  with assms announced_other [of uuid_parse me s] show ?thesis
    by (auto simp: discover_def found_inv_def Let_def AList.distinct_update simp del: map_of_eq_Some_iff
        split: option.split)
next
  case (ServiceRemoved n)
  with assms show ?thesis
    by (auto simp: discover_def found_inv_def AList.delete_keys distinct_removeAll
        simp del: map_of_eq_Some_iff split: if_splits)
qed (use assms in \<open>simp add: discover_def\<close>)

interpretation discovery: state_machine "discover uuid_parse me" "found_inv me" for uuid_parse me
  by unfold_locales (rule found_inv_discover)

section \<open>Properties\<close>

text \<open>Whether an event leaves what service \<open>s\<close> announced under its name valid.\<close>

definition keeps :: "(rstr \<Rightarrow> 128 word option) \<Rightarrow> device_id \<Rightarrow> mdns_service \<Rightarrow> mdns_event \<Rightarrow> bool" where
  "keeps uuid_parse me s e \<longleftrightarrow>
     (case e of
        Resolved t \<Rightarrow>
          ms_fullname t = ms_fullname s \<longrightarrow> announced uuid_parse me t = None
            \<or> announced uuid_parse me t = announced uuid_parse me s \<and> ms_port t = ms_port s
      | ServiceRemoved n \<Rightarrow> n \<noteq> ms_fullname s
      | OtherService \<Rightarrow> True)"

lemma entry_after_discover:
  "map_of (discover uuid_parse me found e) n =
     (case e of
        Resolved t \<Rightarrow>
          (case announced uuid_parse me t of
             Some d \<Rightarrow>
               if ms_fullname t = n
               then Some \<lparr>fd_device = d, fd_port = ms_port t,
                 fd_ips = push_new (case map_of found n of
                     Some f \<Rightarrow> if fd_port f \<noteq> ms_port t \<or> fd_device f \<noteq> d then [] else fd_ips f
                   | None \<Rightarrow> []) (ms_addrs t),
                 fd_pairing = if ms_pair t = Some (str_lit ''1'') then ms_name t else None\<rparr>
               else map_of found n
           | None \<Rightarrow> map_of found n)
      | ServiceRemoved m \<Rightarrow> if m = n then None else map_of found n
      | OtherService \<Rightarrow> map_of found n)"
  by (auto simp: discover_def Let_def split: mdns_event.split option.split)

text \<open>The address \<open>a\<close> of name \<open>n\<close> was announced for device \<open>d\<close> and port \<open>p\<close>, and nothing revoked it.\<close>

definition vouched ::
  "(rstr \<Rightarrow> 128 word option) \<Rightarrow> device_id \<Rightarrow> mdns_event list \<Rightarrow> rstr \<Rightarrow> device_id \<Rightarrow> u16
   \<Rightarrow> ip_addr \<times> u32 \<Rightarrow> bool" where
  "vouched uuid_parse me es n d p a \<longleftrightarrow>
     (\<exists>es1 s es2. es = es1 @ Resolved s # es2 \<and> ms_fullname s = n \<and> announced uuid_parse me s = Some d
        \<and> ms_port s = p \<and> a \<in> set (ms_addrs s) \<and> (\<forall>e\<in>set es2. keeps uuid_parse me s e))"

lemma vouched_snoc:
  "vouched uuid_parse me (es @ [e]) n d p a \<longleftrightarrow>
     (vouched uuid_parse me es n d p a
        \<and> (case e of
             Resolved t \<Rightarrow> ms_fullname t = n \<longrightarrow> announced uuid_parse me t = None
               \<or> announced uuid_parse me t = Some d \<and> ms_port t = p
           | ServiceRemoved m \<Rightarrow> m \<noteq> n
           | OtherService \<Rightarrow> True))
     \<or> (case e of
          Resolved t \<Rightarrow> ms_fullname t = n \<and> announced uuid_parse me t = Some d \<and> ms_port t = p
            \<and> a \<in> set (ms_addrs t)
        | _ \<Rightarrow> False)"
  (is "?l \<longleftrightarrow> ?old \<and> ?kept \<or> ?new")
proof
  assume ?l
  then obtain es1 s es2 where split: "es @ [e] = es1 @ Resolved s # es2"
    and s: "ms_fullname s = n" "announced uuid_parse me s = Some d" "ms_port s = p" "a \<in> set (ms_addrs s)"
      "\<forall>e\<in>set es2. keeps uuid_parse me s e"
    unfolding vouched_def by blast
  show "?old \<and> ?kept \<or> ?new"
  proof (cases es2 rule: rev_cases)
    case Nil
    with split s show ?thesis by simp
  next
    case (snoc es3 e')
    with split have "es = es1 @ Resolved s # es3" "e' = e" by auto
    with s snoc have ?old unfolding vouched_def by auto
    moreover have ?kept
      using s snoc \<open>e' = e\<close> by (auto simp: keeps_def split: mdns_event.splits)
    ultimately show ?thesis by blast
  qed
next
  assume "?old \<and> ?kept \<or> ?new"
  then show ?l
  proof
    assume *: "?old \<and> ?kept"
    then obtain es1 s es2 where split: "es = es1 @ Resolved s # es2"
      and s: "ms_fullname s = n" "announced uuid_parse me s = Some d" "ms_port s = p" "a \<in> set (ms_addrs s)"
        "\<forall>e\<in>set es2. keeps uuid_parse me s e"
      unfolding vouched_def by blast
    have "keeps uuid_parse me s e"
      using * s by (auto simp: keeps_def split: mdns_event.splits)
    with split s show ?l
      unfolding vouched_def by (intro exI [of _ es1] exI [of _ s] exI [of _ "es2 @ [e]"]) auto
  next
    assume ?new
    then obtain t where "e = Resolved t" "ms_fullname t = n" "announced uuid_parse me t = Some d"
      "ms_port t = p" "a \<in> set (ms_addrs t)"
      by (auto split: mdns_event.splits)
    then show ?l
      unfolding vouched_def by (intro exI [of _ es] exI [of _ t] exI [of _ "[]"]) auto
  qed
qed

text \<open>
  What is known of a service is current. After any run of mDNS events the map holds, under a
  name, exactly the addresses announced for it since it last disappeared, changed its port or changed
  its device: parts of an announcement that arrive separately are merged, and no address of an
  earlier run of the program is kept.
\<close>

theorem discovered_addresses_are_current:
  "(\<exists>f. map_of (foldl (discover uuid_parse me) [] events) n = Some f
      \<and> fd_device f = d \<and> fd_port f = p \<and> a \<in> set (fd_ips f))
   \<longleftrightarrow> (\<exists>before s after. events = before @ Resolved s # after \<and> ms_fullname s = n
      \<and> announced uuid_parse me s = Some d \<and> ms_port s = p \<and> a \<in> set (ms_addrs s)
      \<and> (\<forall>e\<in>set after. keeps uuid_parse me s e))"
  unfolding vouched_def [symmetric]
proof (induction events rule: rev_induct)
  case Nil
  then show ?case by (simp add: vouched_def)
next
  case (snoc e es)
  then show ?case
    by (auto simp: vouched_snoc entry_after_discover simp del: map_of_eq_Some_iff
        split: mdns_event.split option.splits if_splits)
qed

definition example_service :: "(ip_addr \<times> u32) list \<Rightarrow> mdns_service" where
  "example_service addrs =
     \<lparr>ms_fullname = [97], ms_id = Some [50], ms_pair = None, ms_name = None, ms_port = 4000, ms_addrs = addrs\<rparr>"

theorem discovered_addresses_are_current_witness:
  "\<exists>f. map_of (foldl (discover (\<lambda>_. Some 2) (DeviceId 1)) []
         [ServiceRemoved [97], Resolved (example_service [(Ip4 7, 0)]), Resolved (example_service [(Ip4 8, 0)])]) [97]
       = Some f
     \<and> fd_device f = DeviceId 2 \<and> fd_port f = 4000 \<and> (Ip4 7, 0) \<in> set (fd_ips f)"
proof (rule discovered_addresses_are_current [THEN iffD2], intro exI conjI)
  show "[ServiceRemoved [97], Resolved (example_service [(Ip4 7, 0)]), Resolved (example_service [(Ip4 8, 0)])]
      = [ServiceRemoved [97]] @ Resolved (example_service [(Ip4 7, 0)]) # [Resolved (example_service [(Ip4 8, 0)])]"
    by simp
qed (simp_all add: example_service_def announced_def device_id_from_str_def keeps_def)

text \<open>
  In every run the devices offered for pairing are other devices, each with a name announced
  together with the pairing mark, and reachable at an address that was announced for it.
\<close>

theorem pairable_devices_are_others:
  assumes "pd \<in> set (pairable nets me (foldl (discover uuid_parse me) [] events))"
  shows "pd_device pd \<noteq> me
    \<and> (\<exists>n f. map_of (foldl (discover uuid_parse me) [] events) n = Some f \<and> fd_device f = pd_device pd
        \<and> fd_pairing f = Some (pd_name pd) \<and> pd_address pd = hd (found_addresses nets f))"
proof -
  have "found_inv me (foldl (discover uuid_parse me) [] events)"
    by (rule discovery.invar_run) (simp add: found_inv_def)
  then have inv: "map_of (foldl (discover uuid_parse me) [] events) n = Some f" 
    if "(n, f) \<in> set (foldl (discover uuid_parse me) [] events)" for n f
    using that by (simp add: found_inv_def)
  obtain n f where "(n, f) \<in> set (foldl (discover uuid_parse me) [] events)" "fd_device f \<noteq> me"
    "fd_device f = pd_device pd" "fd_pairing f = Some (pd_name pd)" "pd_address pd = hd (found_addresses nets f)"
    using assms by (auto simp: pairable_def map_filter_def split: option.splits list.splits)
  with inv show ?thesis by auto
qed

end
