(* ===== verification/Node_Api.thy ===== *)
theory Node_Api
  imports Node_Correct Discovery
begin

text \<open>
  The handle the app holds, \<open>LanNode\<close> in \<open>crates/cled-lan/src/node.rs\<close>: starting a node, what it
  sends for a local copy, the ways to pair, and the addresses a dial tries. The runtime only runs the
  handlers of theory \<open>Node\<close>; how long they wait is in theory \<open>Sessions\<close>.
\<close>

section \<open>Starting\<close>

record config =
  cf_device :: device_id
  cf_name :: rstr
  cf_keys :: keys
  cf_listen :: socket_addr
  cf_discovery :: bool
  cf_redial :: nat

definition config_new :: "device_id \<Rightarrow> rstr \<Rightarrow> keys \<Rightarrow> config" where
  "config_new d name ks =
     \<lparr>cf_device = d, cf_name = name, cf_keys = ks, cf_listen = V4 0 0, cf_discovery = True,
      cf_redial = secs 5\<rparr>"

text \<open>
  \<open>bound\<close> is the outcome of starting the runtime and binding the listener; \<open>daemon\<close> says whether the
  mDNS daemon started. The second result says whether to listen on IPv6 too.
\<close>

definition node_start ::
  "(rstr \<Rightarrow> 128 word option) \<Rightarrow> config \<Rightarrow> peer_read \<Rightarrow> unit lan_result \<Rightarrow> bool \<Rightarrow> nat
   \<Rightarrow> (node \<times> bool) lan_result" where
  "node_start uuid_parse cf file_read bound daemon now =
     bind_ok (store_load uuid_parse file_read) (\<lambda>peers.
       bind_ok bound (\<lambda>_.
         Ok (\<lparr>nd_device = cf_device cf, nd_name = cf_name cf, nd_redial = cf_redial cf,
              nd_discovery = (cf_discovery cf \<and> daemon), nd_peers = peers, nd_conns = [], nd_reading = [],
              nd_dialing = [], nd_backoff = [], nd_pairing = None, nd_next_conn = 1, nd_started = now,
              nd_offline = []\<rparr>,
             (case cf_listen cf of V4 ip _ \<Rightarrow> ip = 0 | V6 _ _ _ _ \<Rightarrow> False))))"

definition hello_of :: "node \<Rightarrow> u16 \<Rightarrow> u64 \<Rightarrow> hello" where
  "hello_of nd listen_port now_ms =
     \<lparr>h_protocol = protocol_version, h_device_id = device_id_to_bytes (nd_device nd), h_name = nd_name nd,
      h_listen_port = listen_port, h_time_ms = now_ms\<rparr>"

section \<open>Sending and pairing\<close>

definition broadcast_item ::
  "node_lib \<Rightarrow> (u32 \<Rightarrow> u32 \<Rightarrow> byte list \<Rightarrow> byte list option) \<Rightarrow> clipboard_item \<Rightarrow> node \<Rightarrow> node_effect list" where
  "broadcast_item lib png_write item nd =
     (case bind_ok (from_item png_write item) (\<lambda>w. message_encode (nl_postcard lib) (Item w)) of
        Inr bytes \<Rightarrow> send_to_all bytes nd
      | Inl _ \<Rightarrow> [])"

definition pairable_devices :: "(u32 \<times> u32) list \<Rightarrow> found_map option \<Rightarrow> node \<Rightarrow> pairable_device list" where
  "pairable_devices nets discovery nd =
     (case discovery of Some found \<Rightarrow> pairable nets (nd_device nd) found | None \<Rightarrow> [])"

text \<open>
  \<open>over stream code\<close> is what \<open>join_pairing_over\<close> finds on an open stream when it uses \<open>code\<close>: whether
  the preamble went out, the identifier read, and the outcome of the exchange.
\<close>

type_synonym 's pairing_stream =
  "'s \<Rightarrow> pairing_code \<Rightarrow> unit lan_result \<times> byte list option \<times> (device_id \<Rightarrow> (hello \<times> byte list) lan_result)"

definition join_pairing ::
  "node_lib \<Rightarrow> node_env \<Rightarrow> (socket_addr \<Rightarrow> 's lan_result) \<Rightarrow> 's pairing_stream \<Rightarrow> socket_addr list
   \<Rightarrow> pairing_code \<Rightarrow> node \<Rightarrow> peer_status lan_result \<times> node \<times> node_effect list" where
  "join_pairing lib env connect over addresses code nd =
     (case connect_any connect addresses of
        Inl e \<Rightarrow> (Err e, nd, [])
      | Inr (stream, address) \<Rightarrow>
          (let (sent, listener, exchange) = over stream code
           in join_pairing_over lib env (Some address) None sent listener exchange nd))"

definition pair_with ::
  "node_lib \<Rightarrow> node_env \<Rightarrow> (socket_addr \<Rightarrow> 's lan_result) \<Rightarrow> 's pairing_stream \<Rightarrow> socket_addr
   \<Rightarrow> rstr \<Rightarrow> node \<Rightarrow> peer_status lan_result \<times> node \<times> node_effect list" where
  "pair_with lib env connect over address text nd =
     (case code_parse text of
        Inl e \<Rightarrow> (Err e, nd, [])
      | Inr code \<Rightarrow> join_pairing lib env connect over [address] code nd)"

definition pair_with_device ::
  "node_lib \<Rightarrow> node_env \<Rightarrow> (u32 \<times> u32) list \<Rightarrow> found_map option \<Rightarrow> (socket_addr \<Rightarrow> 's lan_result)
   \<Rightarrow> 's pairing_stream \<Rightarrow> device_id \<Rightarrow> rstr \<Rightarrow> node \<Rightarrow> peer_status lan_result \<times> node \<times> node_effect list" where
  "pair_with_device lib env nets discovery connect over d text nd =
     (case code_parse text of
        Inl e \<Rightarrow> (Err e, nd, [])
      | Inr code \<Rightarrow>
          (let addresses = (case discovery of Some found \<Rightarrow> discovered_addresses nets d found | None \<Rightarrow> [])
           in if addresses = []
              then (Err (LanOther ''that device is no longer visible on the network''), nd, [])
              else join_pairing lib env connect over addresses code nd))"

definition pair_over ::
  "node_lib \<Rightarrow> node_env \<Rightarrow> 's pairing_stream \<Rightarrow> device_id \<Rightarrow> 's \<Rightarrow> rstr \<Rightarrow> node
   \<Rightarrow> peer_status lan_result \<times> node \<times> node_effect list" where
  "pair_over lib env over device transport text nd =
     (case code_parse text of
        Inl e \<Rightarrow> (Err e, nd, [])
      | Inr code \<Rightarrow>
          (let (sent, listener, exchange) = over transport code
           in join_pairing_over lib env None (Some device) sent listener exchange nd))"

text \<open>Accepting a connection, whatever it came over, once its preamble is read.\<close>

definition accept_over ::
  "node_lib \<Rightarrow> node_env \<Rightarrow> nat \<Rightarrow> byte list lan_result \<Rightarrow> origin
   \<Rightarrow> (byte list \<Rightarrow> hello lan_result) \<Rightarrow> unit lan_result \<Rightarrow> (pairing_code \<Rightarrow> (hello \<times> byte list) lan_result)
   \<Rightarrow> node \<Rightarrow> unit lan_result \<times> node \<times> node_effect list" where
  "accept_over lib env later received origin shaken bye_sent exchange nd =
     (case handle_incoming (nd_device nd) received origin of
        Inl e \<Rightarrow> (Err e, nd, [])
      | Inr (IncomingSession d a) \<Rightarrow> accept_session lib env d a shaken bye_sent nd
      | Inr (IncomingPairing d a) \<Rightarrow> accept_pairing lib env later d a exchange nd)"

section \<open>Dialing\<close>

text \<open>
  A dial task that is not interrupted: the discovered and the last known addresses are tried in
  order, and the connection is made over the first that answers.
\<close>

definition dial ::
  "node_lib \<Rightarrow> node_env \<Rightarrow> nat \<Rightarrow> (u32 \<times> u32) list \<Rightarrow> found_map option \<Rightarrow> (socket_addr \<Rightarrow> 's lan_result)
   \<Rightarrow> ('s \<Rightarrow> byte list \<Rightarrow> hello lan_result) \<Rightarrow> device_id \<Rightarrow> node \<Rightarrow> node \<times> node_effect list" where
  "dial lib env later nets discovery connect shaken d nd =
     (case dial_start d (ne_now env) nd of
        (None, nd) \<Rightarrow> (nd, [])
      | (Some p, nd) \<Rightarrow>
          (let discovered = (case discovery of Some found \<Rightarrow> discovered_addresses nets d found | None \<Rightarrow> [])
           in case connect_any connect (addresses_of discovered p) of
                Inl e \<Rightarrow> (dial_end d False later nd, [])
              | Inr (stream, address) \<Rightarrow>
                  (let (r, nd, eff) = connect_over lib env p (shaken stream) (Some address) nd
                   in (dial_end d (\<not> isl r) later nd, eff))))"

section \<open>Lemmas\<close>

lemma get_store_peer:
  "get (nd_peers (snd (store_peer lib env l h key a nd))) d =
     (if d = l then Some \<lparr>p_id = l, p_name = h_name h, p_key = key, p_paired = ne_wall env,
                          p_addr = map_option (\<lambda>a. with_port a (h_listen_port h)) a\<rparr>
      else get (nd_peers nd) d)"
  by (simp add: store_peer_def Let_def case_prod_beta get_upsert_io)

lemma join_pairing_changes:
  assumes "get (nd_peers (fst (snd (join_pairing_over lib env None (Some device) sent l x nd)))) d
    \<noteq> get (nd_peers nd) d"
  shows "d = device
    \<and> (\<exists>h key. x device = Ok (h, key) \<and> sent = Ok ()
        \<and> get (nd_peers (fst (snd (join_pairing_over lib env None (Some device) sent l x nd)))) device
          = Some \<lparr>p_id = device, p_name = h_name h, p_key = key, p_paired = ne_wall env, p_addr = None\<rparr>)"
proof (cases "isl sent \<or> l = None \<or> device_id_from_bytes (the l) \<noteq> device \<or> isl (x device)")
  case True
  with assms show ?thesis
    by (cases sent; cases l; cases "x device") (auto simp: join_pairing_over_def Let_def split: if_splits)
next
  case False
  then obtain bytes h key where "sent = Ok ()" "l = Some bytes" "device_id_from_bytes bytes = device"
      "x device = Ok (h, key)"
    by (cases sent; cases l; cases "x device") auto
  then have "nd_peers (fst (snd (join_pairing_over lib env None (Some device) sent l x nd)))
      = nd_peers (snd (store_peer lib env device h key None nd))"
    by (simp add: join_pairing_over_def Let_def case_prod_beta trigger_dial_def split: sum.split)
  with assms \<open>sent = Ok ()\<close> \<open>x device = Ok (h, key)\<close> show ?thesis
    by (simp add: get_store_peer split: if_splits)
qed

section \<open>Properties\<close>

text \<open>
  C34: Pairing through a relay tunnel trusts no one else: it can only add the device the tunnel leads
  to, and only with a code that parses and an exchange that succeeds with that device; whatever else
  happens, the paired devices stay as they are.
\<close>

theorem tunnel_pairing_trusts_only_its_device:
  assumes "get (nd_peers (fst (snd (pair_over lib env over device transport text nd)))) d
    \<noteq> get (nd_peers nd) d"
  shows "d = device
    \<and> (\<exists>code h key. code_parse text = Ok code \<and> snd (snd (over transport code)) device = Ok (h, key)
        \<and> fst (over transport code) = Ok ()
        \<and> get (nd_peers (fst (snd (pair_over lib env over device transport text nd)))) device
          = Some \<lparr>p_id = device, p_name = h_name h, p_key = key, p_paired = ne_wall env, p_addr = None\<rparr>)"
proof (cases "code_parse text")
  case (Inl e)
  with assms show ?thesis by (simp add: pair_over_def)
next
  case (Inr code)
  obtain sent l x where over: "over transport code = (sent, l, x)" by (cases "over transport code")
  let ?join = "join_pairing_over lib env None (Some device) sent l x nd"
  have join: "pair_over lib env over device transport text nd = ?join"
    using Inr over by (simp add: pair_over_def)
  have "get (nd_peers (fst (snd ?join))) d \<noteq> get (nd_peers nd) d" using assms unfolding join .
  from join_pairing_changes [OF this] Inr over show ?thesis by (simp add: join)
qed

lemma example_code_parses: "code_parse (str_lit ''0123-4567'') = Ok (PairingCode (str_lit ''01234567''))"
  by (simp add: code_parse_def str_lit_def code_char_def is_whitespace_def to_ascii_uppercase_def
      utf8_def utf8_char_def code_alphabet_def code_len_def Let_def)

theorem tunnel_pairing_trusts_only_its_device_witness:
  "\<exists>p. get (nd_peers (fst (snd (pair_over example_lib example_now
       (\<lambda>_ _. (Ok (), Some (device_id_to_bytes (DeviceId 5)), \<lambda>_. Ok (example_hello, [7])))
       (DeviceId 5) () (str_lit ''0123-4567'') example_node)))) (DeviceId 5) = Some p \<and> p_addr p = None"
proof -
  have "get (nd_peers (fst (snd (pair_over example_lib example_now
       (\<lambda>_ _. (Ok (), Some (device_id_to_bytes (DeviceId 5)), \<lambda>_. Ok (example_hello, [7])))
       (DeviceId 5) () (str_lit ''0123-4567'') example_node)))) (DeviceId 5)
    \<noteq> get (nd_peers example_node) (DeviceId 5)"
    by (simp add: pair_over_def example_code_parses join_pairing_over_def get_store_peer trigger_dial_def
        store_peer_def upsert_def upsert_mem_def save_def Let_def case_prod_beta get_def example_defs)
  from tunnel_pairing_trusts_only_its_device [OF this] show ?thesis by auto
qed

lemma dial_tries_discovered_first:
  "distinct discovered \<Longrightarrow> distinct (addresses_of discovered p) \<and> prefix discovered (addresses_of discovered p)
     \<and> set (addresses_of discovered p) = set discovered \<union> set_option (p_addr p)"
  by (auto simp: addresses_of_def split: option.split)

end
