(* ===== verification/Sessions.thy ===== *)
theory Sessions
  imports Node_Api
begin

text \<open>
  The parts of \<open>crates/cled-lan/src/node.rs\<close> that wait: setting up connections and pairing attempts
  with their timeouts, the read loop of a session with its idle timeout, the listener, and the
  blocking calls of the handle. What goes over the network takes time or never ends; what a handler
  does with the outcome is the business of theory \<open>Node\<close>.
\<close>

section \<open>Operations that take time\<close>

definition handshake_timeout :: nat where "handshake_timeout = secs 10"
definition connect_timeout :: nat where "connect_timeout = secs 3"
definition session_ping_interval :: nat where "session_ping_interval = secs 15"
definition session_idle_timeout :: nat where "session_idle_timeout = secs 45"

text \<open>How long an operation takes and what it gives; \<open>None\<close> if it never ends.\<close>

type_synonym 'a timed = "(nat \<times> 'a lan_result) option"

text \<open>\<open>tokio::time::timeout\<close>, its error mapped to \<open>LanError::Timeout\<close>.\<close>

definition within :: "nat \<Rightarrow> 'a timed \<Rightarrow> 'a timed" where
  "within limit t =
     (case t of
        Some (d, r) \<Rightarrow> if d \<le> limit then Some (d, r) else Some (limit, Err LanTimeout)
      | None \<Rightarrow> Some (limit, Err LanTimeout))"

text \<open>\<open>.await?\<close> and what follows.\<close>

definition await_then :: "'a timed \<Rightarrow> ('a \<Rightarrow> 'b timed) \<Rightarrow> 'b timed" where
  "await_then t f =
     (case t of
        None \<Rightarrow> None
      | Some (d, Inl e) \<Rightarrow> Some (d, Err e)
      | Some (d, Inr a) \<Rightarrow> map_option (\<lambda>(d', r). (d + d', r)) (f a))"

definition at_once :: "'a lan_result \<Rightarrow> 'a timed" where
  "at_once r = Some (0, r)"

text \<open>\<open>exchange_hellos\<close>: sending and receiving run side by side, and both must end.\<close>

definition hellos_timed ::
  "(byte list \<Rightarrow> message option) \<Rightarrow> device_id \<Rightarrow> unit timed \<Rightarrow> byte list timed \<Rightarrow> hello timed" where
  "hellos_timed postcard_from expected sent received =
     (case (sent, received) of
        (Some (d, s), Some (d', r)) \<Rightarrow> Some (max d d', exchange_hellos postcard_from expected s r)
      | _ \<Rightarrow> None)"

section \<open>Setting up connections\<close>

fun connect_any_from ::
  "(socket_addr \<Rightarrow> 's timed) \<Rightarrow> lan_error \<Rightarrow> socket_addr list \<Rightarrow> ('s \<times> socket_addr) timed" where
  "connect_any_from connect last_error [] = at_once (Err last_error)"
| "connect_any_from connect last_error (a # as) =
     (case within connect_timeout (connect a) of
        None \<Rightarrow> None
      | Some (d, Inr stream) \<Rightarrow> Some (d, Ok (stream, a))
      | Some (d, Inl e) \<Rightarrow> map_option (\<lambda>(d', r). (d + d', r)) (connect_any_from connect e as))"

definition connect_any_timed :: "(socket_addr \<Rightarrow> 's timed) \<Rightarrow> socket_addr list \<Rightarrow> ('s \<times> socket_addr) timed" where
  "connect_any_timed connect addresses = connect_any_from connect UnknownPeer addresses"

text \<open>
  The dialing side of a session over an open connection, up to the hello of the other side:
  \<open>written\<close> is sending the preamble, \<open>shake\<close> the Noise handshake, \<open>hello_sent\<close> and
  \<open>hello_received\<close> the hellos over the cipher it gives.
\<close>

definition dial_session ::
  "(byte list \<Rightarrow> message option) \<Rightarrow> device_id \<Rightarrow> unit timed \<Rightarrow> 's timed \<Rightarrow> ('s \<Rightarrow> unit timed)
   \<Rightarrow> ('s \<Rightarrow> byte list timed) \<Rightarrow> hello timed" where
  "dial_session postcard_from expected written shake hello_sent hello_received =
     await_then written (\<lambda>_.
       await_then (within handshake_timeout shake) (\<lambda>cipher.
         hellos_timed postcard_from expected (hello_sent cipher) (hello_received cipher)))"

definition answer_session ::
  "(byte list \<Rightarrow> message option) \<Rightarrow> device_id \<Rightarrow> 's timed \<Rightarrow> ('s \<Rightarrow> unit timed)
   \<Rightarrow> ('s \<Rightarrow> byte list timed) \<Rightarrow> hello timed" where
  "answer_session postcard_from initiator shake hello_sent hello_received =
     await_then (within handshake_timeout shake) (\<lambda>cipher.
       hellos_timed postcard_from initiator (hello_sent cipher) (hello_received cipher))"

text \<open>What an accepted connection turns out to be: its preamble is read first.\<close>

definition incoming_timed :: "device_id \<Rightarrow> byte list timed \<Rightarrow> origin \<Rightarrow> incoming timed" where
  "incoming_timed me received from =
     await_then (within handshake_timeout received) (\<lambda>pre. at_once (handle_incoming me (Ok pre) from))"

text \<open>
  The pairing exchange of the device that shows the code. The lock on the pairing session is held
  for exactly this time.
\<close>

definition pairing_attempt :: "(hello \<times> byte list) timed \<Rightarrow> (hello \<times> byte list) timed" where
  "pairing_attempt exchange = within handshake_timeout exchange"

text \<open>The other side: preamble, the listener's identifier, the exchange.\<close>

definition join_attempt ::
  "device_id option \<Rightarrow> unit timed \<Rightarrow> byte list timed \<Rightarrow> (device_id \<Rightarrow> (hello \<times> byte list) timed)
   \<Rightarrow> (device_id \<times> hello \<times> byte list) timed" where
  "join_attempt expected written listener_id exchange =
     await_then written (\<lambda>_.
       case listener_id of
         None \<Rightarrow> None
       | Some (d, Inl _) \<Rightarrow> Some (d, Err NotPairing)
       | Some (d, Inr bytes) \<Rightarrow>
           (let listener = device_id_from_bytes bytes
            in map_option (\<lambda>(d', r). (d + d', r))
                 (if \<exists>x. expected = Some x \<and> x \<noteq> listener then at_once (Err UnknownPeer)
                  else await_then (within handshake_timeout (exchange listener))
                         (\<lambda>(h, key). at_once (Ok (listener, h, key))))))"

text \<open>The listener never stops: what it hands to \<open>handle_incoming\<close>, one task each.\<close>

fun accept_loop :: "('s \<times> socket_addr) lan_result list \<Rightarrow> ('s \<times> origin) list" where
  "accept_loop [] = []"
| "accept_loop (Inl e # rs) = accept_loop rs"
| "accept_loop (Inr (stream, a) # rs) = (stream, Tcp a) # accept_loop rs"

text \<open>A blocking call of the handle: \<open>None\<close> when the runtime dropped the task.\<close>

definition block_on :: "'a lan_result option \<Rightarrow> 'a lan_result" where
  "block_on sent = (case sent of Some r \<Rightarrow> r | None \<Rightarrow> Err LanStopped)"

section \<open>The read loop\<close>

text \<open>
  One receive after the other, each with the time it takes from the previous one; what they hand
  over goes to \<open>on_message\<close>. The loop ends on an error, on the idle timeout and on a goodbye.
\<close>

fun read_loop ::
  "node_lib \<Rightarrow> device_id \<Rightarrow> u64 \<Rightarrow> (byte list timed \<times> node_env) list \<Rightarrow> node \<Rightarrow> node \<times> node_effect list" where
  "read_loop lib d cid [] nd = (nd, [])"
| "read_loop lib d cid ((received, env) # rs) nd =
     (case within session_idle_timeout received of
        Some (_, Inr bytes) \<Rightarrow>
          (let (nd', eff) = on_message lib env d cid bytes nd
           in if message_decode (nl_postcard_from lib) bytes = Ok (Bye Unpaired) then (nd', eff)
              else let (nd'', eff') = read_loop lib d cid rs nd' in (nd'', eff @ eff'))
      | _ \<Rightarrow> session_ended d cid (ne_now env) nd)"

text \<open>
  The pings of an otherwise idle writer, whose timer ticks every \<open>session_ping_interval\<close>: ping
  \<open>n\<close> arrives \<open>delays ! n\<close> after its tick. What the reader sees are the gaps between them.
\<close>

fun ping_gaps :: "nat \<Rightarrow> nat list \<Rightarrow> nat list" where
  "ping_gaps previous [] = []"
| "ping_gaps previous (delay # delays) = (session_ping_interval + delay - previous) # ping_gaps delay delays"

section \<open>What the handlers leave alone\<close>

text \<open>Only dial tasks touch the set of devices being dialed, only sessions the set of read loops.\<close>

lemma tasks_drop_removed [simp]:
  "nd_dialing (fst (drop_removed lib ds nd)) = nd_dialing nd"
  "nd_reading (fst (drop_removed lib ds nd)) = nd_reading nd"
  by (induction ds arbitrary: nd) (simp_all add: case_prod_beta Let_def disconnect_removed_def)

lemma tasks_redial_added [simp]:
  "nd_dialing (fst (redial_added ds nd)) = nd_dialing nd"
  "nd_reading (fst (redial_added ds nd)) = nd_reading nd"
  by (induction ds arbitrary: nd) (simp_all add: case_prod_beta Let_def trigger_dial_def)

lemma tasks_apply_roster [simp]:
  "nd_dialing (fst (apply_roster lib env d ro nd)) = nd_dialing nd"
  "nd_reading (fst (apply_roster lib env d ro nd)) = nd_reading nd"
  by (simp_all add: apply_roster_def case_prod_beta Let_def split: sum.split)

lemma tasks_leave_group [simp]:
  "nd_dialing (fst (leave_group lib env d nd)) = nd_dialing nd"
  "nd_reading (fst (leave_group lib env d nd)) = nd_reading nd"
  by (simp_all add: leave_group_def split: option.split)

lemma tasks_session_ended [simp]:
  "nd_dialing (fst (session_ended d cid now nd)) = nd_dialing nd"
  "nd_reading (fst (session_ended d cid now nd)) = removeAll (d, cid) (nd_reading nd)"
  by (simp_all add: session_ended_def unregister_def split: option.split)

lemma dialing_start_session [simp]:
  "nd_dialing (fst (start_session lib env d i h a nd)) = nd_dialing nd"
  by (simp add: start_session_def register_def case_prod_beta Let_def split: option.split)

lemma dialing_on_message [simp]: "nd_dialing (fst (on_message lib env d cid bytes nd)) = nd_dialing nd"
  by (simp add: on_message_def case_prod_beta Let_def split: sum.split message.split bye_reason.split)

lemma reading_on_message:
  "message_decode (nl_postcard_from lib) bytes \<noteq> Ok (Bye Unpaired) \<Longrightarrow>
   nd_reading (fst (on_message lib env d cid bytes nd)) = nd_reading nd"
  by (cases "message_decode (nl_postcard_from lib) bytes")
    (auto simp: on_message_def case_prod_beta Let_def split: sum.split message.split bye_reason.split)

lemma dialing_store_peer [simp]: "nd_dialing (snd (store_peer lib env d h key a nd)) = nd_dialing nd"
  by (simp add: store_peer_def case_prod_beta Let_def)

lemma dialing_pairing [simp]:
  "nd_dialing (fst (snd (start_pairing env nd))) = nd_dialing nd"
  "nd_dialing (fst (end_pairing nd)) = nd_dialing nd"
  "nd_dialing (fst (snd (accept_pairing lib env later d a x nd))) = nd_dialing nd"
  "nd_dialing (fst (snd (join_pairing_over lib env a ex sent l y nd))) = nd_dialing nd"
  "nd_dialing (fst (snd (remove_peer lib env d nd))) = nd_dialing nd"
  by (simp_all add: start_pairing_def end_pairing_def accept_pairing_def join_pairing_over_def
      remove_peer_def disconnect_removed_def trigger_dial_def case_prod_beta Let_def
      split: sum.split option.split)

lemma dialing_sessions [simp]:
  "nd_dialing (fst (snd (connect_over lib env q shaken a nd))) = nd_dialing nd"
  "nd_dialing (fst (snd (accept_session lib env d a shaken sent nd))) = nd_dialing nd"
  by (simp_all add: connect_over_def accept_session_def case_prod_beta Let_def split: sum.split)

lemma dialing_step:
  assumes "d \<in> set (nd_dialing nd)" and "\<forall>ok. fst e \<noteq> NDialEnd d ok"
  shows "d \<in> set (nd_dialing (fst (node_step lib nd e)))"
proof -
  obtain ev env where "e = (ev, env)" by (cases e)
  with assms show ?thesis
    by (cases ev) (auto simp: on_discovered_def trigger_dial_def dial_start_def dial_end_def Let_def
        split: option.split)
qed

lemma dialing_run:
  "d \<in> set (nd_dialing nd) \<Longrightarrow> \<forall>e\<in>set es. \<forall>ok. fst e \<noteq> NDialEnd d ok \<Longrightarrow>
   d \<in> set (nd_dialing (foldl (\<lambda>nd e. fst (node_step lib nd e)) nd es))"
  by (induction es arbitrary: nd) (simp_all add: dialing_step)

section \<open>How long operations take\<close>

lemma within_ends:
  obtains d r where "within limit t = Some (d, r)" and "d \<le> limit"
proof -
  have "\<exists>d r. within limit t = Some (d, r) \<and> d \<le> limit"
    by (auto simp: within_def split: option.split)
  with that show ?thesis by blast
qed

lemma within_result:
  "within limit t = Some (d, r) \<Longrightarrow> t = Some (d, r) \<or> r = Err LanTimeout"
  by (auto simp: within_def split: option.splits if_splits)

text \<open>What connecting to one address comes to, once its timeout is counted as an error.\<close>

definition outcome :: "'a timed \<Rightarrow> 'a lan_result" where
  "outcome t = (case within connect_timeout t of Some (_, r) \<Rightarrow> r | None \<Rightarrow> Err LanTimeout)"

lemma connect_any_from_outcome:
  "\<exists>d. connect_any_from connect e as = Some (d, connect_from (\<lambda>a. outcome (connect a)) e as) \<and>
       d \<le> length as * connect_timeout"
proof (induction as arbitrary: e)
  case (Cons a as)
  obtain d r where within: "within connect_timeout (connect a) = Some (d, r)" "d \<le> connect_timeout"
    by (rule within_ends)
  show ?case
  proof (cases r)
    case (Inl e')
    with Cons.IH [of e'] within show ?thesis
      by (fastforce simp: outcome_def)
  qed (use within in \<open>auto simp: outcome_def\<close>)
qed (simp add: at_once_def)

lemma read_loop_reading:
  assumes "\<forall>x\<in>set rs. \<exists>t bytes. fst x = Some (t, Ok bytes) \<and> t \<le> session_idle_timeout \<and>
      message_decode (nl_postcard_from lib) bytes \<noteq> Ok (Bye Unpaired)"
  shows "nd_reading (fst (read_loop lib d cid rs nd)) = nd_reading nd"
  using assms
proof (induction rs arbitrary: nd)
  case (Cons x rs)
  obtain received env where x: "x = (received, env)" by (cases x)
  then obtain t bytes where "received = Some (t, Ok bytes)" "t \<le> session_idle_timeout"
    and alive: "message_decode (nl_postcard_from lib) bytes \<noteq> Ok (Bye Unpaired)"
    using Cons.prems by auto
  with x Cons show ?case
    by (simp add: within_def case_prod_beta Let_def reading_on_message)
qed simp

lemma ping_gaps_bound:
  "\<forall>delay\<in>set delays. delay \<le> slack \<Longrightarrow> \<forall>gap\<in>set (ping_gaps previous delays). gap \<le> session_ping_interval + slack"
  by (induction delays arbitrary: previous) (auto simp: add_increasing2)

lemma write_loop_pings: "write_loop ping (replicate n (WriteTick, True)) = replicate n ping"
  by (induction n) simp_all

section \<open>Properties\<close>

text \<open>
  Connecting ends. Trying the addresses of a device takes at most 3 s each, whatever the
  addresses do, and gives what trying them in order gives when an address that does not answer in
  time counts as unreachable.
\<close>

theorem connecting_refines_order:
  "\<exists>d. connect_any_timed connect as = Some (d, connect_any (\<lambda>a. outcome (connect a)) as) \<and>
       d \<le> length as * connect_timeout"
  by (simp add: connect_any_timed_def connect_any_def connect_any_from_outcome)


text \<open>
  C25: Pings keep a quiet session open. The pings an idle writer sends are what it sent, one per tick,
  and if none of them takes more than 30 s to arrive, the read loop of the other side never times
  out and nothing else changes there.
\<close>

theorem pings_keep_sessions_open:
  assumes "(d, cid) \<in> set (nd_reading nd)" and "\<forall>delay\<in>set delays. delay \<le> secs 30"
    and "message_decode (nl_postcard_from lib) ping = Ok Ping"
  shows "read_loop lib d cid
      (map2 (\<lambda>gap bytes. (Some (gap, Ok bytes), env)) (ping_gaps 0 delays)
         (write_loop ping (replicate (length delays) (WriteTick, True)))) nd
    = (nd, [])"
proof -
  have step: "on_message lib env d cid ping nd = (nd, [])"
    using assms(3) by (simp add: on_message_def)
  have "read_loop lib d cid (map2 (\<lambda>gap bytes. (Some (gap, Ok bytes), env)) gaps (replicate (length gaps) ping)) nd
      = (nd, [])" if "\<forall>gap\<in>set gaps. gap \<le> session_idle_timeout" for gaps
    using that step assms(3) by (induction gaps) (simp_all add: within_def)
  moreover have "\<forall>gap\<in>set (ping_gaps 0 delays). gap \<le> session_idle_timeout"
    using ping_gaps_bound [OF assms(2), of 0]
    by (simp add: session_ping_interval_def session_idle_timeout_def secs_def)
  moreover have "length (ping_gaps p ds) = length ds" for p ds
    by (induction ds arbitrary: p) simp_all
  ultimately show ?thesis
    by (metis write_loop_pings)
qed

text \<open>
  C23: A session whose other side falls silent ends: after a receive that fails, or takes more than
  45 s, or never ends, the read loop is over, its connection is no longer registered, and the app is
  told; nothing that would arrive later is looked at.
\<close>

theorem silent_sessions_end:
  assumes "\<forall>x\<in>set heard. \<exists>t bytes. fst x = Some (t, Ok bytes) \<and> t \<le> session_idle_timeout \<and>
      message_decode (nl_postcard_from lib) bytes \<noteq> Ok (Bye Unpaired)"
    and "\<forall>t bytes. received = Some (t, Ok bytes) \<longrightarrow> session_idle_timeout < t"
  shows "let nd' = fst (read_loop lib d cid (heard @ (received, env) # later) nd) in
    (d, cid) \<notin> set (nd_reading nd') \<and> (\<forall>c. map_of (nd_conns nd') d = Some c \<longrightarrow> cn_id c \<noteq> cid) \<and>
    read_loop lib d cid (heard @ (received, env) # later) nd = read_loop lib d cid (heard @ [(received, env)]) nd \<and>
    last (snd (read_loop lib d cid (heard @ (received, env) # later) nd)) = Emit PeersChanged"
proof -
  have last: "read_loop lib d cid ((received, env) # rest) nd = session_ended d cid (ne_now env) nd" for nd rest
    using assms(2) by (auto simp: within_def split: option.split sum.split)
  have run: "\<exists>nd' eff. read_loop lib d cid (heard @ (received, env) # rest) nd =
      (fst (session_ended d cid (ne_now env) nd'), eff @ [Emit PeersChanged])
    \<and> (\<forall>rest. read_loop lib d cid (heard @ (received, env) # rest) nd =
      (fst (session_ended d cid (ne_now env) nd'), eff @ [Emit PeersChanged]))" for rest nd
    using assms(1)
  proof (induction heard arbitrary: nd)
    case Nil
    show ?case by (auto simp: last session_ended_def simp del: read_loop.simps)
  next
    case (Cons x heard)
    obtain r envx where x: "x = (r, envx)" by (cases x)
    with Cons.prems obtain t bytes where r: "r = Some (t, Ok bytes)" "t \<le> session_idle_timeout"
      "message_decode (nl_postcard_from lib) bytes \<noteq> Ok (Bye Unpaired)" by auto
    obtain nd1 eff1 where msg: "on_message lib envx d cid bytes nd = (nd1, eff1)" by fastforce
    from Cons.IH [of nd1] Cons.prems obtain nd' eff where
      "\<forall>rest. read_loop lib d cid (heard @ (received, env) # rest) nd1 =
        (fst (session_ended d cid (ne_now env) nd'), eff @ [Emit PeersChanged])" by auto
    with x r msg have "\<forall>rest. read_loop lib d cid ((x # heard) @ (received, env) # rest) nd =
        (fst (session_ended d cid (ne_now env) nd'), (eff1 @ eff) @ [Emit PeersChanged])"
      by (simp add: within_def)
    then show ?case by blast
  qed
  have gone: "\<not> (map_of (nd_conns (fst (session_ended d cid now nd'))) d = Some c \<and> cn_id c = cid)"
    for now nd' c
    by (auto simp: session_ended_def unregister_def delete_conv split: option.splits if_splits)
  from run [where rest = later and nd = nd] obtain nd' eff where
    all: "\<And>rest. read_loop lib d cid (heard @ (received, env) # rest) nd =
      (fst (session_ended d cid (ne_now env) nd'), eff @ [Emit PeersChanged])" by blast
  show ?thesis
    unfolding all [of later] all [of "[]"] using gone by (auto simp: Let_def)
qed

text \<open>
  The idle timeout covers a whole message. One that takes more than 45 s to arrive, although its
  bytes keep coming, ends the session: its item is lost, and what was on its way behind it too.
\<close>

theorem slow_transfers_are_cut_off:
  assumes "session_idle_timeout < t"
  shows "read_loop lib d cid ((Some (t, Ok bytes), env) # later) nd
         = (fst (session_ended d cid (ne_now env) nd), [Emit PeersChanged])"
  using assms by (simp add: within_def session_ended_def)

text \<open>
  C38: A session that stalls after its handshake is never given up. Nothing limits the exchange of
  hellos: if the other side never sends its own, the dial task never ends; and as long as it has
  not, no other dial task for that device does anything, whatever else happens to the node.
\<close>

theorem stalled_hello_blocks_dialing:
  assumes "d \<in> set (nd_dialing nd)" and "\<forall>e\<in>set es. \<forall>ok. fst e \<noteq> NDialEnd d ok"
    and "within handshake_timeout shake = Some (t, Ok cipher)" and "hello_received cipher = None"
  shows "dial_session postcard_from d (Some (t', Ok ())) shake hello_sent hello_received = None \<and>
    (let nd' = foldl (\<lambda>nd e. fst (node_step lib nd e)) nd es in dial_start d now nd' = (None, nd'))"
proof -
  have "dial_session postcard_from d (Some (t', Ok ())) shake hello_sent hello_received = None"
    using assms(3,4) by (simp add: dial_session_def await_then_def hellos_timed_def split: option.split)
  with dialing_run [OF assms(1,2), of lib] show ?thesis
    by (simp add: dial_start_def Let_def)
qed

section \<open>Witnesses\<close>

definition ping_lib :: node_lib where
  "ping_lib = example_lib\<lparr>nl_postcard_from := \<lambda>_. Some Ping\<rparr>"

definition session_node :: node where
  "session_node = example_node\<lparr>nd_reading := [(DeviceId 2, 1)]\<rparr>"

lemma ping_lib_decode [simp]: "message_decode (nl_postcard_from ping_lib) bytes = Ok Ping"
  by (simp add: ping_lib_def message_decode_def)

theorem pings_keep_sessions_open_witness:
  "read_loop ping_lib (DeviceId 2) 1
     (map2 (\<lambda>gap bytes. (Some (gap, Ok bytes), example_now)) (ping_gaps 0 [secs 1, secs 30, 0])
        (write_loop [4] (replicate (length [secs 1, secs 30, 0]) (WriteTick, True)))) session_node
   = (session_node, [])"
  by (rule pings_keep_sessions_open) (simp_all add: session_node_def secs_def)

theorem silent_sessions_end_witness:
  "(DeviceId 2, 1) \<notin> set (nd_reading (fst (read_loop ping_lib (DeviceId 2) 1
     [(Some (secs 15, Ok [4]), example_now), (None, example_now)] session_node)))"
  using silent_sessions_end [of "[(Some (secs 15, Ok [4]), example_now)]" ping_lib None
      "DeviceId 2" 1 example_now "[]" session_node]
  by (simp add: session_idle_timeout_def secs_def Let_def)

theorem slow_transfers_are_cut_off_witness:
  "snd (read_loop text_lib (DeviceId 2) 1 [(Some (secs 46, Ok [7]), example_now)] session_node)
   = [Emit PeersChanged]"
  using slow_transfers_are_cut_off [of "secs 46" text_lib "DeviceId 2" 1 "[7]" example_now "[]" session_node]
  by (simp add: session_idle_timeout_def secs_def)

theorem stalled_hello_blocks_dialing_witness:
  "fst (dial_start (DeviceId 2) 99 (foldl (\<lambda>nd e. fst (node_step ping_lib nd e))
     (example_node\<lparr>nd_dialing := [DeviceId 2]\<rparr>)
     [(NDiscovered (DeviceId 2), example_now), (NDialStart (DeviceId 2), example_now)])) = None"
  using stalled_hello_blocks_dialing [of "DeviceId 2" "example_node\<lparr>nd_dialing := [DeviceId 2]\<rparr>"
      "[(NDiscovered (DeviceId 2), example_now), (NDialStart (DeviceId 2), example_now)]"
      "Some (0, Ok ())" 0 "()" "\<lambda>_. None" "\<lambda>_. None" 0 "\<lambda>_. Some (0, Ok ())" ping_lib 99]
  by (simp add: within_def Let_def)


end
