(* ===== verification/Tunnel.thy ===== *)
theory Tunnel
  imports Node_Api
begin

unbundle bit_operations_syntax

text \<open>
  \<open>apps/desktop/src-tauri/src/tunnel.rs\<close>: byte streams between this device and its paired devices,
  carried in frames through the relay. A tunnel's session runs in tasks of its own: what it was
  handed is \<open>tn_inbox\<close>, and what its reader task wrote waits in \<open>ts_queue\<close> until the connection
  handles it. The text of identifiers is left to the \<open>uuid\<close> crate.
\<close>

section \<open>Frames\<close>

definition kind_open :: byte where "kind_open = 1"
definition kind_data :: byte where "kind_data = 2"
definition kind_close :: byte where "kind_close = 3"
definition flag_opener :: byte where "flag_opener = 1"
definition max_data_bytes :: nat where "max_data_bytes = 64 * 1024"

record tunnel_key =
  tk_peer :: device_id
  tk_id :: u32
  tk_here :: bool

text \<open>\<open>u8::try_from(device.len())\<close> panics above 255: the texts of identifiers have 36 bytes.\<close>

definition tunnel_encode :: "(128 word \<Rightarrow> rstr) \<Rightarrow> byte \<Rightarrow> tunnel_key \<Rightarrow> byte list \<Rightarrow> byte list" where
  "tunnel_encode uuid_fmt kind key data =
     (let device = utf8 (device_id_fmt uuid_fmt (tk_peer key))
      in [kind, if tk_here key then flag_opener else 0] @ be_bytes (tk_id key)
         @ [of_nat (length device)] @ device @ data)"

definition tunnel_decode ::
  "(rstr \<Rightarrow> 128 word option) \<Rightarrow> byte list \<Rightarrow> (byte \<times> tunnel_key \<times> byte list) option" where
  "tunnel_decode uuid_parse frame =
     (case frame of
        kind # flags # a # b # c # d # len # rest \<Rightarrow>
          if kind \<notin> {kind_open, kind_data, kind_close} \<or> flags AND NOT flag_opener \<noteq> 0 then None
          else if length rest < unat len then None
          else
            (let device = take (unat len) rest;
                 data = drop (unat len) rest
             in case utf8_decode device of
                  None \<Rightarrow> None
                | Some text \<Rightarrow>
                    (case device_id_from_str uuid_parse text of
                       None \<Rightarrow> None
                     | Some peer \<Rightarrow>
                         if (if kind = kind_data then 1 \<le> length data \<and> length data \<le> max_data_bytes
                             else data = [])
                         then Some (kind, \<lparr>tk_peer = peer, tk_id = be_word [a, b, c, d],
                                           tk_here = (flags AND flag_opener = 0)\<rparr>, data)
                         else None))
      | _ \<Rightarrow> None)"

section \<open>The tunnels of a connection\<close>

record tunnel =
  tn_inbox :: "byte list list"
  tn_gone :: bool

record tunnels =
  ts_next :: u32
  ts_open :: "(tunnel_key \<times> tunnel) list"
  ts_queue :: "(tunnel_key \<times> byte list option) list"

datatype incoming_frame = FOpened device_id | FReply "byte list" | FNothing | FInvalid

definition tunnels_new :: tunnels where
  "tunnels_new = \<lparr>ts_next = 1, ts_open = [], ts_queue = []\<rparr>"

definition has_tunnel :: "device_id \<Rightarrow> tunnels \<Rightarrow> bool" where
  "has_tunnel d ts \<longleftrightarrow> (\<exists>k\<in>fst ` set (ts_open ts). tk_peer k = d)"

definition create_tunnel :: "tunnel_key \<Rightarrow> tunnels \<Rightarrow> tunnels" where
  "create_tunnel key ts = ts\<lparr>ts_open := AList.update key \<lparr>tn_inbox = [], tn_gone = False\<rparr> (ts_open ts)\<rparr>"

definition remove_tunnel :: "tunnel_key \<Rightarrow> tunnels \<Rightarrow> tunnels" where
  "remove_tunnel key ts = ts\<lparr>ts_open := AList.delete key (ts_open ts)\<rparr>"

definition open_tunnel :: "(128 word \<Rightarrow> rstr) \<Rightarrow> device_id \<Rightarrow> tunnels \<Rightarrow> byte list \<times> tunnels" where
  "open_tunnel uuid_fmt d ts =
     (let key = \<lparr>tk_peer = d, tk_id = ts_next ts, tk_here = True\<rparr>;
          ts = ts\<lparr>ts_next := ts_next ts + 1\<rparr>
      in (tunnel_encode uuid_fmt kind_open key [], create_tunnel key ts))"

definition on_pumped ::
  "(128 word \<Rightarrow> rstr) \<Rightarrow> tunnel_key \<times> byte list option \<Rightarrow> tunnels \<Rightarrow> byte list option \<times> tunnels" where
  "on_pumped uuid_fmt p ts =
     (let (key, data) = p
      in if map_of (ts_open ts) key = None then (None, ts)
         else case data of
                Some bytes \<Rightarrow> (Some (tunnel_encode uuid_fmt kind_data key bytes), ts)
              | None \<Rightarrow> (Some (tunnel_encode uuid_fmt kind_close key []), remove_tunnel key ts))"

definition on_frame ::
  "(128 word \<Rightarrow> rstr) \<Rightarrow> (rstr \<Rightarrow> 128 word option) \<Rightarrow> byte list \<Rightarrow> tunnels \<Rightarrow> incoming_frame \<times> tunnels" where
  "on_frame uuid_fmt uuid_parse frame ts =
     (case tunnel_decode uuid_parse frame of
        None \<Rightarrow> (FInvalid, ts)
      | Some (kind, key, data) \<Rightarrow>
          if kind = kind_open then
            (if tk_here key then (FInvalid, ts)
             else (FOpened (tk_peer key), create_tunnel key (remove_tunnel key ts)))
          else if kind = kind_data then
            (case map_of (ts_open ts) key of
               Some t \<Rightarrow>
                 if tn_gone t then (FReply (tunnel_encode uuid_fmt kind_close key []), remove_tunnel key ts)
                 else (FNothing,
                       ts\<lparr>ts_open := AList.update key (t\<lparr>tn_inbox := tn_inbox t @ [data]\<rparr>) (ts_open ts)\<rparr>)
             | None \<Rightarrow> (FReply (tunnel_encode uuid_fmt kind_close key []), remove_tunnel key ts))
          else (FNothing, remove_tunnel key ts))"

text \<open>The device a session is accepted from, and the frame to send back.\<close>

definition tunnels_receive ::
  "(128 word \<Rightarrow> rstr) \<Rightarrow> (rstr \<Rightarrow> 128 word option) \<Rightarrow> bool \<Rightarrow> byte list \<Rightarrow> tunnels
   \<Rightarrow> device_id option \<times> byte list option \<times> tunnels" where
  "tunnels_receive uuid_fmt uuid_parse has_node frame ts =
     (case on_frame uuid_fmt uuid_parse frame ts of
        (FOpened d, ts) \<Rightarrow> (if has_node then Some d else None, None, ts)
      | (FReply reply, ts) \<Rightarrow> (None, Some reply, ts)
      | (FNothing, ts) \<Rightarrow> (None, None, ts)
      | (FInvalid, ts) \<Rightarrow> (None, None, ts))"

text \<open>Opening tunnels to the paired devices this device should connect to: devices and frames.\<close>

fun dial_peers ::
  "(128 word \<Rightarrow> rstr) \<Rightarrow> nat \<Rightarrow> node \<Rightarrow> device_id list \<Rightarrow> tunnels
   \<Rightarrow> (device_id \<times> byte list) list \<times> tunnels" where
  "dial_peers uuid_fmt now nd [] ts = ([], ts)"
| "dial_peers uuid_fmt now nd (d # ds) ts =
     (if has_tunnel d ts \<or> \<not> should_connect now d nd then dial_peers uuid_fmt now nd ds ts
      else let (frame, ts) = open_tunnel uuid_fmt d ts;
               (more, ts) = dial_peers uuid_fmt now nd ds ts
           in ((d, frame) # more, ts))"

definition tunnels_dial ::
  "(128 word \<Rightarrow> rstr) \<Rightarrow> nat \<Rightarrow> node \<Rightarrow> tunnels \<Rightarrow> (device_id \<times> byte list) list \<times> tunnels" where
  "tunnels_dial uuid_fmt now nd ts = dial_peers uuid_fmt now nd (map pst_id (peer_statuses nd)) ts"

text \<open>Pairing attempts, one through a new tunnel for each device that is not paired yet.\<close>

fun open_unpaired ::
  "(128 word \<Rightarrow> rstr) \<Rightarrow> (rstr \<Rightarrow> 128 word option) \<Rightarrow> device_id list \<Rightarrow> rstr list \<Rightarrow> tunnels
   \<Rightarrow> (device_id \<times> byte list) list \<times> tunnels" where
  "open_unpaired uuid_fmt uuid_parse paired [] ts = ([], ts)"
| "open_unpaired uuid_fmt uuid_parse paired (text # texts) ts =
     (case device_id_from_str uuid_parse text of
        None \<Rightarrow> open_unpaired uuid_fmt uuid_parse paired texts ts
      | Some d \<Rightarrow>
          if d \<in> set paired then open_unpaired uuid_fmt uuid_parse paired texts ts
          else let (frame, ts) = open_tunnel uuid_fmt d ts;
                   (more, ts) = open_unpaired uuid_fmt uuid_parse paired texts ts
               in ((d, frame) # more, ts))"

definition tunnels_pair ::
  "(128 word \<Rightarrow> rstr) \<Rightarrow> (rstr \<Rightarrow> 128 word option) \<Rightarrow> rstr list \<Rightarrow> node \<Rightarrow> tunnels
   \<Rightarrow> (device_id \<times> byte list) list \<times> tunnels" where
  "tunnels_pair uuid_fmt uuid_parse devices nd ts =
     open_unpaired uuid_fmt uuid_parse (map pst_id (peer_statuses nd)) devices ts"

text \<open>
  The outcome of the attempts in the order they end; \<open>None\<close> is an attempt whose task failed, \<open>msg\<close>
  the text of an error.
\<close>

fun pair_results :: "(lan_error \<Rightarrow> string) \<Rightarrow> string option \<Rightarrow> peer_status lan_result option list \<Rightarrow> string + rstr" where
  "pair_results msg failure [] =
     Inl (case failure of
            Some text \<Rightarrow> text
          | None \<Rightarrow> ''No device on this account is showing a pairing code. On the other device, choose \"Show my code\".'')"
| "pair_results msg failure (Some (Inr peer) # rs) = Inr (pst_name peer)"
| "pair_results msg failure (Some (Inl e) # rs) =
     (if e = NotPairing then pair_results msg failure rs else pair_results msg (Some (msg e)) rs)"
| "pair_results msg failure (None # rs) = pair_results msg failure rs"

definition pair_outcome ::
  "(lan_error \<Rightarrow> string) \<Rightarrow> device_id list \<Rightarrow> peer_status lan_result option list \<Rightarrow> string + rstr" where
  "pair_outcome msg attempts results =
     (if attempts = []
      then Inl ''No other device signed in to this account is connected to the relay. Open Cled there, choose Relay, and sign in.''
      else pair_results msg None results)"

section \<open>Runs\<close>

text \<open>
  What happens to the tunnels of a connection: a frame arrives, a tunnel is opened, a session writes
  (at most 64 KiB at a time) or closes its end, a session's reading end goes away, and the connection
  handles the oldest thing a session wrote. The reader task of a tunnel ends with the tunnel.
\<close>

datatype tunnel_event =
    TFrame "byte list"
  | TOpen device_id
  | TWrote tunnel_key "byte list"
  | TEnded tunnel_key
  | TGone tunnel_key
  | THandle

fun tunnel_step ::
  "(128 word \<Rightarrow> rstr) \<Rightarrow> (rstr \<Rightarrow> 128 word option) \<Rightarrow> tunnels \<Rightarrow> tunnel_event \<Rightarrow> byte list list \<times> tunnels" where
  "tunnel_step f p ts (TFrame frame) =
     (let (_, reply, ts) = tunnels_receive f p True frame ts
      in (case reply of Some bytes \<Rightarrow> [bytes] | None \<Rightarrow> [], ts))"
| "tunnel_step f p ts (TOpen d) = (let (frame, ts) = open_tunnel f d ts in ([frame], ts))"
| "tunnel_step f p ts (TWrote key bytes) =
     ([], if map_of (ts_open ts) key \<noteq> None \<and> 1 \<le> length bytes \<and> length bytes \<le> max_data_bytes
          then ts\<lparr>ts_queue := ts_queue ts @ [(key, Some bytes)]\<rparr> else ts)"
| "tunnel_step f p ts (TEnded key) =
     ([], if map_of (ts_open ts) key \<noteq> None then ts\<lparr>ts_queue := ts_queue ts @ [(key, None)]\<rparr> else ts)"
| "tunnel_step f p ts (TGone key) =
     ([], case map_of (ts_open ts) key of
            Some t \<Rightarrow> ts\<lparr>ts_open := AList.update key (t\<lparr>tn_gone := True\<rparr>) (ts_open ts)\<rparr>
          | None \<Rightarrow> ts)"
| "tunnel_step f p ts THandle =
     (case ts_queue ts of
        [] \<Rightarrow> ([], ts)
      | q # qs \<Rightarrow>
          (let (frame, ts) = on_pumped f q (ts\<lparr>ts_queue := qs\<rparr>)
           in (case frame of Some bytes \<Rightarrow> [bytes] | None \<Rightarrow> [], ts)))"

definition tunnel_after :: "(128 word \<Rightarrow> rstr) \<Rightarrow> (rstr \<Rightarrow> 128 word option) \<Rightarrow> tunnels \<Rightarrow> tunnel_event \<Rightarrow> tunnels" where
  "tunnel_after f p ts e = snd (tunnel_step f p ts e)"

section \<open>Frames name one tunnel\<close>

text \<open>What the \<open>uuid\<close> crate promises: the text of an identifier is short and reads back.\<close>

definition uuid_codec :: "(128 word \<Rightarrow> rstr) \<Rightarrow> (rstr \<Rightarrow> 128 word option) \<Rightarrow> bool" where
  "uuid_codec f p \<longleftrightarrow>
     (\<forall>u. valid_str (f u) \<and> length (utf8 (f u)) < 256 \<and> p (trim (f u)) = Some u)"

lemma kinds_differ [simp]:
  "kind_open \<noteq> kind_data" "kind_data \<noteq> kind_open" "kind_data \<noteq> kind_close" "kind_close \<noteq> kind_data"
  "kind_open \<noteq> kind_close" "kind_close \<noteq> kind_open"
  by (simp_all add: kind_open_def kind_data_def kind_close_def)

lemma flag_opener_simps [simp]:
  "flag_opener \<noteq> 0" "flag_opener AND NOT flag_opener = 0" "flag_opener AND flag_opener = flag_opener"
  by (simp_all add: flag_opener_def)

lemma be_bytes_u32:
  obtains a b c d where "be_bytes (w :: u32) = [a, b, c, d]"
proof -
  have "length (be_bytes w) = 4" by (simp add: length_be_bytes)
  with that show ?thesis by (auto simp: length_Suc_conv numeral_eq_Suc)
qed

lemma uuid_codec_unat:
  "uuid_codec f p \<Longrightarrow> unat (of_nat (length (utf8 (device_id_fmt f d))) :: byte) = length (utf8 (device_id_fmt f d))"
  by (simp add: uuid_codec_def device_id_fmt_def unat_of_nat)

lemma tunnel_decode_encode:
  assumes "uuid_codec f p" and "kind \<in> {kind_open, kind_data, kind_close}"
    and "if kind = kind_data then 1 \<le> length data \<and> length data \<le> max_data_bytes else data = []"
  shows "tunnel_decode p (tunnel_encode f kind key data) = Some (kind, key\<lparr>tk_here := \<not> tk_here key\<rparr>, data)"
proof -
  obtain a b c d where id: "be_bytes (tk_id key) = [a, b, c, d]" by (rule be_bytes_u32)
  have "be_word [a, b, c, d] = tk_id key"
    unfolding id [symmetric] by (rule be_word_be_bytes) simp
  moreover have "utf8_decode (utf8 (device_id_fmt f (tk_peer key))) = Some (device_id_fmt f (tk_peer key))"
    "device_id_from_str p (device_id_fmt f (tk_peer key)) = Some (tk_peer key)"
    using assms(1) by (simp_all add: uuid_codec_def device_id_fmt_def utf8_decode_utf8 device_id_from_str_def)
  ultimately show ?thesis
    using assms(2,3) uuid_codec_unat [OF assms(1), of "tk_peer key"]
    by (auto simp: tunnel_encode_def tunnel_decode_def Let_def id simp del: of_nat_numeral)
qed

lemma tunnel_encode_inject:
  assumes "uuid_codec f p"
  shows "tunnel_encode f kind key data = tunnel_encode f kind' key' data' \<longleftrightarrow>
    kind = kind' \<and> key = key' \<and> data = data'"
proof
  assume eq: "tunnel_encode f kind key data = tunnel_encode f kind' key' data'"
  let ?d = "utf8 (device_id_fmt f (tk_peer key))" and ?d' = "utf8 (device_id_fmt f (tk_peer key'))"
  have "length (be_bytes (tk_id key)) = 4" "length (be_bytes (tk_id key')) = 4"
    by (simp_all add: length_be_bytes)
  with eq have parts: "kind = kind'" "tk_here key = tk_here key'" "be_bytes (tk_id key) = be_bytes (tk_id key')"
    "(of_nat (length ?d) :: byte) = of_nat (length ?d')" "?d @ data = ?d' @ data'"
    by (auto simp: tunnel_encode_def Let_def split: if_splits)
  then have id: "tk_id key = tk_id key'" by (simp add: be_bytes_inject)
  have "length ?d = length ?d'"
    using parts(4) uuid_codec_unat [OF assms] by metis
  with parts(5) have "?d = ?d'" and data: "data = data'" by simp_all
  then have "device_id_fmt f (tk_peer key) = device_id_fmt f (tk_peer key')"
    using assms by (simp add: uuid_codec_def device_id_fmt_def utf8_inject)
  then have "p (trim (f (device_uuid (tk_peer key)))) = p (trim (f (device_uuid (tk_peer key'))))"
    by (simp add: device_id_fmt_def)
  then have "tk_peer key = tk_peer key'"
    using assms by (simp add: uuid_codec_def device_id.expand)
  with parts id data show "kind = kind' \<and> key = key' \<and> data = data'"
    by (simp add: tunnel_key.equality)
qed simp

section \<open>A tunnel that is not opened again\<close>

text \<open>
  In the rest of the run nothing opens the tunnel (again): the other side sends no \<open>open\<close> for it, and
  if it was opened here, the counter of identifiers does not wrap around to it.
\<close>

fun is_topen :: "tunnel_event \<Rightarrow> bool" where
  "is_topen (TOpen _) = True"
| "is_topen _ = False"

definition opened_once ::
  "(rstr \<Rightarrow> 128 word option) \<Rightarrow> tunnel_key \<Rightarrow> tunnels \<Rightarrow> tunnel_event list \<Rightarrow> bool" where
  "opened_once p key ts es \<longleftrightarrow>
     (if tk_here key
      then unat (tk_id key) < unat (ts_next ts) \<and> unat (ts_next ts) + length (filter is_topen es) < 2 ^ 32
      else \<forall>frame d. TFrame frame \<in> set es \<longrightarrow> tunnel_decode p frame \<noteq> Some (kind_open, key, d))"

text \<open>What one event hands to the session of a tunnel.\<close>

definition tunnel_data :: "(rstr \<Rightarrow> 128 word option) \<Rightarrow> tunnel_key \<Rightarrow> tunnel_event \<Rightarrow> byte list list" where
  "tunnel_data p key e =
     (case e of
        TFrame frame \<Rightarrow>
          (case tunnel_decode p frame of
             Some (kind, key', data) \<Rightarrow> if kind = kind_data \<and> key' = key then [data] else []
           | None \<Rightarrow> [])
      | _ \<Rightarrow> [])"

lemma ts_next_after:
  "ts_next (tunnel_after f p ts e) = (if is_topen e then ts_next ts + 1 else ts_next ts)"
  by (cases e)
    (auto simp: tunnel_after_def tunnels_receive_def on_frame_def open_tunnel_def create_tunnel_def
      remove_tunnel_def on_pumped_def Let_def case_prod_beta
      split: list.split option.splits incoming_frame.splits)

lemma opened_once_next:
  assumes "opened_once p key ts (e # es)"
  shows "opened_once p key (tunnel_after f p ts e) es"
proof (cases "tk_here key \<and> is_topen e")
  case True
  with assms have "unat (ts_next ts) + 1 < 2 ^ 32"
    by (simp add: opened_once_def)
  then have "unat (ts_next ts + 1) = unat (ts_next ts) + 1"
    by (simp add: unat_word_ariths)
  with True assms show ?thesis by (simp add: opened_once_def ts_next_after)
next
  case False
  with assms show ?thesis by (auto simp: opened_once_def ts_next_after split: if_splits)
qed

lemmas tunnel_ops = create_tunnel_def remove_tunnel_def on_pumped_def open_tunnel_def on_frame_def
  tunnels_receive_def

text \<open>The tunnel under \<open>key\<close> after an event, \<open>None\<close> when it is not open.\<close>

lemma tunnel_after_frame:
  "map_of (ts_open (tunnel_after f p ts (TFrame frame))) key =
     (case tunnel_decode p frame of
        Some (kind, key', data) \<Rightarrow>
          if key' \<noteq> key then map_of (ts_open ts) key
          else if kind = kind_open then
            (if tk_here key then map_of (ts_open ts) key else Some \<lparr>tn_inbox = [], tn_gone = False\<rparr>)
          else if kind = kind_data then
            (case map_of (ts_open ts) key of
               Some t \<Rightarrow> if tn_gone t then None else Some (t\<lparr>tn_inbox := tn_inbox t @ [data]\<rparr>)
             | None \<Rightarrow> None)
          else None
      | None \<Rightarrow> map_of (ts_open ts) key)"
  by (cases "tunnel_decode p frame")
    (auto simp: tunnel_after_def tunnel_ops Let_def simp del: map_of_eq_Some_iff
      split: prod.split option.split)

lemma tunnel_after_other:
  "map_of (ts_open (tunnel_after f p ts (TOpen d))) key =
     (if key = \<lparr>tk_peer = d, tk_id = ts_next ts, tk_here = True\<rparr> then Some \<lparr>tn_inbox = [], tn_gone = False\<rparr>
      else map_of (ts_open ts) key)"
  "map_of (ts_open (tunnel_after f p ts (TWrote k bytes))) key = map_of (ts_open ts) key"
  "map_of (ts_open (tunnel_after f p ts (TEnded k))) key = map_of (ts_open ts) key"
  "map_of (ts_open (tunnel_after f p ts (TGone k))) key =
     (if k = key then map_option (\<lambda>t. t\<lparr>tn_gone := True\<rparr>) (map_of (ts_open ts) key)
      else map_of (ts_open ts) key)"
  "map_of (ts_open (tunnel_after f p ts THandle)) key =
     (if ts_queue ts \<noteq> [] \<and> hd (ts_queue ts) = (key, None) then None else map_of (ts_open ts) key)"
  by (auto simp: tunnel_after_def tunnel_ops Let_def case_prod_beta simp del: map_of_eq_Some_iff
      split: list.split option.split)

lemma closed_stays_closed_step:
  assumes "opened_once p key ts (e # es)" and "map_of (ts_open ts) key = None"
  shows "map_of (ts_open (tunnel_after f p ts e)) key = None"
  using assms
  by (cases e)
    (auto simp: tunnel_after_frame tunnel_after_other opened_once_def simp del: map_of_eq_Some_iff
      split: option.splits if_splits)

lemma inbox_step:
  assumes "opened_once p key ts (e # es)" and "map_of (ts_open ts) key = Some t"
    and "map_of (ts_open (tunnel_after f p ts e)) key = Some t'"
  shows "tn_inbox t' = tn_inbox t @ tunnel_data p key e"
  using assms
  by (cases e)
    (auto simp: tunnel_after_frame tunnel_after_other opened_once_def tunnel_data_def
      simp del: map_of_eq_Some_iff split: option.splits if_splits prod.splits)

lemma closed_stays_closed:
  assumes "opened_once p key ts es" and "map_of (ts_open ts) key = None"
  shows "map_of (ts_open (foldl (tunnel_after f p) ts es)) key = None"
  using assms
proof (induction es arbitrary: ts)
  case (Cons e es)
  from Cons.IH [OF opened_once_next [OF Cons.prems(1)] closed_stays_closed_step [OF Cons.prems]]
  show ?case by simp
qed simp

text \<open>The frames a run sends, in order.\<close>

fun tunnel_sent ::
  "(128 word \<Rightarrow> rstr) \<Rightarrow> (rstr \<Rightarrow> 128 word option) \<Rightarrow> tunnels \<Rightarrow> tunnel_event list \<Rightarrow> byte list list" where
  "tunnel_sent f p ts [] = []"
| "tunnel_sent f p ts (e # es) = fst (tunnel_step f p ts e) @ tunnel_sent f p (tunnel_after f p ts e) es"

lemma data_needs_open:
  assumes "uuid_codec f p" and "tunnel_encode f kind_data key bytes \<in> set (fst (tunnel_step f p ts e))"
  shows "map_of (ts_open ts) key \<noteq> None"
  using assms(2) tunnel_encode_inject [OF assms(1)]
  by (cases e)
    (auto simp: tunnel_ops Let_def case_prod_beta simp del: map_of_eq_Some_iff
      split: list.splits option.splits if_splits prod.splits)

section \<open>A codec of identifiers\<close>

text \<open>Binary digits, for examples: they satisfy what is asked of the \<open>uuid\<close> crate.\<close>

definition bits_fmt :: "128 word \<Rightarrow> rstr" where
  "bits_fmt u = map (\<lambda>i. if bit u i then 49 else 48) [0..<128]"

definition bits_parse :: "rstr \<Rightarrow> 128 word option" where
  "bits_parse s = Some (horner_sum of_bool 2 (map (\<lambda>c. c = 49) s))"

lemma trim_id: "\<forall>c\<in>set s. \<not> is_whitespace c \<Longrightarrow> trim s = s"
proof -
  assume *: "\<forall>c\<in>set s. \<not> is_whitespace c"
  then have "dropWhile is_whitespace s = s" "dropWhile is_whitespace (rev s) = rev s"
    by (auto simp: dropWhile_eq_self_iff hd_rev)
  then show ?thesis by (simp add: trim_def trim_end_def)
qed

lemma bits_codec: "uuid_codec bits_fmt bits_parse"
proof -
  have "length (utf8 (bits_fmt u)) < 256" for u
    by (subst utf8_ascii) (auto simp: bits_fmt_def)
  moreover have "valid_str (bits_fmt u)" for u
    by (auto simp: valid_str_def bits_fmt_def is_scalar_def)
  moreover have "bits_parse (trim (bits_fmt u)) = Some u" for u
  proof -
    have "trim (bits_fmt u) = bits_fmt u"
      by (rule trim_id) (auto simp: bits_fmt_def is_whitespace_def)
    moreover have "map (\<lambda>c. c = 49) (bits_fmt u) = map (bit u) [0..<128]"
      by (simp add: bits_fmt_def)
    moreover have "horner_sum of_bool 2 (map (bit u) [0..<128]) = u"
      by (simp add: horner_sum_bit_eq_take_bit take_bit_length_eq [where 'a = 128, simplified])
    ultimately show ?thesis
      by (simp only: bits_parse_def)
  qed
  ultimately show ?thesis by (simp add: uuid_codec_def)
qed

section \<open>Properties\<close>

text \<open>
  A frame names one tunnel, seen from the two sides: decoding an encoded frame gives its kind and
  data back, and the same tunnel as the other side has it, opened there if it was opened here.
  Distinct frames have distinct bytes.
\<close>

theorem tunnel_frames_round_trip:
  assumes "uuid_codec f p" and "kind \<in> {kind_open, kind_data, kind_close}"
    and "if kind = kind_data then 1 \<le> length data \<and> length data \<le> max_data_bytes else data = []"
  shows "tunnel_decode p (tunnel_encode f kind key data) = Some (kind, key\<lparr>tk_here := \<not> tk_here key\<rparr>, data)
    \<and> (tunnel_encode f kind key data = tunnel_encode f kind' key' data'
        \<longleftrightarrow> kind = kind' \<and> key = key' \<and> data = data')"
  using tunnel_decode_encode [OF assms] tunnel_encode_inject [OF assms(1)] by blast

text \<open>
  C20: A tunnel is an ordered stream. While it stays open its session is handed exactly the data frames
  of that tunnel, complete and in order, whatever happens to other tunnels in between.
\<close>

theorem tunnel_delivers_in_order:
  assumes "opened_once p key ts es" and "map_of (ts_open ts) key = Some t"
    and "map_of (ts_open (foldl (tunnel_after f p) ts es)) key = Some t'"
  shows "tn_inbox t' = tn_inbox t @ concat (map (tunnel_data p key) es)"
  using assms
proof (induction es arbitrary: ts t)
  case (Cons e es)
  note once = opened_once_next [OF Cons.prems(1), of f]
  show ?case
  proof (cases "map_of (ts_open (tunnel_after f p ts e)) key")
    case None
    from closed_stays_closed [OF once None, of f] Cons.prems(3) show ?thesis by simp
  next
    case (Some u)
    from Cons.IH [OF once Some] inbox_step [OF Cons.prems(1,2) Some] Cons.prems(3)
    show ?thesis by simp
  qed
qed simp

text \<open>
  A closed tunnel is over. Once a tunnel is closed and not opened again, this device sends no data
  for it any more, whatever its session still had written, and it stays closed.
\<close>

theorem closed_tunnel_sends_nothing:
  assumes "uuid_codec f p" and "opened_once p key ts es" and "map_of (ts_open ts) key = None"
  shows "map_of (ts_open (foldl (tunnel_after f p) ts es)) key = None
    \<and> tunnel_encode f kind_data key bytes \<notin> set (tunnel_sent f p ts es)"
  using assms(2,3)
proof (induction es arbitrary: ts)
  case (Cons e es)
  from Cons.IH [OF opened_once_next [OF Cons.prems(1)] closed_stays_closed_step [OF Cons.prems]]
    data_needs_open [OF assms(1), of key bytes ts e] Cons.prems(2)
  show ?case by auto
qed simp

theorem tunnel_frames_round_trip_witness:
  "tunnel_decode bits_parse (tunnel_encode bits_fmt kind_data \<lparr>tk_peer = DeviceId 3, tk_id = 7, tk_here = True\<rparr> [1, 2])
   = Some (kind_data, \<lparr>tk_peer = DeviceId 3, tk_id = 7, tk_here = False\<rparr>, [1, 2])"
  using tunnel_frames_round_trip [OF bits_codec, of kind_data "[1, 2]"
      "\<lparr>tk_peer = DeviceId 3, tk_id = 7, tk_here = True\<rparr>"]
  by (simp add: max_data_bytes_def)

definition example_key :: tunnel_key where
  "example_key = \<lparr>tk_peer = DeviceId 3, tk_id = 7, tk_here = False\<rparr>"

definition example_frame :: "byte \<Rightarrow> byte list \<Rightarrow> byte list" where
  "example_frame kind data = tunnel_encode bits_fmt kind (example_key\<lparr>tk_here := True\<rparr>) data"

lemma decode_example_frame:
  assumes "kind \<in> {kind_open, kind_data, kind_close}"
    and "if kind = kind_data then 1 \<le> length data \<and> length data \<le> max_data_bytes else data = []"
  shows "tunnel_decode bits_parse (example_frame kind data) = Some (kind, example_key, data)"
  using tunnel_decode_encode [OF bits_codec assms] by (simp add: example_frame_def example_key_def)

lemma decode_example_data: "tunnel_decode bits_parse (example_frame kind_data [1, 2]) = Some (kind_data, example_key, [1, 2])"
  by (rule decode_example_frame) (simp_all add: max_data_bytes_def)

lemma decode_example_open: "tunnel_decode bits_parse (example_frame kind_open []) = Some (kind_open, example_key, [])"
  by (rule decode_example_frame) simp_all

lemma example_key_there [simp]: "\<not> tk_here example_key"
  by (simp add: example_key_def)

theorem tunnel_delivers_in_order_witness:
  "\<exists>t. map_of (ts_open (foldl (tunnel_after bits_fmt bits_parse)
       (create_tunnel example_key tunnels_new) [TOpen (DeviceId 3), TFrame (example_frame kind_data [1, 2])])) example_key
     = Some t \<and> tn_inbox t = [[1, 2]]"
proof -
  let ?ts = "create_tunnel example_key tunnels_new"
  let ?es = "[TOpen (DeviceId 3), TFrame (example_frame kind_data [1, 2])]"
  have "opened_once bits_parse example_key ?ts ?es"
    by (auto simp: opened_once_def decode_example_data)
  moreover have start: "map_of (ts_open ?ts) example_key = Some \<lparr>tn_inbox = [], tn_gone = False\<rparr>"
    by (simp add: create_tunnel_def)
  moreover obtain t where t: "map_of (ts_open (foldl (tunnel_after bits_fmt bits_parse) ?ts ?es)) example_key = Some t"
    using start by (auto simp: tunnel_after_frame tunnel_after_other decode_example_data simp del: map_of_eq_Some_iff)
  ultimately have "tn_inbox t = [] @ concat (map (tunnel_data bits_parse example_key) ?es)"
    using tunnel_delivers_in_order by fastforce
  with t show ?thesis by (simp add: tunnel_data_def decode_example_data del: foldl_Cons map_of_eq_Some_iff)
qed

theorem closed_tunnel_sends_nothing_witness:
  "tunnel_encode bits_fmt kind_data example_key [9]
   \<notin> set (tunnel_sent bits_fmt bits_parse tunnels_new [TFrame (example_frame kind_data [1, 2]), THandle])"
proof -
  have "opened_once bits_parse example_key tunnels_new [TFrame (example_frame kind_data [1, 2]), THandle]"
    by (auto simp: opened_once_def decode_example_data)
  with closed_tunnel_sends_nothing [OF bits_codec, of example_key tunnels_new
      "[TFrame (example_frame kind_data [1, 2]), THandle]" "[9]"]
  show ?thesis by (simp add: tunnels_new_def)
qed

text \<open>
  A tunnel opened here never takes over another one: in any run of a connection with fewer than
  \<open>2 ^ 32 - 1\<close> openings the identifier of the next tunnel is not in use.
\<close>

theorem new_tunnels_have_fresh_identifiers:
  assumes "length (filter is_topen es) < 2 ^ 32 - 1"
  shows "map_of (ts_open (foldl (tunnel_after f p) tunnels_new es))
    \<lparr>tk_peer = d, tk_id = ts_next (foldl (tunnel_after f p) tunnels_new es), tk_here = True\<rparr> = None"
proof -
  have "unat (ts_next (foldl (tunnel_after f p) tunnels_new es)) = Suc (length (filter is_topen es))
    \<and> (\<forall>k t. map_of (ts_open (foldl (tunnel_after f p) tunnels_new es)) k = Some t \<longrightarrow> tk_here k
        \<longrightarrow> unat (tk_id k) < unat (ts_next (foldl (tunnel_after f p) tunnels_new es)))"
    using assms
  proof (induction es rule: rev_induct)
    case Nil
    then show ?case by (simp add: tunnels_new_def)
  next
    case (snoc e es)
    let ?ts = "foldl (tunnel_after f p) tunnels_new es"
    have IH: "unat (ts_next ?ts) = Suc (length (filter is_topen es))"
      "\<And>k t. map_of (ts_open ?ts) k = Some t \<Longrightarrow> tk_here k \<Longrightarrow> unat (tk_id k) < unat (ts_next ?ts)"
      using snoc by auto
    have "unat (ts_next (tunnel_after f p ?ts e)) = Suc (length (filter is_topen (es @ [e])))"
      using IH(1) snoc.prems by (auto simp: ts_next_after unat_word_ariths split: if_splits)
    note next_id = this
    have "unat (tk_id k) < unat (ts_next (tunnel_after f p ?ts e))"
      if "map_of (ts_open (tunnel_after f p ?ts e)) k = Some t" "tk_here k" for k t
    proof (cases "map_of (ts_open ?ts) k")
      case None
      with that have "is_topen e \<and> tk_id k = ts_next ?ts"
        by (cases e) (auto simp: tunnel_after_frame tunnel_after_other simp del: map_of_eq_Some_iff
            split: option.splits if_splits prod.splits)
      with next_id IH(1) show ?thesis by simp
    next
      case (Some u)
      have "unat (tk_id k) < unat (ts_next ?ts)" using IH(2) [OF Some that(2)] .
      also have "\<dots> \<le> unat (ts_next (tunnel_after f p ?ts e))" using next_id IH(1) by simp
      finally show ?thesis .
    qed
    with next_id show ?case by simp
  qed
  then show ?thesis by (metis (no_types, lifting) nat_less_le not_Some_eq tunnel_key.select_convs(2,3))
qed

text \<open>
  A replaced tunnel inherits what its predecessor left in the queue. When the other side opens a
  tunnel again under the same identity (it restarted) after the old session ended here but before
  that was handled, handling it closes the new tunnel, whose session has done nothing.
\<close>

theorem replaced_tunnel_is_closed_by_its_predecessor:
  assumes "tunnel_decode p frame = Some (kind_open, key, [])" and "\<not> tk_here key"
  shows "map_of (ts_open (foldl (tunnel_after f p) tunnels_new [TFrame frame, TEnded key, TFrame frame])) key
      = Some \<lparr>tn_inbox = [], tn_gone = False\<rparr>
    \<and> map_of (ts_open (foldl (tunnel_after f p) tunnels_new [TFrame frame, TEnded key, TFrame frame, THandle])) key
      = None
    \<and> tunnel_sent f p tunnels_new [TFrame frame, TEnded key, TFrame frame, THandle]
      = [tunnel_encode f kind_close key []]"
  using assms by (simp add: tunnel_after_def tunnel_ops tunnels_new_def Let_def)

theorem replaced_tunnel_is_closed_by_its_predecessor_witness:
  "map_of (ts_open (foldl (tunnel_after bits_fmt bits_parse) tunnels_new
     [TFrame (example_frame kind_open []), TEnded example_key, TFrame (example_frame kind_open []), THandle])) example_key
   = None"
  using replaced_tunnel_is_closed_by_its_predecessor [OF decode_example_open example_key_there] by blast

theorem new_tunnels_have_fresh_identifiers_witness:
  "map_of (ts_open (foldl (tunnel_after bits_fmt bits_parse) tunnels_new [TOpen (DeviceId 3)]))
     \<lparr>tk_peer = DeviceId 3, tk_id = ts_next (foldl (tunnel_after bits_fmt bits_parse) tunnels_new [TOpen (DeviceId 3)]),
      tk_here = True\<rparr> = None"
  by (rule new_tunnels_have_fresh_identifiers) simp

end
