(* ===== verification/Settings.thy ===== *)
theory Settings
  imports Rust_Text
begin

text \<open>
  \<open>apps/desktop/src-tauri/src/settings.rs\<close>: the user's settings, their file and its atomic
  replacement. URLs are parsed by the \<open>url\<close> crate and JSON by \<open>serde_json\<close>: \<open>url_parse\<close> is an
  argument, and the files hold settings values.
\<close>

section \<open>Settings\<close>

datatype connection_mode = LanMode | RelayMode

record settings =
  se_mode :: connection_mode
  se_relay :: rstr

record url =
  url_scheme :: rstr
  url_host :: "rstr option"
  url_path :: rstr
  url_query :: "rstr option"
  url_fragment :: "rstr option"

definition default_relay_url :: rstr where
  "default_relay_url = str_lit ''https://cled-92hd.onrender.com''"

definition settings_default :: settings where
  "settings_default = \<lparr>se_mode = LanMode, se_relay = default_relay_url\<rparr>"

definition validate_relay_url :: "(rstr \<Rightarrow> url option) \<Rightarrow> rstr \<Rightarrow> string + rstr" where
  "validate_relay_url url_parse input =
     (let input = trim input
      in if input = [] then Err ''Enter a relay URL.''
         else
           let valid = (case url_parse input of
                          None \<Rightarrow> False
                        | Some u \<Rightarrow> url_scheme u \<in> {str_lit ''http'', str_lit ''https''}
                            \<and> (case url_host u of Some h \<Rightarrow> h \<noteq> [] | None \<Rightarrow> False))
           in if valid then Ok input
              else Err ''Enter a full URL starting with http:// or https://, e.g. https://relay.example.com'')"

section \<open>The file\<close>

text \<open>
  What reading the file gives: settings (missing fields already default), text that is no settings
  file, no file, or an error.
\<close>

datatype settings_read = SettingsText settings | SettingsInvalid | SettingsMissing | SettingsUnreadable

definition settings_load :: "(rstr \<Rightarrow> url option) \<Rightarrow> settings_read \<Rightarrow> settings" where
  "settings_load url_parse r =
     (let settings = (case r of
                        SettingsText s \<Rightarrow> s
                      | SettingsInvalid \<Rightarrow> settings_default
                      | SettingsMissing \<Rightarrow> settings_default
                      | SettingsUnreadable \<Rightarrow> settings_default)
      in if isl (validate_relay_url url_parse (se_relay settings))
         then settings\<lparr>se_relay := default_relay_url\<rparr> else settings)"

text \<open>
  The settings file and the temporary file, and the step of saving that fails, if any; writing the
  temporary file may fail half-way.
\<close>

record settings_files =
  sf_file :: settings_read
  sf_tmp :: settings_read

datatype save_fault = JsonFails | DirFails | WriteTmpFails | RenameFails

definition settings_save :: "save_fault option \<Rightarrow> settings \<Rightarrow> settings_files \<Rightarrow> (unit + unit) \<times> settings_files" where
  "settings_save fault settings fs =
     (case fault of
        Some JsonFails \<Rightarrow> (Err (), fs)
      | Some DirFails \<Rightarrow> (Err (), fs)
      | Some WriteTmpFails \<Rightarrow> (Err (), fs\<lparr>sf_tmp := SettingsInvalid\<rparr>)
      | Some RenameFails \<Rightarrow> (Err (), fs\<lparr>sf_tmp := SettingsText settings\<rparr>)
      | None \<Rightarrow> (Ok (), fs\<lparr>sf_file := SettingsText settings, sf_tmp := SettingsMissing\<rparr>))"

section \<open>The state of the app\<close>

record settings_state =
  ss_path :: bool
  ss_current :: settings
  ss_files :: settings_files

definition settings_state_load :: "(rstr \<Rightarrow> url option) \<Rightarrow> bool \<Rightarrow> settings_files \<Rightarrow> settings_state" where
  "settings_state_load url_parse has_dir fs =
     \<lparr>ss_path = has_dir,
      ss_current = (if has_dir then settings_load url_parse (sf_file fs) else settings_default),
      ss_files = fs\<rparr>"

definition settings_update ::
  "save_fault option \<Rightarrow> (settings \<Rightarrow> settings) \<Rightarrow> settings_state \<Rightarrow> (string + settings) \<times> settings_state" where
  "settings_update fault change st =
     (let next = change (ss_current st)
      in if ss_path st
         then (case settings_save fault next (ss_files st) of
                 (Inl _, fs) \<Rightarrow> (Err ''Couldn't save settings.'', st\<lparr>ss_files := fs\<rparr>)
               | (Inr _, fs) \<Rightarrow> (Ok next, st\<lparr>ss_files := fs, ss_current := next\<rparr>))
         else (Ok next, st\<lparr>ss_current := next\<rparr>))"

text \<open>The commands; their caller passes the new settings on to the relay connection.\<close>

definition set_connection_mode ::
  "save_fault option \<Rightarrow> connection_mode \<Rightarrow> settings_state \<Rightarrow> (string + settings) \<times> settings_state" where
  "set_connection_mode fault mode st = settings_update fault (\<lambda>s. s\<lparr>se_mode := mode\<rparr>) st"

definition set_relay_url ::
  "(rstr \<Rightarrow> url option) \<Rightarrow> save_fault option \<Rightarrow> rstr \<Rightarrow> settings_state \<Rightarrow> (string + settings) \<times> settings_state" where
  "set_relay_url url_parse fault text st =
     (case validate_relay_url url_parse text of
        Inl e \<Rightarrow> (Err e, st)
      | Inr valid \<Rightarrow> settings_update fault (\<lambda>s. s\<lparr>se_relay := valid\<rparr>) st)"

section \<open>Invariant\<close>

datatype settings_event = SetMode connection_mode | SetRelay rstr

fun settings_step ::
  "(rstr \<Rightarrow> url option) \<Rightarrow> settings_state \<Rightarrow> settings_event \<times> save_fault option \<Rightarrow> settings_state" where
  "settings_step url_parse st (SetMode mode, fault) = snd (set_connection_mode fault mode st)"
| "settings_step url_parse st (SetRelay text, fault) = snd (set_relay_url url_parse fault text st)"

lemma trim_idem [simp]: "trim (trim s) = trim s"
proof -
  let ?t = "dropWhile is_whitespace s"
  have "rev ?t = takeWhile is_whitespace (rev ?t) @ dropWhile is_whitespace (rev ?t)" by simp
  then have t: "?t = trim_end ?t @ rev (takeWhile is_whitespace (rev ?t))"
    unfolding trim_end_def by (metis rev_append rev_rev_ident)
  have "?t = [] \<or> \<not> is_whitespace (hd ?t)" by (metis hd_dropWhile)
  moreover have "u \<noteq> [] \<Longrightarrow> v = u @ w \<Longrightarrow> v \<noteq> [] \<and> hd v = hd u" for u v w :: rstr by simp
  ultimately have "trim_end ?t = [] \<or> \<not> is_whitespace (hd (trim_end ?t))"
    using t by metis
  then have "dropWhile is_whitespace (trim_end ?t) = trim_end ?t"
    by (simp add: dropWhile_eq_self_iff)
  then show ?thesis by (simp add: trim_def)
qed

lemma validate_again: "validate_relay_url url_parse text = Ok valid \<Longrightarrow> validate_relay_url url_parse valid = Ok valid"
  by (auto simp: validate_relay_url_def Let_def split: if_splits)

text \<open>The URL in use is valid, and the file reads back as the settings in use.\<close>

definition settings_inv :: "(rstr \<Rightarrow> url option) \<Rightarrow> settings_state \<Rightarrow> bool" where
  "settings_inv url_parse st \<longleftrightarrow>
     \<not> isl (validate_relay_url url_parse (se_relay (ss_current st)))
     \<and> (ss_path st \<longrightarrow> settings_load url_parse (sf_file (ss_files st)) = ss_current st)"

lemma settings_inv_update:
  assumes "settings_inv url_parse st" and "\<not> isl (validate_relay_url url_parse (se_relay (change (ss_current st))))"
  shows "settings_inv url_parse (snd (settings_update fault change st))"
proof (cases "ss_path st")
  case True
  with assms show ?thesis
    by (cases fault; (cases "the fault")?)
      (auto simp: settings_update_def settings_save_def settings_inv_def settings_load_def Let_def
        split: save_fault.split)
qed (use assms in \<open>simp add: settings_update_def settings_inv_def Let_def\<close>)

lemma settings_inv_step:
  assumes "settings_inv url_parse st"
  shows "settings_inv url_parse (settings_step url_parse st e)"
proof (cases e)
  case (Pair ev fault)
  show ?thesis
  proof (cases ev)
    case (SetMode mode)
    have "\<not> isl (validate_relay_url url_parse (se_relay ((ss_current st)\<lparr>se_mode := mode\<rparr>)))"
      using assms by (simp add: settings_inv_def)
    with assms Pair SetMode show ?thesis
      by (simp add: set_connection_mode_def settings_inv_update)
  next
    case (SetRelay addr)
    with assms Pair show ?thesis
      by (auto simp: set_relay_url_def validate_again intro!: settings_inv_update split: sum.split)
  qed
qed

interpretation settings: state_machine "settings_step url_parse" "settings_inv url_parse" for url_parse
  by unfold_locales (rule settings_inv_step)

section \<open>Properties\<close>

text \<open>
  Settings survive a restart. Whatever file the app found at its start, and whichever of the
  changes since then could not be saved (even with a half-written temporary file), loading the file
  again gives the settings in use, and the relay URL in use is a valid one.
\<close>

theorem settings_survive_restart:
  fixes changes fs url_parse
  assumes "validate_relay_url url_parse default_relay_url = Ok default_relay_url"
  defines "st \<equiv> foldl (settings_step url_parse) (settings_state_load url_parse True fs) changes"
  shows "ss_current (settings_state_load url_parse True (ss_files st)) = ss_current st
    \<and> (\<exists>valid. validate_relay_url url_parse (se_relay (ss_current st)) = Ok valid)"
proof -
  have "settings_inv url_parse (settings_state_load url_parse True fs)"
    using assms(1) by (auto simp: settings_inv_def settings_state_load_def settings_load_def Let_def)
  then have "settings_inv url_parse st" unfolding st_def by (rule settings.invar_run)
  moreover have "ss_path st"
    unfolding st_def
  proof (induction changes rule: rev_induct)
    case Nil
    then show ?case by (simp add: settings_state_load_def)
  next
    case (snoc e es)
    then show ?case
      by (cases e; cases "fst e")
        (auto simp: set_connection_mode_def set_relay_url_def settings_update_def Let_def split: sum.split prod.split)
  qed
  ultimately show ?thesis
    by (cases "validate_relay_url url_parse (se_relay (ss_current st))")
      (auto simp: settings_inv_def settings_state_load_def)
qed

definition example_url_parse :: "rstr \<Rightarrow> url option" where
  "example_url_parse text =
     (if take 8 text = str_lit ''https://''
      then Some \<lparr>url_scheme = str_lit ''https'', url_host = Some (drop 8 text), url_path = [],
                 url_query = None, url_fragment = None\<rparr> else None)"

theorem settings_survive_restart_witness:
  "ss_current (settings_state_load example_url_parse True
     (ss_files (foldl (settings_step example_url_parse)
        (settings_state_load example_url_parse True \<lparr>sf_file = SettingsMissing, sf_tmp = SettingsMissing\<rparr>)
        [(SetMode RelayMode, None), (SetMode LanMode, Some RenameFails)])))
   = ss_current (foldl (settings_step example_url_parse)
        (settings_state_load example_url_parse True \<lparr>sf_file = SettingsMissing, sf_tmp = SettingsMissing\<rparr>)
        [(SetMode RelayMode, None), (SetMode LanMode, Some RenameFails)])"
proof -
  have "validate_relay_url example_url_parse default_relay_url = Ok default_relay_url"
    by (simp add: validate_relay_url_def default_relay_url_def str_lit_def trim_def trim_end_def
        is_whitespace_def example_url_parse_def)
  from settings_survive_restart [OF this] show ?thesis by blast
qed

end
