(* ===== verification/Auth.thy ===== *)
theory Auth
  imports Rust_Text
begin

text \<open>
  \<open>apps/desktop/src-tauri/src/auth.rs\<close>: the sign-in with the relay's account service. HTTP, JSON,
  base64, hashing and the browser are outside: what the app sees of them are arguments. The saved
  sign-in is the value its file parses to (\<open>None\<close>: no file, or one that does not parse).
\<close>

section \<open>State\<close>

record account =
  ac_user :: rstr
  ac_email :: "rstr option"
  ac_name :: "rstr option"

record stored_session =
  so_issuer :: rstr
  so_client :: rstr
  so_token_endpoint :: rstr
  so_revocation :: "rstr option"
  so_refresh :: rstr
  so_account :: account

record auth_session =
  as_stored :: stored_session
  as_access :: "(rstr \<times> nat) option"

datatype auth_status = SignedOut | SigningIn | SignedIn account

datatype token_error = TokenSignedOut | TokenUnavailable string

text \<open>
  A sign-in attempt waits for the browser until it has a code, exchanges it, and has stored a session
  for an account when it succeeded.
\<close>

datatype flow_phase = WaitingForCode | Cancelled | Exchanging | Stored account

record auth_state =
  au_session :: "auth_session option"
  au_status :: auth_status
  au_cancel :: "u64 option"
  au_generation :: u64
  au_path :: bool
  au_file :: "stored_session option"
  au_flows :: "(u64 \<times> flow_phase) list"

datatype auth_effect =
    RelaySignedIn bool
  | EmitStatus auth_status
  | Revoke rstr rstr rstr

definition expiry_margin :: nat where "expiry_margin = secs 60"

definition loopback_ports :: "u16 list" where
  "loopback_ports = [53682, 53683, 53684]"

definition auth_load :: "bool \<Rightarrow> stored_session option \<Rightarrow> auth_state" where
  "auth_load has_dir file =
     (let stored = (if has_dir then file else None)
      in \<lparr>au_session = map_option (\<lambda>s. \<lparr>as_stored = s, as_access = None\<rparr>) stored,
          au_status = (case stored of Some s \<Rightarrow> SignedIn (so_account s) | None \<Rightarrow> SignedOut),
          au_cancel = None, au_generation = 0, au_path = has_dir, au_file = file, au_flows = []\<rparr>)"

definition is_signed_in :: "auth_state \<Rightarrow> bool" where
  "is_signed_in st \<longleftrightarrow> (case au_status st of SignedIn _ \<Rightarrow> True | _ \<Rightarrow> False)"

text \<open>Saving may fail before the file is touched or after it was emptied.\<close>

datatype store_fault = OpenStoreFails | WriteStoreFails

definition store_session :: "store_fault option \<Rightarrow> stored_session \<Rightarrow> auth_state \<Rightarrow> auth_state" where
  "store_session fault s st =
     (if \<not> au_path st then st
      else case fault of
             None \<Rightarrow> st\<lparr>au_file := Some s\<rparr>
           | Some OpenStoreFails \<Rightarrow> st
           | Some WriteStoreFails \<Rightarrow> st\<lparr>au_file := None\<rparr>)"

definition forget_stored_session :: "bool \<Rightarrow> auth_state \<Rightarrow> auth_state" where
  "forget_stored_session removed st =
     (if au_path st \<and> removed then st\<lparr>au_file := None\<rparr> else st)"

definition set_auth_status :: "auth_status \<Rightarrow> auth_state \<Rightarrow> auth_state" where
  "set_auth_status s st = st\<lparr>au_status := s\<rparr>"

definition cancel_pending_sign_in :: "auth_state \<Rightarrow> auth_state" where
  "cancel_pending_sign_in st =
     (case au_cancel st of
        None \<Rightarrow> st
      | Some g \<Rightarrow>
          st\<lparr>au_cancel := None,
             au_flows := map (\<lambda>(h, phase). (h, if h = g \<and> phase = WaitingForCode then Cancelled else phase))
                           (au_flows st)\<rparr>)"

lemma au_session_store [simp]: "au_session (store_session fault s st) = au_session st"
  by (simp add: store_session_def split: option.split store_fault.split)

section \<open>Access tokens\<close>

datatype http_failure = HttpTimeout | HttpConnect | HttpOther

definition describe_http_error :: "http_failure \<Rightarrow> string" where
  "describe_http_error e =
     (case e of
        HttpTimeout \<Rightarrow> ''The account service didn't answer in time.''
      | HttpConnect \<Rightarrow> ''Couldn't reach the account service.''
      | HttpOther \<Rightarrow> ''Couldn't talk to the account service.'')"

record token_response =
  tr_access :: rstr
  tr_refresh :: "rstr option"
  tr_expires :: "u64 option"
  tr_id :: "rstr option"

text \<open>No answer, or a status and the tokens its body holds (\<open>None\<close>: it does not parse).\<close>

datatype token_answer = NoAnswer http_failure | Answer nat "token_response option"

definition is_client_error :: "nat \<Rightarrow> bool" where
  "is_client_error status \<longleftrightarrow> 400 \<le> status \<and> status < 500"

definition is_success :: "nat \<Rightarrow> bool" where
  "is_success status \<longleftrightarrow> 200 \<le> status \<and> status < 300"

definition token_expiry :: "nat \<Rightarrow> u64 option \<Rightarrow> nat" where
  "token_expiry now expires_in = now + secs (case expires_in of Some n \<Rightarrow> unat n | None \<Rightarrow> 120)"

text \<open>
  \<open>status_text\<close> gives the message for a status; the answer arrives at \<open>later\<close>. The last result says
  whether the account service was asked.
\<close>

definition access_token ::
  "(nat \<Rightarrow> string) \<Rightarrow> nat \<Rightarrow> nat \<Rightarrow> token_answer \<Rightarrow> store_fault option \<Rightarrow> bool \<Rightarrow> auth_state
   \<Rightarrow> (token_error + rstr) \<times> auth_state \<times> bool" where
  "access_token status_text now later answer fault removed st =
     (case au_session st of
        None \<Rightarrow> (Err TokenSignedOut, st, False)
      | Some session \<Rightarrow>
          let cached = (case as_access session of
                          Some (token, expires_at) \<Rightarrow>
                            if now + expiry_margin < expires_at then Some token else None
                        | None \<Rightarrow> None)
          in case cached of
               Some token \<Rightarrow> (Ok token, st, False)
             | None \<Rightarrow>
                 (case answer of
                    NoAnswer e \<Rightarrow> (Err (TokenUnavailable (describe_http_error e)), st, True)
                  | Answer status body \<Rightarrow>
                      if is_client_error status
                      then (Err TokenSignedOut,
                            set_auth_status SignedOut (forget_stored_session removed (st\<lparr>au_session := None\<rparr>)), True)
                      else if \<not> is_success status then (Err (TokenUnavailable (status_text status)), st, True)
                      else
                        (case body of
                           None \<Rightarrow> (Err (TokenUnavailable ''Unexpected answer from the account service.''), st, True)
                         | Some tokens \<Rightarrow>
                             let session = session\<lparr>as_access := Some (tr_access tokens, token_expiry later (tr_expires tokens))\<rparr>;
                                 rotated = (case tr_refresh tokens of
                                              Some r \<Rightarrow> if r \<noteq> so_refresh (as_stored session) then Some r else None
                                            | None \<Rightarrow> None)
                             in case rotated of
                                  Some r \<Rightarrow>
                                    (let session = session\<lparr>as_stored := (as_stored session)\<lparr>so_refresh := r\<rparr>\<rparr>
                                     in (Ok (tr_access tokens),
                                         store_session fault (as_stored session) (st\<lparr>au_session := Some session\<rparr>), True))
                                | None \<Rightarrow> (Ok (tr_access tokens), st\<lparr>au_session := Some session\<rparr>, True))))"

definition discard_access_token :: "auth_state \<Rightarrow> auth_state" where
  "discard_access_token st =
     st\<lparr>au_session := map_option (\<lambda>s. s\<lparr>as_access := None\<rparr>) (au_session st)\<rparr>"

section \<open>The redirect\<close>

definition trim_slash :: "rstr \<Rightarrow> rstr" where
  "trim_slash url = rev (dropWhile (\<lambda>c. c = of_char CHR ''/'') (rev url))"

fun bind_loopback :: "(u16 \<Rightarrow> bool) \<Rightarrow> u16 list \<Rightarrow> string + u16" where
  "bind_loopback free [] = Err ''Couldn't start sign-in: local ports [53682, 53683, 53684] are all in use. Close whatever is using them and try again.''"
| "bind_loopback free (port # ports) = (if free port then Ok port else bind_loopback free ports)"

text \<open>
  The bytes of a request head, read in chunks: \<open>None\<close> when the connection ends (an empty chunk), the
  chunks run out (a timeout) or the head grows beyond 16 KiB before its end.
\<close>

definition head_ended :: "byte list \<Rightarrow> bool" where
  "head_ended bytes \<longleftrightarrow> sublist [13, 10, 13, 10] bytes"

fun read_head :: "byte list \<Rightarrow> byte list list \<Rightarrow> byte list option" where
  "read_head buffer [] = (if head_ended buffer then Some buffer else None)"
| "read_head buffer (chunk # chunks) =
     (if head_ended buffer then Some buffer
      else if chunk = [] \<or> 16 * 1024 < length buffer then None
      else read_head (buffer @ chunk) chunks)"

fun split_on :: "nat \<Rightarrow> rstr \<Rightarrow> rstr list" where
  "split_on sep [] = [[]]"
| "split_on sep (c # cs) =
     (if c = sep then [] # split_on sep cs
      else case split_on sep cs of
             [] \<Rightarrow> [[c]]
           | part # parts \<Rightarrow> (c # part) # parts)"

text \<open>\<open>lines().next()\<close> and \<open>split_whitespace()\<close>.\<close>

definition first_line :: "rstr \<Rightarrow> rstr option" where
  "first_line text =
     (if text = [] then None
      else let line = takeWhile (\<lambda>c. c \<noteq> 10) text
           in Some (if line \<noteq> [] \<and> last line = 13 \<and> 10 \<in> set text then butlast line else line))"

fun words_of :: "rstr \<Rightarrow> rstr \<Rightarrow> rstr list" where
  "words_of word [] = (if word = [] then [] else [word])"
| "words_of word (c # cs) =
     (if is_whitespace c then (if word = [] then words_of [] cs else word # words_of [] cs)
      else words_of (word @ [c]) cs)"

text \<open>\<open>from_utf8_lossy\<close> is an argument.\<close>

definition read_request_target :: "(byte list \<Rightarrow> rstr) \<Rightarrow> byte list list \<Rightarrow> rstr option" where
  "read_request_target lossy chunks =
     (case read_head [] chunks of
        None \<Rightarrow> None
      | Some head \<Rightarrow>
          (case first_line (lossy head) of
             None \<Rightarrow> None
           | Some line \<Rightarrow>
               (case words_of [] line of
                  method # rest \<Rightarrow>
                    if method = str_lit ''GET'' then (case rest of target # _ \<Rightarrow> Some target | [] \<Rightarrow> None)
                    else None
                | [] \<Rightarrow> None)))"

text \<open>
  A connection to the loopback listener: the accept failed, its request could not be read, or its
  target. \<open>url_target\<close> is the \<open>url\<close> crate on a target: its path and query pairs.
\<close>

datatype loopback_conn = AcceptFailed | NoTarget | Target rstr

definition callback_path :: rstr where "callback_path = str_lit ''/callback''"

text \<open>The answers sent, and the result once there is one (\<open>None\<close>: still waiting).\<close>

fun receive_code ::
  "(rstr \<Rightarrow> (rstr \<times> (rstr \<times> rstr) list) option) \<Rightarrow> rstr \<Rightarrow> loopback_conn list
   \<Rightarrow> nat list \<times> (string + rstr) option" where
  "receive_code url_target expected [] = ([], None)"
| "receive_code url_target expected (AcceptFailed # cs) = receive_code url_target expected cs"
| "receive_code url_target expected (NoTarget # cs) = receive_code url_target expected cs"
| "receive_code url_target expected (Target target # cs) =
     (let continue_with = (\<lambda>status. let (more, r) = receive_code url_target expected cs in (status # more, r))
      in case url_target target of
           None \<Rightarrow> continue_with 400
         | Some (path, pairs) \<Rightarrow>
             let param = map_of (rev pairs)
             in if path \<noteq> callback_path then continue_with 404
                else if param (str_lit ''state'') \<noteq> Some expected then continue_with 400
                else case param (str_lit ''error'') of
                       Some error \<Rightarrow>
                         ([200], Some (Err (if error = str_lit ''access_denied''
                                            then ''Sign-in was cancelled in the browser.''
                                            else ''Sign-in failed in the browser. Try again.'')))
                     | None \<Rightarrow>
                         (case param (str_lit ''code'') of
                            None \<Rightarrow> continue_with 400
                          | Some code \<Rightarrow> ([200], Some (Ok code))))"

section \<open>Signing in\<close>

record id_claims =
  ic_sub :: rstr
  ic_email :: "rstr option"
  ic_name :: "rstr option"
  ic_given :: "rstr option"
  ic_family :: "rstr option"

definition join_space :: "rstr list \<Rightarrow> rstr" where
  "join_space parts = (case parts of [] \<Rightarrow> [] | p # ps \<Rightarrow> p @ concat (map (Cons 32) ps))"

text \<open>\<open>claims_of\<close> decodes the payload of a token: base64 and JSON.\<close>

definition account_from :: "(rstr \<Rightarrow> id_claims option) \<Rightarrow> token_response \<Rightarrow> account option" where
  "account_from claims_of tokens =
     (let token = (case tr_id tokens of Some t \<Rightarrow> t | None \<Rightarrow> tr_access tokens)
      in case split_on (of_char CHR ''.'') token of
           _ # payload # _ \<Rightarrow>
             (case claims_of payload of
                None \<Rightarrow> None
              | Some claims \<Rightarrow>
                  (let full = join_space (List.map_filter id [ic_given claims, ic_family claims]);
                       name = (case ic_name claims of
                                 Some n \<Rightarrow> Some n
                               | None \<Rightarrow> if full \<noteq> [] then Some full else None)
                   in Some \<lparr>ac_user = ic_sub claims, ac_email = ic_email claims, ac_name = name\<rparr>))
         | _ \<Rightarrow> None)"

record relay_auth_config =
  rac_issuer :: rstr
  rac_client :: rstr
  rac_scopes :: rstr

record server_metadata =
  sm_issuer :: rstr
  sm_authorization :: rstr
  sm_token :: rstr
  sm_revocation :: "rstr option"

text \<open>A JSON document over HTTP: not fetched, not parsed, or its value.\<close>

datatype 'a fetched = NotFetched http_failure | NotParsed | Fetched 'a

datatype code_outcome = CodeArrived "string + rstr" | CodeTimedOut | CodeCancelled

text \<open>
  The world of one attempt: what the relay and the account service answer, which local ports are free,
  whether the authorization endpoint parses and the browser opens, what comes back for the state of
  the attempt, and the answer to the exchange of a code.
\<close>

record sign_in_world =
  sw_config :: "rstr \<Rightarrow> relay_auth_config fetched"
  sw_metadata :: "rstr \<Rightarrow> server_metadata fetched"
  sw_free :: "u16 \<Rightarrow> bool"
  sw_authorize :: "rstr \<Rightarrow> bool"
  sw_browser :: "string + unit"
  sw_state :: rstr
  sw_code :: "rstr \<Rightarrow> code_outcome"
  sw_exchange :: "rstr \<Rightarrow> rstr \<Rightarrow> u16 \<Rightarrow> token_answer"

definition starts_with :: "rstr \<Rightarrow> rstr \<Rightarrow> bool" where
  "starts_with p s \<longleftrightarrow> take (length p) s = p"

text \<open>Up to the browser: the issuer, the client, the service and the port of the redirect.\<close>

definition sign_in_prepare ::
  "rstr \<Rightarrow> sign_in_world \<Rightarrow> string + (rstr \<times> relay_auth_config \<times> server_metadata \<times> u16)" where
  "sign_in_prepare relay_url w =
     (case sw_config w (trim_slash relay_url @ str_lit ''/auth/config'') of
        NotFetched _ \<Rightarrow> Err ''Couldn't get sign-in details from the relay. Check the relay URL.''
      | NotParsed \<Rightarrow> Err ''The relay doesn't support sign-in. Is it up to date?''
      | Fetched config \<Rightarrow>
          (let issuer = trim_slash (rac_issuer config)
           in if \<not> starts_with (str_lit ''https://'') issuer
              then Err ''The relay named an insecure sign-in service.''
              else
                case sw_metadata w (issuer @ str_lit ''/.well-known/oauth-authorization-server'') of
                  NotFetched e \<Rightarrow> Err (describe_http_error e)
                | NotParsed \<Rightarrow> Err ''Unexpected answer from the account service.''
                | Fetched metadata \<Rightarrow>
                    if trim_slash (sm_issuer metadata) \<noteq> issuer
                    then Err ''The account service's details don't match the relay's.''
                    else
                      (case bind_loopback (sw_free w) loopback_ports of
                         Inl e \<Rightarrow> Err e
                       | Inr port \<Rightarrow>
                           if \<not> sw_authorize w (sm_authorization metadata)
                           then Err ''Unexpected answer from the account service.''
                           else
                             (case sw_browser w of
                                Inl e \<Rightarrow> Err e
                              | Inr _ \<Rightarrow> Ok (issuer, config, metadata, port)))))"

text \<open>From the code on: the session to store and the first access token.\<close>

definition sign_in_exchange ::
  "(rstr \<Rightarrow> id_claims option) \<Rightarrow> nat \<Rightarrow> sign_in_world \<Rightarrow> rstr \<times> relay_auth_config \<times> server_metadata \<times> u16
   \<Rightarrow> string + (stored_session \<times> rstr \<times> nat)" where
  "sign_in_exchange claims_of now w prepared =
     (let (issuer, config, metadata, port) = prepared
      in case sw_code w (sw_state w) of
           CodeTimedOut \<Rightarrow> Err ''Sign-in timed out. Try again.''
         | CodeCancelled \<Rightarrow> Err ''Sign-in cancelled.''
         | CodeArrived (Inl e) \<Rightarrow> Err e
         | CodeArrived (Inr code) \<Rightarrow>
             (case sw_exchange w (sm_token metadata) code port of
                NoAnswer e \<Rightarrow> Err (describe_http_error e)
              | Answer status body \<Rightarrow>
                  if \<not> is_success status
                  then Err ''The account service didn't accept the sign-in. Try again.''
                  else
                    (case body of
                       None \<Rightarrow> Err ''Unexpected answer from the account service.''
                     | Some tokens \<Rightarrow>
                         (case tr_refresh tokens of
                            None \<Rightarrow> Err ''The account service didn't allow staying signed in (no refresh token).''
                          | Some refresh \<Rightarrow>
                              (case account_from claims_of tokens of
                                 None \<Rightarrow> Err ''Unexpected answer from the account service.''
                               | Some account \<Rightarrow>
                                   Ok (\<lparr>so_issuer = issuer, so_client = rac_client config,
                                        so_token_endpoint = sm_token metadata,
                                        so_revocation = sm_revocation metadata,
                                        so_refresh = refresh, so_account = account\<rparr>,
                                       tr_access tokens, token_expiry now (tr_expires tokens)))))))"

definition sign_in_flow ::
  "(rstr \<Rightarrow> id_claims option) \<Rightarrow> nat \<Rightarrow> rstr \<Rightarrow> sign_in_world \<Rightarrow> string + (stored_session \<times> rstr \<times> nat)" where
  "sign_in_flow claims_of now relay_url w =
     (case sign_in_prepare relay_url w of
        Inl e \<Rightarrow> Err e
      | Inr prepared \<Rightarrow> sign_in_exchange claims_of now w prepared)"

section \<open>Commands\<close>

definition publish :: "auth_status \<Rightarrow> auth_state \<Rightarrow> auth_state \<times> auth_effect list" where
  "publish s st =
     (set_auth_status s st,
      [RelaySignedIn (case s of SignedIn _ \<Rightarrow> True | _ \<Rightarrow> False), EmitStatus s])"

text \<open>\<open>sign_in\<close> up to the flow, the flow's end when it succeeds, and \<open>sign_in\<close> after the flow.\<close>

definition sign_in_begin :: "auth_state \<Rightarrow> auth_state \<times> auth_effect list" where
  "sign_in_begin st =
     (let st = cancel_pending_sign_in st;
          g = au_generation st + 1;
          st = st\<lparr>au_generation := g, au_cancel := Some g, au_flows := au_flows st @ [(g, WaitingForCode)]\<rparr>
      in publish SigningIn st)"

definition sign_in_store ::
  "store_fault option \<Rightarrow> stored_session \<times> rstr \<times> nat \<Rightarrow> auth_state \<Rightarrow> auth_state" where
  "sign_in_store fault result st =
     (let (stored, access) = result
      in (store_session fault stored st)\<lparr>au_session := Some \<lparr>as_stored = stored, as_access = Some access\<rparr>\<rparr>)"

definition sign_in_finish ::
  "u64 \<Rightarrow> string + account \<Rightarrow> auth_state \<Rightarrow> (string + auth_status) \<times> auth_state \<times> auth_effect list" where
  "sign_in_finish g result st =
     (if au_generation st \<noteq> g
      then (case result of Inl e \<Rightarrow> Err e | Inr a \<Rightarrow> Ok (SignedIn a), st, [])
      else
        (let status = (case result of
                         Inr a \<Rightarrow> SignedIn a
                       | Inl _ \<Rightarrow> (case au_session st of
                                     Some s \<Rightarrow> SignedIn (so_account (as_stored s))
                                   | None \<Rightarrow> SignedOut));
             (st, effects) = publish status st
         in (case result of Inl e \<Rightarrow> Err e | Inr _ \<Rightarrow> Ok status, st, effects)))"

definition sign_out :: "bool \<Rightarrow> auth_state \<Rightarrow> auth_state \<times> auth_effect list" where
  "sign_out removed st =
     (let st = cancel_pending_sign_in st;
          st = st\<lparr>au_generation := au_generation st + 1\<rparr>;
          session = au_session st;
          st = forget_stored_session removed (st\<lparr>au_session := None\<rparr>);
          (st, effects) = publish SignedOut st
      in (st, effects @
           (case session of
              Some s \<Rightarrow> (case so_revocation (as_stored s) of
                           Some endpoint \<Rightarrow> [Revoke endpoint (so_refresh (as_stored s)) (so_client (as_stored s))]
                         | None \<Rightarrow> [])
            | None \<Rightarrow> [])))"

section \<open>Runs\<close>

text \<open>
  An attempt may still get its code when it was just cancelled: \<open>select!\<close> takes either branch when
  both are ready. Once it has a code, it stores a session whatever happened since. Its end is
  reported by \<open>AFinish\<close>.
\<close>

datatype auth_event =
    ABegin
  | ACode u64
  | AStore u64 "stored_session \<times> rstr \<times> nat"
  | AFinish u64 string
  | ACancel
  | ASignOut
  | AToken nat nat token_answer
  | ADiscard

definition set_phase :: "u64 \<Rightarrow> flow_phase \<Rightarrow> auth_state \<Rightarrow> auth_state" where
  "set_phase g phase st =
     st\<lparr>au_flows := map (\<lambda>(h, old). (h, if h = g then phase else old)) (au_flows st)\<rparr>"

fun auth_step :: "store_fault option \<Rightarrow> bool \<Rightarrow> auth_state \<Rightarrow> auth_event \<Rightarrow> auth_state \<times> auth_effect list" where
  "auth_step fault removed st ABegin = sign_in_begin st"
| "auth_step fault removed st (ACode g) =
     (if map_of (au_flows st) g \<in> {Some WaitingForCode, Some Cancelled}
      then (set_phase g Exchanging st, []) else (st, []))"
| "auth_step fault removed st (AStore g result) =
     (if map_of (au_flows st) g = Some Exchanging
      then (set_phase g (Stored (so_account (fst result))) (sign_in_store fault result st), [])
      else (st, []))"
| "auth_step fault removed st (AFinish g e) =
     (case map_of (au_flows st) g of
        None \<Rightarrow> (st, [])
      | Some phase \<Rightarrow>
          (let (_, st, effects) = sign_in_finish g (case phase of Stored a \<Rightarrow> Ok a | _ \<Rightarrow> Err e) st
           in (st\<lparr>au_flows := filter (\<lambda>(h, _). h \<noteq> g) (au_flows st)\<rparr>, effects)))"
| "auth_step fault removed st ACancel = (cancel_pending_sign_in st, [])"
| "auth_step fault removed st ASignOut = sign_out removed st"
| "auth_step fault removed st (AToken now later answer) =
     (fst (snd (access_token (\<lambda>_. []) now later answer fault removed st)), [])"
| "auth_step fault removed st ADiscard = (discard_access_token st, [])"

text \<open>Steps in which saving and removing the file succeed.\<close>

definition auth_ok_step :: "auth_state \<Rightarrow> auth_event \<Rightarrow> auth_state" where
  "auth_ok_step st e = fst (auth_step None True st e)"

section \<open>The saved sign-in\<close>

text \<open>The file holds the sign-in in memory, and an attempt is running while the status says so.\<close>

definition auth_inv :: "auth_state \<Rightarrow> bool" where
  "auth_inv st \<longleftrightarrow>
     au_path st \<and> au_file st = map_option as_stored (au_session st)
     \<and> (au_status st = SigningIn \<longrightarrow> au_generation st \<in> fst ` set (au_flows st))"

lemma auth_inv_token:
  assumes "auth_inv st"
  shows "auth_inv (fst (snd (access_token f now later answer None True st)))"
proof (cases "au_session st")
  case (Some s)
  with assms show ?thesis
    by (cases answer; cases "as_access s")
      (auto simp: access_token_def auth_inv_def Let_def forget_stored_session_def set_auth_status_def
        store_session_def split: option.splits)
qed (use assms in \<open>simp add: access_token_def\<close>)

lemma auth_inv_cancel: "auth_inv st \<Longrightarrow> auth_inv (cancel_pending_sign_in st)"
  by (force simp: auth_inv_def cancel_pending_sign_in_def split: option.splits)

lemma fst_set_phase [simp]: "fst ` set (au_flows (set_phase g phase st)) = fst ` set (au_flows st)"
  by (force simp: set_phase_def)

lemma set_phase_simps [simp]:
  "au_session (set_phase g phase st) = au_session st" "au_status (set_phase g phase st) = au_status st"
  "au_path (set_phase g phase st) = au_path st" "au_file (set_phase g phase st) = au_file st"
  "au_generation (set_phase g phase st) = au_generation st" "au_cancel (set_phase g phase st) = au_cancel st"
  by (simp_all add: set_phase_def)

lemma map_of_set_phase:
  "map_of (au_flows (set_phase g phase st)) h =
   (if h = g then map_option (\<lambda>_. phase) (map_of (au_flows st) g) else map_of (au_flows st) h)"
proof -
  have "map_of (map (\<lambda>(h, old). (h, if h = g then phase else old)) fs) h
        = (if h = g then map_option (\<lambda>_. phase) (map_of fs g) else map_of fs h)" for fs
    by (induction fs) auto
  then show ?thesis by (simp add: set_phase_def)
qed

lemma cancel_simps [simp]:
  "au_session (cancel_pending_sign_in st) = au_session st" "au_status (cancel_pending_sign_in st) = au_status st"
  "au_path (cancel_pending_sign_in st) = au_path st" "au_file (cancel_pending_sign_in st) = au_file st"
  "au_generation (cancel_pending_sign_in st) = au_generation st"
  by (simp_all add: cancel_pending_sign_in_def split: option.split)

lemma map_of_cancel:
  "map_of (au_flows (cancel_pending_sign_in st)) h =
   (if au_cancel st = Some h \<and> map_of (au_flows st) h = Some WaitingForCode then Some Cancelled
    else map_of (au_flows st) h)"
proof -
  have "map_of (map (\<lambda>(h, phase). (h, if h = g \<and> phase = WaitingForCode then Cancelled else phase)) fs) h
        = (if g = h \<and> map_of fs h = Some WaitingForCode then Some Cancelled else map_of fs h)" for fs g
    by (induction fs) auto
  then show ?thesis by (simp add: cancel_pending_sign_in_def split: option.split)
qed

lemma auth_inv_step:
  assumes "auth_inv st"
  shows "auth_inv (auth_ok_step st e)"
proof (cases e)
  case ABegin
  with auth_inv_cancel [OF assms] show ?thesis
    by (auto simp: auth_ok_step_def sign_in_begin_def Let_def publish_def set_auth_status_def auth_inv_def)
next
  case (AStore g r)
  with assms show ?thesis
    by (cases r) (auto simp: auth_ok_step_def auth_inv_def sign_in_store_def store_session_def)
next
  case (AFinish g err)
  show ?thesis
  proof (cases "au_generation st = g")
    case True
    with assms AFinish show ?thesis
      by (auto simp: auth_ok_step_def auth_inv_def sign_in_finish_def publish_def set_auth_status_def Let_def
          split: option.split flow_phase.splits sum.splits)
  next
    case False
    with assms AFinish show ?thesis
      by (force simp: auth_ok_step_def auth_inv_def sign_in_finish_def split: option.split)
  qed
next
  case ASignOut
  with auth_inv_cancel [OF assms] show ?thesis
    by (auto simp: auth_ok_step_def sign_out_def Let_def publish_def set_auth_status_def
        forget_stored_session_def auth_inv_def)
next
  case ADiscard
  with assms show ?thesis
    by (cases "au_session st") (auto simp: auth_ok_step_def discard_access_token_def auth_inv_def)
qed (use assms auth_inv_token [OF assms] auth_inv_cancel [OF assms] in
      \<open>auto simp: auth_ok_step_def auth_inv_def\<close>)

interpretation auth: state_machine auth_ok_step auth_inv
  by unfold_locales (rule auth_inv_step)

lemma auth_inv_load: "auth_inv (auth_load True stored)"
  by (cases stored) (simp_all add: auth_inv_def auth_load_def)

section \<open>Properties\<close>

text \<open>
  A restart keeps the sign-in. Whatever happened since the app started (attempts that failed, were
  cancelled or superseded, rotated refresh tokens, signing out, a sign-in that was revoked), loading
  the file again gives the session in memory, without its access token, which is never saved.
\<close>

theorem sign_in_survives_restart:
  fixes stored events
  defines "st \<equiv> foldl auth_ok_step (auth_load True stored) events"
  shows "au_session (auth_load True (au_file st)) = map_option (\<lambda>s. s\<lparr>as_access := None\<rparr>) (au_session st)"
proof -
  have "auth_inv st" unfolding st_def by (intro auth.invar_run auth_inv_load)
  then show ?thesis
    by (cases "au_session st") (auto simp: auth_inv_def auth_load_def)
qed

text \<open>
  The app never stays "signing in": once every attempt has ended, whatever the order in which
  attempts, cancellations and sign-outs followed each other, its status is signed in or signed out.
\<close>

theorem signing_in_ends:
  assumes "au_flows (foldl auth_ok_step (auth_load True stored) events) = []"
  shows "au_status (foldl auth_ok_step (auth_load True stored) events) \<noteq> SigningIn"
  using auth.invar_run [OF auth_inv_load, of stored events] assms by (auto simp: auth_inv_def)

theorem signing_in_ends_witness:
  "au_status (foldl auth_ok_step (auth_load True None)
     [ABegin, ABegin, AFinish 1 ''cancelled'', AFinish 2 ''timed out'']) \<noteq> SigningIn"
  by (rule signing_in_ends)
    (simp add: auth_ok_step_def auth_load_def sign_in_begin_def cancel_pending_sign_in_def publish_def
      set_auth_status_def sign_in_finish_def Let_def)

text \<open>
  A sign-in can outlive a sign-out (a defect). When the user signs out while an attempt exchanges
  its code, the attempt still stores its session afterwards: the app says it is signed out, yet it
  holds a session and the saved sign-in is back, so after a restart the app is signed in again.
\<close>

theorem late_sign_in_outlives_sign_out:
  fixes st stored token e
  assumes "map_of (au_flows st) (au_generation st) = Some Exchanging" and "au_path st"
  defines "st' \<equiv> foldl auth_ok_step st
    [ASignOut, AStore (au_generation st) (stored, token), AFinish (au_generation st) e]"
  shows "au_status st' = SignedOut
    \<and> au_session st' = Some \<lparr>as_stored = stored, as_access = Some token\<rparr>
    \<and> au_status (auth_load True (au_file st')) = SignedIn (so_account stored)"
proof -
  let ?st1 = "fst (sign_out True st)"
  have "map_of (au_flows ?st1) (au_generation st) = Some Exchanging"
    using assms(1,2)
    by (simp add: sign_out_def Let_def publish_def set_auth_status_def forget_stored_session_def map_of_cancel)
  moreover have "au_path ?st1" "au_status ?st1 = SignedOut" "au_generation ?st1 = au_generation st + 1"
    using assms(2)
    by (simp_all add: sign_out_def Let_def publish_def set_auth_status_def forget_stored_session_def)
  ultimately show ?thesis
    by (auto simp: st'_def auth_ok_step_def sign_in_store_def store_session_def sign_in_finish_def auth_load_def
        map_of_set_phase)
qed

definition example_session :: stored_session where
  "example_session =
     \<lparr>so_issuer = str_lit ''https://a'', so_client = str_lit ''c'', so_token_endpoint = str_lit ''https://a/t'',
      so_revocation = None, so_refresh = str_lit ''r'',
      so_account = \<lparr>ac_user = str_lit ''u'', ac_email = None, ac_name = None\<rparr>\<rparr>"

theorem late_sign_in_outlives_sign_out_witness:
  "au_status (foldl auth_ok_step (foldl auth_ok_step (auth_load True None) [ABegin, ACode 1])
     [ASignOut, AStore 1 (example_session, ([], 0)), AFinish 1 []]) = SignedOut"
proof -
  have "foldl auth_ok_step (auth_load True None) [ABegin, ACode 1] =
   (auth_load True None)\<lparr>au_status := SigningIn, au_cancel := Some 1, au_generation := 1,
                         au_flows := [(1, Exchanging)]\<rparr>" (is "_ = ?st")
    by (simp add: auth_ok_step_def auth_load_def sign_in_begin_def cancel_pending_sign_in_def publish_def
        set_auth_status_def Let_def set_phase_def)
  with late_sign_in_outlives_sign_out [of ?st example_session "([], 0)" "[]"] show ?thesis
    by (simp add: auth_load_def)
qed

lemma signed_out_step:
  assumes "au_session st = None" "au_file st = None" "au_status st = SignedOut"
    and "\<forall>g phase. map_of (au_flows st) g = Some phase \<longrightarrow> phase \<in> {WaitingForCode, Cancelled}"
    and "e \<notin> insert ABegin (range ACode)"
  shows "au_session (auth_ok_step st e) = None \<and> au_file (auth_ok_step st e) = None
    \<and> au_status (auth_ok_step st e) = SignedOut
    \<and> (\<forall>g phase. map_of (au_flows (auth_ok_step st e)) g = Some phase \<longrightarrow> phase \<in> {WaitingForCode, Cancelled})"
proof -
  have filtered: "map_of (filter (\<lambda>(h, _). h \<noteq> g) fs) h = (if h = g then None else map_of fs h)" for fs g h
    by (induction fs) auto
  show ?thesis
  proof (cases e)
    case (AFinish g err)
    have "map_of (au_flows st) g \<noteq> Some (Stored a)" for a
      using assms(4) by (metis flow_phase.distinct(5,9) insertE singletonD)
    with assms AFinish show ?thesis
      by (auto simp: auth_ok_step_def sign_in_finish_def publish_def set_auth_status_def Let_def
          filtered split: option.split flow_phase.split if_splits)
  qed (use assms in \<open>auto simp: auth_ok_step_def sign_out_def Let_def publish_def set_auth_status_def
      forget_stored_session_def access_token_def discard_access_token_def map_of_cancel split: if_splits\<close>)
qed

text \<open>
  Otherwise a sign-out lasts: while no attempt had a code yet, nothing but a new sign-in (or an
  attempt that is given a code after all) brings a session back, in memory or on disk.
\<close>

theorem sign_out_lasts:
  assumes "\<forall>g phase. map_of (au_flows st) g = Some phase \<longrightarrow> phase \<in> {WaitingForCode, Cancelled}"
    and "au_path st" and "set events \<inter> insert ABegin (range ACode) = {}"
  shows "au_session (foldl auth_ok_step (auth_ok_step st ASignOut) events) = None
    \<and> au_file (foldl auth_ok_step (auth_ok_step st ASignOut) events) = None
    \<and> au_status (foldl auth_ok_step (auth_ok_step st ASignOut) events) = SignedOut"
proof -
  let ?quiet = "\<lambda>st. au_session st = None \<and> au_file st = None \<and> au_status st = SignedOut
    \<and> (\<forall>g phase. map_of (au_flows st) g = Some phase \<longrightarrow> phase \<in> {WaitingForCode, Cancelled})"
  have "?quiet (auth_ok_step st ASignOut)"
    using assms(1,2) by (auto simp: auth_ok_step_def sign_out_def Let_def publish_def set_auth_status_def
        forget_stored_session_def map_of_cancel split: if_splits)
  with assms(3) have "?quiet (foldl auth_ok_step (auth_ok_step st ASignOut) events)"
  proof (induction events rule: rev_induct)
    case (snoc e es)
    then have "?quiet (foldl auth_ok_step (auth_ok_step st ASignOut) es)" by auto
    moreover have "e \<notin> insert ABegin (range ACode)" using snoc.prems(1) by auto
    ultimately have "?quiet (auth_ok_step (foldl auth_ok_step (auth_ok_step st ASignOut) es) e)"
      by (intro signed_out_step) auto
    then show ?case by simp
  qed simp
  then show ?thesis by blast
qed

theorem sign_out_lasts_witness:
  "au_session (foldl auth_ok_step (auth_ok_step (auth_load True (Some example_session)) ASignOut)
     [AToken 0 0 (NoAnswer HttpTimeout), ACancel, AFinish 0 []]) = None"
  using sign_out_lasts [of "auth_load True (Some example_session)"
      "[AToken 0 0 (NoAnswer HttpTimeout), ACancel, AFinish 0 []]"]
  by (simp add: auth_load_def image_iff)

text \<open>
  A token that is handed out is good for more than a minute: it is the remembered one, unchanged and
  without asking the account service, or a new one; and from then on the same token is handed out,
  without asking, until a minute before it ends.
\<close>

theorem access_tokens_stay_fresh:
  assumes "access_token f now later answer fault removed st = (Ok token, st', asked)"
  shows "\<exists>s ends. au_session st' = Some s \<and> as_access s = Some (token, ends)
    \<and> (\<not> asked \<longrightarrow> st' = st \<and> now + expiry_margin < ends)
    \<and> (asked \<longrightarrow> (\<exists>status tokens. answer = Answer status (Some tokens) \<and> is_success status
          \<and> token = tr_access tokens \<and> ends = token_expiry later (tr_expires tokens)))
    \<and> (\<forall>now' f' later' answer' fault' removed'. now' + expiry_margin < ends \<longrightarrow>
          access_token f' now' later' answer' fault' removed' st' = (Ok token, st', False))"
proof (cases "au_session st")
  case None
  with assms show ?thesis by (simp add: access_token_def)
next
  case (Some s)
  show ?thesis
  proof (cases "\<exists>ends. as_access s = Some (token, ends) \<and> now + expiry_margin < ends")
    case True
    with Some assms show ?thesis by (auto simp: access_token_def)
  next
    case False
    with Some assms have stale: "(case as_access s of
        Some (token, expires_at) \<Rightarrow> if now + expiry_margin < expires_at then Some token else None
      | None \<Rightarrow> None) = None"
      by (auto simp: access_token_def split: option.splits if_splits)
    with Some assms obtain status body where answer: "answer = Answer status body"
      by (cases answer) (auto simp: access_token_def)
    from Some assms stale answer have ok: "is_success status" "\<not> is_client_error status"
      by (auto simp: access_token_def split: if_splits)
    with Some assms stale answer obtain tokens where body: "body = Some tokens"
      by (cases body) (auto simp: access_token_def)
    from Some assms stale answer ok body have token: "token = tr_access tokens" and asked
      by (auto simp: access_token_def Let_def split: option.splits if_splits)
    moreover obtain s' where "au_session st' = Some s'"
      "as_access s' = Some (token, token_expiry later (tr_expires tokens))"
      using Some assms stale answer ok body token
      by (auto simp: access_token_def Let_def split: option.splits if_splits)
    ultimately show ?thesis
      using answer body ok
      by (intro exI [of _ s'] exI [of _ "token_expiry later (tr_expires tokens)"]) (simp add: access_token_def)
  qed
qed

theorem access_tokens_stay_fresh_witness:
  "\<exists>s ends. au_session (fst (snd (access_token (\<lambda>_. []) 5 7
       (Answer 200 (Some \<lparr>tr_access = [65], tr_refresh = None, tr_expires = Some 3600, tr_id = None\<rparr>))
       None True (auth_load True (Some example_session))))) = Some s \<and> as_access s = Some ([65], ends)"
proof -
  let ?r = "access_token (\<lambda>_. []) 5 7
       (Answer 200 (Some \<lparr>tr_access = [65], tr_refresh = None, tr_expires = Some 3600, tr_id = None\<rparr>))
       None True (auth_load True (Some example_session))"
  have "?r = (Ok [65], fst (snd ?r), True)"
    by (simp add: access_token_def auth_load_def is_client_error_def is_success_def)
  from access_tokens_stay_fresh [OF this] show ?thesis by blast
qed

text \<open>
  C26: Only the browser's answer to this very attempt yields a code: the code comes from a request for
  the callback that carries the state of the attempt and reports no error, and every earlier request
  that could be read was answered with an error (400 or 404).
\<close>

theorem code_comes_from_own_redirect:
  assumes "receive_code url_target expected conns = (answers, Some (Ok code))"
  shows "\<exists>pre target post pairs. conns = pre @ Target target # post
    \<and> url_target target = Some (callback_path, pairs)
    \<and> map_of (rev pairs) (str_lit ''state'') = Some expected
    \<and> map_of (rev pairs) (str_lit ''error'') = None
    \<and> map_of (rev pairs) (str_lit ''code'') = Some code
    \<and> (\<exists>refused. answers = refused @ [200] \<and> set refused \<subseteq> {400, 404}
          \<and> length refused = length (filter (\<lambda>c. c \<notin> {AcceptFailed, NoTarget}) pre))"
  using assms
proof (induction conns arbitrary: answers)
  case (Cons c cs)
  have later: ?case
    if "receive_code url_target expected cs = (more, Some (Ok code))"
      and "answers = (if c \<in> {AcceptFailed, NoTarget} then more else status # more)"
      and "status \<in> {400, 404}" for more status
  proof -
    from Cons.IH [OF that(1)] obtain pre target post pairs refused where
      *: "cs = pre @ Target target # post" "url_target target = Some (callback_path, pairs)"
        "map_of (rev pairs) (str_lit ''state'') = Some expected" "map_of (rev pairs) (str_lit ''error'') = None"
        "map_of (rev pairs) (str_lit ''code'') = Some code" "more = refused @ [200]" "set refused \<subseteq> {400, 404}"
        "length refused = length (filter (\<lambda>c. c \<notin> {AcceptFailed, NoTarget}) pre)"
      by blast
    let ?refused = "if c \<in> {AcceptFailed, NoTarget} then refused else status # refused"
    have "answers = ?refused @ [200]" "set ?refused \<subseteq> {400, 404}"
      "length ?refused = length (filter (\<lambda>c. c \<notin> {AcceptFailed, NoTarget}) (c # pre))"
      using * that(2,3) by auto
    moreover have "c # cs = (c # pre) @ Target target # post" using * by simp
    ultimately show ?thesis using *(2-5) by blast
  qed
  show ?case
  proof (cases c)
    case (Target target)
    show ?thesis
    proof (cases "\<exists>pairs. url_target target = Some (callback_path, pairs)
        \<and> map_of (rev pairs) (str_lit ''state'') = Some expected
        \<and> map_of (rev pairs) (str_lit ''error'') = None
        \<and> map_of (rev pairs) (str_lit ''code'') = Some code \<and> answers = [200]")
      case True
      then have "\<exists>pairs. c # cs = [] @ Target target # cs \<and> url_target target = Some (callback_path, pairs)
        \<and> map_of (rev pairs) (str_lit ''state'') = Some expected
        \<and> map_of (rev pairs) (str_lit ''error'') = None
        \<and> map_of (rev pairs) (str_lit ''code'') = Some code
        \<and> answers = [] @ [200] \<and> set [] \<subseteq> {400, 404}
        \<and> length [] = length (filter (\<lambda>c. c \<notin> {AcceptFailed, NoTarget}) [])"
        using Target by simp
      then show ?thesis by blast
    next
      case False
      with Cons.prems Target obtain more status where
        "receive_code url_target expected cs = (more, Some (Ok code))" "answers = status # more"
        "status \<in> {400, 404}"
        by (auto simp: Let_def split: option.splits if_splits prod.splits)
      with Target show ?thesis by (intro later [of more status]) simp_all
    qed
  next
    case AcceptFailed
    with Cons.prems show ?thesis by (intro later [of answers 400]) simp_all
  next
    case NoTarget
    with Cons.prems show ?thesis by (intro later [of answers 400]) simp_all
  qed
qed simp

definition example_target :: "rstr \<Rightarrow> (rstr \<times> (rstr \<times> rstr) list) option" where
  "example_target target =
     (if target = [1] then Some (callback_path, [(str_lit ''state'', [7]), (str_lit ''code'', [8])])
      else Some ([], []))"

theorem code_comes_from_own_redirect_witness:
  "\<exists>pre target post pairs. [NoTarget, Target [2], Target [1]] = pre @ Target target # post
    \<and> example_target target = Some (callback_path, pairs)
    \<and> map_of (rev pairs) (str_lit ''code'') = Some [8]"
proof -
  have "receive_code example_target [7] [NoTarget, Target [2], Target [1]] = ([404, 200], Some (Ok [8]))"
    by (simp add: example_target_def callback_path_def str_lit_def)
  from code_comes_from_own_redirect [OF this] show ?thesis by blast
qed


definition example_world :: sign_in_world where
  "example_world =
     \<lparr>sw_config = (\<lambda>_. Fetched \<lparr>rac_issuer = str_lit ''https://a/'', rac_client = [], rac_scopes = []\<rparr>),
      sw_metadata = (\<lambda>_. Fetched \<lparr>sm_issuer = str_lit ''https://a'', sm_authorization = [], sm_token = [],
                                  sm_revocation = None\<rparr>),
      sw_free = (\<lambda>p. p = 53683), sw_authorize = (\<lambda>_. True), sw_browser = Inr (), sw_state = [1],
      sw_code = (\<lambda>_. CodeArrived (Inr [2])),
      sw_exchange = (\<lambda>_ _ _. Answer 200 (Some \<lparr>tr_access = [3, 46, 4, 46, 5], tr_refresh = Some [6],
                                               tr_expires = None, tr_id = None\<rparr>))\<rparr>"

definition example_claims :: "rstr \<Rightarrow> id_claims option" where
  "example_claims p =
     (if p = [4] then Some \<lparr>ic_sub = [7], ic_email = None, ic_name = None, ic_given = None, ic_family = None\<rparr>
      else None)"


end
