(* ===== verification/Relay.thy ===== *)
theory Relay
  imports Tunnel Settings Auth
begin

text \<open>
  \<open>apps/desktop/src-tauri/src/relay.rs\<close>: the connection to a relay. The WebSocket, JSON and URL
  libraries are parameters; a request's reply channel is a number. Times are nanoseconds.
\<close>

section \<open>What the user sees\<close>

datatype relay_status =
    RelayOff
  | RelayNeedsSignIn
  | RelayConnecting
  | RelayConnected
  | RelayFailed rstr "nat option"

record relay_join =
  rj_show :: bool
  rj_enter :: bool

definition join_default :: relay_join where
  "join_default = \<lparr>rj_show = False, rj_enter = False\<rparr>"

definition join_new :: "device_id \<Rightarrow> device_id list \<Rightarrow> device_id list \<Rightarrow> relay_join" where
  "join_new me online paired =
     foldl (\<lambda>s d. if me < d then s\<lparr>rj_show := True\<rparr> else s\<lparr>rj_enter := True\<rparr>) join_default
       (filter (\<lambda>d. d \<noteq> me \<and> d \<notin> set paired) online)"

text \<open>The texts sent to the relay, and the requests of the app with where to reply.\<close>

datatype relay_text = RegisterText rstr device_id | TestText rstr | DevicesText

datatype relay_request = TestRequest rstr nat | PairRequest rstr nat

text \<open>
  \<open>PairOver\<close> starts pairing over the tunnels to some devices, with a code, and replies with the outcome.
\<close>

datatype relay_effect =
    EmitRelay relay_status
  | EmitJoin relay_join
  | Notify string
  | EmitMessage rstr rstr
  | EmitAuth auth_status
  | DiscardToken
  | SendText relay_text
  | SendFrame "byte list"
  | SendPing
  | ReplyTest nat "rstr + u32"
  | ReplyPair nat "rstr + rstr"
  | PairOver "device_id list" rstr nat
  | AcceptOver device_id
  | ConnectOver device_id

definition refuse_request :: "rstr \<Rightarrow> relay_request \<Rightarrow> relay_effect" where
  "refuse_request error out =
     (case out of TestRequest _ r \<Rightarrow> ReplyTest r (Err error) | PairRequest _ r \<Rightarrow> ReplyPair r (Err error))"

record relay_reporter =
  rr_status :: relay_status
  rr_join :: relay_join

definition set_join :: "relay_join \<Rightarrow> relay_reporter \<Rightarrow> relay_reporter \<times> relay_effect list" where
  "set_join join rp =
     (let previous = rr_join rp; rp = rp\<lparr>rr_join := join\<rparr>
      in if previous = join then (rp, [])
         else (rp, EmitJoin join #
           (if rj_enter join \<and> \<not> rj_enter previous
            then [Notify ''A new device signed in to your account. Open Cled and enter the code it shows to start syncing.'']
            else if rj_show join \<and> \<not> rj_show previous
            then [Notify ''Another device on your account wants to sync. Open Cled to see the code to enter there.'']
            else [])))"

definition report :: "relay_status \<Rightarrow> relay_reporter \<Rightarrow> relay_reporter \<times> relay_effect list" where
  "report s rp =
     (let (rp, joins) = (if s \<noteq> RelayConnected then set_join join_default rp else (rp, []))
      in if rr_status rp = s then (rp, joins)
         else (rp\<lparr>rr_status := s\<rparr>, joins @ [EmitRelay s]))"

section \<open>What the connection should do\<close>

datatype desired = DesiredOff | DesiredSignIn | DesiredConnect rstr

record relay_inputs =
  ri_mode :: connection_mode
  ri_url :: rstr
  ri_signed_in :: bool

text \<open>The \<open>url\<close> crate: parsing, changing the scheme and the path, and the text of a URL.\<close>

record url_lib =
  ul_parse :: "rstr \<Rightarrow> url option"
  ul_set_scheme :: "rstr \<Rightarrow> url \<Rightarrow> url option"
  ul_set_path :: "rstr \<Rightarrow> url \<Rightarrow> url"
  ul_text :: "url \<Rightarrow> rstr"

definition socket_url :: "url_lib \<Rightarrow> rstr \<Rightarrow> rstr option" where
  "socket_url lib relay_url =
     (case ul_parse lib relay_url of
        None \<Rightarrow> None
      | Some u \<Rightarrow>
          (case (if url_scheme u = str_lit ''http'' then Some (str_lit ''ws'')
                 else if url_scheme u = str_lit ''https'' then Some (str_lit ''wss'') else None) of
             None \<Rightarrow> None
           | Some scheme \<Rightarrow>
               (case ul_set_scheme lib scheme u of
                  None \<Rightarrow> None
                | Some u \<Rightarrow>
                    Some (ul_text lib ((ul_set_path lib (trim_slash (url_path u) @ str_lit ''/relay'') u)
                                         \<lparr>url_query := None, url_fragment := None\<rparr>)))))"

definition desired_from_inputs :: "url_lib \<Rightarrow> relay_inputs \<Rightarrow> desired" where
  "desired_from_inputs lib inputs =
     (if ri_mode inputs \<noteq> RelayMode then DesiredOff
      else if \<not> ri_signed_in inputs then DesiredSignIn
      else case socket_url lib (ri_url inputs) of
             Some u \<Rightarrow> DesiredConnect u
           | None \<Rightarrow> DesiredOff)"

text \<open>\<open>rc_changed\<close>: the watched value changed since the connection task last looked at it.\<close>

record relay_control =
  rc_inputs :: relay_inputs
  rc_desired :: desired
  rc_changed :: bool

definition control_new :: "url_lib \<Rightarrow> settings \<Rightarrow> bool \<Rightarrow> relay_control" where
  "control_new lib s signed_in =
     (let inputs = \<lparr>ri_mode = se_mode s, ri_url = se_relay s, ri_signed_in = signed_in\<rparr>
      in \<lparr>rc_inputs = inputs, rc_desired = desired_from_inputs lib inputs, rc_changed = False\<rparr>)"

definition control_update ::
  "url_lib \<Rightarrow> (relay_inputs \<Rightarrow> relay_inputs) \<Rightarrow> relay_control \<Rightarrow> relay_control" where
  "control_update lib change c =
     (let inputs = change (rc_inputs c); next = desired_from_inputs lib inputs
      in c\<lparr>rc_inputs := inputs, rc_changed := (rc_changed c \<or> rc_desired c \<noteq> next), rc_desired := next\<rparr>)"

definition configure :: "url_lib \<Rightarrow> settings \<Rightarrow> relay_control \<Rightarrow> relay_control" where
  "configure lib s = control_update lib (\<lambda>inputs. inputs\<lparr>ri_mode := se_mode s, ri_url := se_relay s\<rparr>)"

definition set_signed_in :: "url_lib \<Rightarrow> bool \<Rightarrow> relay_control \<Rightarrow> relay_control" where
  "set_signed_in lib b = control_update lib (\<lambda>inputs. inputs\<lparr>ri_signed_in := b\<rparr>)"

section \<open>Opening a connection\<close>

datatype server_message =
    Registered
  | Message rstr rstr
  | Sent u32
  | Devices "rstr list"
  | ServerError rstr rstr

text \<open>What the WebSocket stream yields: a frame (a close with its code), an error, or its end.\<close>

datatype ws_item =
    WsText rstr
  | WsBinary "byte list"
  | WsClose "u16 option"
  | WsOther
  | WsError rstr
  | WsEnd

datatype end_kind = EndFailed | EndDropped | EndReplaced | EndUnauthorized | EndSignedOut

record ended =
  en_error :: rstr
  en_kind :: end_kind

definition dropped :: "rstr \<Rightarrow> ended" where
  "dropped error = \<lparr>en_error = error, en_kind = EndDropped\<rparr>"

definition lost_connection :: "rstr \<Rightarrow> ended" where
  "lost_connection error = dropped (str_lit ''Lost the connection: '' @ error)"

datatype ws_failure = HttpAnswer rstr | IoFailure rstr | TlsFailure rstr | OtherFailure rstr

definition describe_connect_error :: "ws_failure \<Rightarrow> rstr" where
  "describe_connect_error e =
     (case e of
        HttpAnswer code \<Rightarrow>
          str_lit ''The server answered HTTP '' @ code
            @ str_lit '' instead of accepting the connection. Is this a Cled relay URL?''
      | IoFailure e \<Rightarrow> str_lit ''Couldn't reach the relay: '' @ e
      | TlsFailure e \<Rightarrow> str_lit ''Secure connection failed: '' @ e
      | OtherFailure e \<Rightarrow> str_lit ''Couldn't connect: '' @ e)"

text \<open>\<open>parse\<close> reads a JSON message. \<open>None\<close>: no message came in time.\<close>

fun next_server_message ::
  "(rstr \<Rightarrow> server_message option) \<Rightarrow> ws_item list \<Rightarrow> (rstr + server_message) option" where
  "next_server_message parse [] = None"
| "next_server_message parse (item # items) =
     (case item of
        WsText t \<Rightarrow> Some (case parse t of
                            Some m \<Rightarrow> Ok m
                          | None \<Rightarrow> Err (str_lit ''The relay answered unexpectedly.''))
      | WsClose _ \<Rightarrow> Some (Err (str_lit ''The relay closed the connection.''))
      | WsEnd \<Rightarrow> Some (Err (str_lit ''The relay closed the connection.''))
      | WsError e \<Rightarrow> Some (Err (str_lit ''Lost the connection: '' @ e))
      | WsBinary _ \<Rightarrow> next_server_message parse items
      | WsOther \<Rightarrow> next_server_message parse items)"

datatype ws_connect = SocketOpen | SocketError ws_failure | SocketTimeout

text \<open>
  \<open>session\<close> up to the registration: the access token, connecting, sending the registration (\<open>Some\<close>: it
  failed) and the items that arrive in time.
\<close>

definition session_open ::
  "(rstr \<Rightarrow> server_message option) \<Rightarrow> device_id \<Rightarrow> token_error + rstr \<Rightarrow> ws_connect \<Rightarrow> rstr option
   \<Rightarrow> ws_item list \<Rightarrow> (ended + unit) \<times> relay_effect list" where
  "session_open parse device token connect unsent items =
     (let failed = (\<lambda>error. \<lparr>en_error = error, en_kind = EndFailed\<rparr>)
      in case token of
           Inl TokenSignedOut \<Rightarrow> (Err \<lparr>en_error = str_lit ''Signed out.'', en_kind = EndSignedOut\<rparr>, [])
         | Inl (TokenUnavailable e) \<Rightarrow> (Err (failed (str_lit e)), [])
         | Inr access \<Rightarrow>
             (case connect of
                SocketError e \<Rightarrow> (Err (failed (describe_connect_error e)), [])
              | SocketTimeout \<Rightarrow> (Err (failed (str_lit ''The relay didn't answer in time.'')), [])
              | SocketOpen \<Rightarrow>
                  (case unsent of
                     Some e \<Rightarrow> (Err (failed (str_lit ''Lost the connection while registering: '' @ e)), [])
                   | None \<Rightarrow>
                       (case next_server_message parse items of
                          Some (Inr Registered) \<Rightarrow> Ok ()
                        | Some (Inr (ServerError code m)) \<Rightarrow>
                            if code = str_lit ''unauthorized''
                            then Err \<lparr>en_error = str_lit ''The relay didn't accept your sign-in.'',
                                      en_kind = EndUnauthorized\<rparr>
                            else Err (failed (str_lit ''The relay refused this device: '' @ m))
                        | Some (Inr _) \<Rightarrow> Err (failed (str_lit ''The relay answered unexpectedly.''))
                        | Some (Inl e) \<Rightarrow> Err (failed e)
                        | None \<Rightarrow> Err (failed (str_lit ''The relay didn't confirm the registration.'')),
                        [SendText (RegisterText access device)]))))"

section \<open>A registered connection\<close>

definition replaced_close_code :: u16 where "replaced_close_code = 4001"
definition unauthorized_close_code :: u16 where "unauthorized_close_code = 4401"
definition ping_interval :: nat where "ping_interval = secs 20"
definition idle_timeout :: nat where "idle_timeout = secs 50"

record relay_session =
  sn_tunnels :: tunnels
  sn_pending :: "nat list"
  sn_pairing :: "(rstr \<times> nat) option"
  sn_online :: "device_id list"
  sn_last_seen :: nat

definition relay_session_new :: "nat \<Rightarrow> relay_session" where
  "relay_session_new now =
     \<lparr>sn_tunnels = tunnels_new, sn_pending = [], sn_pairing = None, sn_online = [], sn_last_seen = now\<rparr>"

text \<open>
  What a step finds: the libraries, the node if sync runs, the time, and the send that fails in this
  step (its number and the error), if any.
\<close>

record session_env =
  sv_fmt :: "128 word \<Rightarrow> rstr"
  sv_uuid :: "rstr \<Rightarrow> 128 word option"
  sv_parse :: "rstr \<Rightarrow> server_message option"
  sv_me :: device_id
  sv_node :: "node option"
  sv_now :: nat
  sv_lost :: "(nat \<times> rstr) option"

definition send_from :: "nat \<Rightarrow> session_env \<Rightarrow> relay_effect list \<Rightarrow> relay_effect list \<times> ended option" where
  "send_from n env items =
     (case sv_lost env of
        Some (m, e) \<Rightarrow>
          if n \<le> m \<and> m < n + length items then (take (m - n) items, Some (lost_connection e)) else (items, None)
      | None \<Rightarrow> (items, None))"

definition update_join ::
  "session_env \<Rightarrow> device_id list \<Rightarrow> relay_reporter \<Rightarrow> relay_reporter \<times> relay_effect list" where
  "update_join env online rp =
     (case sv_node env of
        None \<Rightarrow> (rp, [])
      | Some nd \<Rightarrow> set_join (join_new (sv_me env) online (map pst_id (peer_statuses nd))) rp)"

text \<open>A step's result: how the connection ended, if it did; its state; the reporter; the effects.\<close>

type_synonym session_result = "ended option \<times> relay_session \<times> relay_reporter \<times> relay_effect list"

definition answer_test :: "(rstr + u32) \<Rightarrow> relay_session \<Rightarrow> relay_reporter \<Rightarrow> session_result" where
  "answer_test result s rp =
     (case sn_pending s of
        [] \<Rightarrow> (None, s, rp, [])
      | r # rs \<Rightarrow> (None, s\<lparr>sn_pending := rs\<rparr>, rp, [ReplyTest r result]))"

definition on_devices :: "session_env \<Rightarrow> rstr list \<Rightarrow> relay_session \<Rightarrow> relay_reporter \<Rightarrow> session_result" where
  "on_devices env ids s rp =
     (let online = List.map_filter (device_id_from_str (sv_uuid env)) ids;
          s = s\<lparr>sn_online := online\<rparr>;
          (rp, joins) = update_join env online rp
      in case sn_pairing s of
           None \<Rightarrow> (None, s, rp, joins)
         | Some (code, r) \<Rightarrow>
             (let s = s\<lparr>sn_pairing := None\<rparr>
              in case sv_node env of
                   None \<Rightarrow>
                     (None, s, rp, joins @ [ReplyPair r (Err (str_lit ''Sync isn't available on this device.''))])
                 | Some nd \<Rightarrow>
                     (let (opens, ts) = tunnels_pair (sv_fmt env) (sv_uuid env) ids nd (sn_tunnels s);
                          (sent, lost) = send_from 0 env (map (\<lambda>(_, frame). SendFrame frame) opens)
                      in (lost, s\<lparr>sn_tunnels := ts\<rparr>, rp,
                          joins @ sent @ (if lost = None then [PairOver (map fst opens) code r] else [])))))"

definition on_server_message ::
  "session_env \<Rightarrow> rstr \<Rightarrow> relay_session \<Rightarrow> relay_reporter \<Rightarrow> session_result" where
  "on_server_message env t s rp =
     (case sv_parse env t of
        None \<Rightarrow> (None, s, rp, [])
      | Some Registered \<Rightarrow> (None, s, rp, [])
      | Some (Message device m) \<Rightarrow> (None, s, rp, [EmitMessage device m])
      | Some (Sent recipients) \<Rightarrow> answer_test (Ok recipients) s rp
      | Some (ServerError code m) \<Rightarrow>
          answer_test (Err (if code = str_lit ''no_other_devices''
                            then str_lit ''No other devices are signed in to this account right now.''
                            else m)) s rp
      | Some (Devices ids) \<Rightarrow> on_devices env ids s rp)"

definition send_reply ::
  "session_env \<Rightarrow> byte list option \<Rightarrow> relay_session \<Rightarrow> relay_reporter \<Rightarrow> relay_effect list \<Rightarrow> session_result" where
  "send_reply env frame s rp effects =
     (case frame of
        None \<Rightarrow> (None, s, rp, effects)
      | Some bytes \<Rightarrow>
          (let (sent, lost) = send_from 0 env [SendFrame bytes] in (lost, s, rp, effects @ sent)))"

definition on_ws_item :: "session_env \<Rightarrow> ws_item \<Rightarrow> relay_session \<Rightarrow> relay_reporter \<Rightarrow> session_result" where
  "on_ws_item env item s rp =
     (let s = s\<lparr>sn_last_seen := sv_now env\<rparr>
      in case item of
           WsText t \<Rightarrow> on_server_message env t s rp
         | WsBinary frame \<Rightarrow>
             (let (opened, reply, ts) =
                    tunnels_receive (sv_fmt env) (sv_uuid env) (sv_node env \<noteq> None) frame (sn_tunnels s)
              in send_reply env reply (s\<lparr>sn_tunnels := ts\<rparr>) rp
                   (case opened of Some d \<Rightarrow> [AcceptOver d] | None \<Rightarrow> []))
         | WsClose code \<Rightarrow>
             (Some (if code = Some replaced_close_code
                    then \<lparr>en_error = str_lit ''This device connected to the relay again from somewhere else.'',
                          en_kind = EndReplaced\<rparr>
                    else if code = Some unauthorized_close_code
                    then \<lparr>en_error = str_lit ''The relay didn't accept your sign-in.'', en_kind = EndUnauthorized\<rparr>
                    else dropped (str_lit ''The relay closed the connection.'')), s, rp, [])
         | WsOther \<Rightarrow> (None, s, rp, [])
         | WsError e \<Rightarrow> (Some (lost_connection e), s, rp, [])
         | WsEnd \<Rightarrow> (Some (dropped (str_lit ''The relay closed the connection.'')), s, rp, []))"

definition on_request ::
  "session_env \<Rightarrow> relay_request \<Rightarrow> relay_session \<Rightarrow> relay_reporter \<Rightarrow> session_result" where
  "on_request env out s rp =
     (case out of
        TestRequest m r \<Rightarrow>
          (case send_from 0 env [SendText (TestText m)] of
             (sent, Some e) \<Rightarrow> (Some e, s, rp, sent)
           | (sent, None) \<Rightarrow> (None, s\<lparr>sn_pending := sn_pending s @ [r]\<rparr>, rp, sent))
      | PairRequest code r \<Rightarrow>
          if sn_pairing s \<noteq> None then (None, s, rp, [refuse_request (str_lit ''Already pairing.'') out])
          else (case send_from 0 env [SendText DevicesText] of
                  (sent, Some e) \<Rightarrow> (Some e, s, rp, sent)
                | (sent, None) \<Rightarrow> (None, s\<lparr>sn_pairing := Some (code, r)\<rparr>, rp, sent)))"

definition on_tunnel_output :: "session_env \<Rightarrow> relay_session \<Rightarrow> relay_reporter \<Rightarrow> session_result" where
  "on_tunnel_output env s rp =
     (case ts_queue (sn_tunnels s) of
        [] \<Rightarrow> (None, s, rp, [])
      | q # qs \<Rightarrow>
          (let (frame, ts) = on_pumped (sv_fmt env) q ((sn_tunnels s)\<lparr>ts_queue := qs\<rparr>)
           in send_reply env frame (s\<lparr>sn_tunnels := ts\<rparr>) rp []))"

definition on_dial_tick :: "session_env \<Rightarrow> relay_session \<Rightarrow> relay_reporter \<Rightarrow> session_result" where
  "on_dial_tick env s rp =
     (case sv_node env of
        None \<Rightarrow> (None, s, rp, [])
      | Some nd \<Rightarrow>
          (let (opens, ts) = tunnels_dial (sv_fmt env) (sv_now env) nd (sn_tunnels s);
               s = s\<lparr>sn_tunnels := ts\<rparr>;
               connects = map (\<lambda>(d, _). ConnectOver d) opens;
               (sent, lost) = send_from 0 env (map (\<lambda>(_, frame). SendFrame frame) opens)
           in if lost \<noteq> None then (lost, s, rp, connects @ sent)
              else (let (rp, joins) = update_join env (sn_online s) rp;
                        (asked, lost) = send_from (length opens) env [SendText DevicesText]
                    in (lost, s, rp, connects @ sent @ joins @ asked))))"

definition on_ping_tick :: "session_env \<Rightarrow> relay_session \<Rightarrow> relay_reporter \<Rightarrow> session_result" where
  "on_ping_tick env s rp =
     (if idle_timeout < sv_now env - sn_last_seen s
      then (Some (dropped (str_lit ''The relay stopped responding.'')), s, rp, [])
      else (let (sent, lost) = send_from 0 env [SendPing] in (lost, s, rp, sent)))"

text \<open>Sessions over tunnels write, end and go away meanwhile (\<open>Tunnel.tunnel_step\<close>).\<close>

datatype session_event =
    SItem ws_item
  | SRequest relay_request
  | STunnelOutput
  | SDialTick
  | SPingTick
  | SWrote tunnel_key "byte list"
  | SEnded tunnel_key
  | SGone tunnel_key

fun session_step :: "session_env \<Rightarrow> session_event \<Rightarrow> relay_session \<Rightarrow> relay_reporter \<Rightarrow> session_result" where
  "session_step env (SItem item) s rp = on_ws_item env item s rp"
| "session_step env (SRequest out) s rp = on_request env out s rp"
| "session_step env STunnelOutput s rp = on_tunnel_output env s rp"
| "session_step env SDialTick s rp = on_dial_tick env s rp"
| "session_step env SPingTick s rp = on_ping_tick env s rp"
| "session_step env (SWrote key bytes) s rp =
     (None, s\<lparr>sn_tunnels := tunnel_after (sv_fmt env) (sv_uuid env) (sn_tunnels s) (TWrote key bytes)\<rparr>, rp, [])"
| "session_step env (SEnded key) s rp =
     (None, s\<lparr>sn_tunnels := tunnel_after (sv_fmt env) (sv_uuid env) (sn_tunnels s) (TEnded key)\<rparr>, rp, [])"
| "session_step env (SGone key) s rp =
     (None, s\<lparr>sn_tunnels := tunnel_after (sv_fmt env) (sv_uuid env) (sn_tunnels s) (TGone key)\<rparr>, rp, [])"

section \<open>The connection task\<close>

definition min_retry :: nat where "min_retry = secs 1"
definition max_retry :: nat where "max_retry = secs 30"

definition next_retry :: "nat \<Rightarrow> nat" where
  "next_retry retry = min (retry * 2) max_retry"

text \<open>
  Idle with a delay (or none) after a connection ended in some way (or none was wanted), connecting, or
  connected.
\<close>

datatype task_phase =
    TaskIdle "nat option" "end_kind option"
  | TaskConnecting rstr
  | TaskConnected rstr relay_session

record relay_task =
  rt_retry :: nat
  rt_rejections :: nat
  rt_control :: relay_control
  rt_reporter :: relay_reporter
  rt_requests :: "relay_request list"
  rt_phase :: task_phase

definition task_report :: "relay_status \<Rightarrow> relay_task \<Rightarrow> relay_task \<times> relay_effect list" where
  "task_report s t =
     (let (rp, effects) = report s (rt_reporter t) in (t\<lparr>rt_reporter := rp\<rparr>, effects))"

text \<open>The head of the loop: look at the desired state, and idle or start connecting.\<close>

definition task_loop :: "relay_task \<Rightarrow> relay_task \<times> relay_effect list" where
  "task_loop t =
     (let t = t\<lparr>rt_control := (rt_control t)\<lparr>rc_changed := False\<rparr>\<rparr>
      in case rc_desired (rt_control t) of
           DesiredOff \<Rightarrow>
             (let (t, effects) = task_report RelayOff t in (t\<lparr>rt_phase := TaskIdle None None\<rparr>, effects))
         | DesiredSignIn \<Rightarrow>
             (let (t, effects) = task_report RelayNeedsSignIn t in (t\<lparr>rt_phase := TaskIdle None None\<rparr>, effects))
         | DesiredConnect u \<Rightarrow>
             (let (t, effects) = task_report RelayConnecting t in (t\<lparr>rt_phase := TaskConnecting u\<rparr>, effects)))"

definition relay_start :: "url_lib \<Rightarrow> settings \<Rightarrow> bool \<Rightarrow> relay_task \<times> relay_effect list" where
  "relay_start lib s signed_in =
     task_loop \<lparr>rt_retry = min_retry, rt_rejections = 0, rt_control = control_new lib s signed_in,
                rt_reporter = \<lparr>rr_status = RelayOff, rr_join = join_default\<rparr>, rt_requests = [],
                rt_phase = TaskIdle None None\<rparr>"

text \<open>The end of a connection.\<close>

definition task_ended :: "url_lib \<Rightarrow> ended \<Rightarrow> relay_task \<Rightarrow> relay_task \<times> relay_effect list" where
  "task_ended lib e t =
     (if en_kind e = EndSignedOut
      then (let (t, effects) = task_loop (t\<lparr>rt_control := set_signed_in lib False (rt_control t)\<rparr>)
            in (t, EmitAuth SignedOut # effects))
      else
        (let (t, effects, retry_in) =
               (case en_kind e of
                  EndUnauthorized \<Rightarrow>
                    if rt_rejections t = 0 then (t\<lparr>rt_rejections := rt_rejections t + 1\<rparr>, [DiscardToken], Some 0)
                    else (t, [], None)
                | EndDropped \<Rightarrow> (t\<lparr>rt_rejections := 0, rt_retry := min_retry\<rparr>, [], Some min_retry)
                | EndFailed \<Rightarrow> (t, [], Some (rt_retry t))
                | _ \<Rightarrow> (t, [], None));
             error = (if en_kind e = EndUnauthorized \<and> retry_in = None
                      then str_lit ''The relay didn't accept your sign-in. Sign out and sign in again.''
                      else en_error e);
             (t, reported) = task_report (RelayFailed error (map_option (\<lambda>d. d div secs 1) retry_in)) t
         in (t\<lparr>rt_phase := TaskIdle retry_in (Some (en_kind e))\<rparr>, effects @ reported)))"

text \<open>After idling: because the desired state changed, or the delay passed.\<close>

definition task_resume :: "nat option \<Rightarrow> end_kind option \<Rightarrow> relay_task \<Rightarrow> relay_task \<times> relay_effect list" where
  "task_resume retry_in kind t =
     (let t = (if kind = Some EndFailed then t\<lparr>rt_retry := next_retry (rt_retry t)\<rparr> else t);
          t = (if kind \<noteq> None \<and> retry_in = None then t\<lparr>rt_retry := min_retry, rt_rejections := 0\<rparr> else t)
      in task_loop t)"

text \<open>
  Requests wait in a queue and are taken while the task idles (which refuses them) or is connected; a
  change of the desired state is noticed in every phase.
\<close>

datatype task_event =
    TkConfigure settings
  | TkSignedIn bool
  | TkSubmit relay_request
  | TkNotice
  | TkDelay
  | TkRefuse
  | TkOpened "token_error + rstr" ws_connect "rstr option" "ws_item list"
  | TkSession session_event

definition task_session :: "url_lib \<Rightarrow> session_env \<Rightarrow> session_event \<Rightarrow> relay_task \<Rightarrow> relay_task \<times> relay_effect list" where
  "task_session lib env e t =
     (case rt_phase t of
        TaskConnected u s \<Rightarrow>
          (let (finished, s, rp, effects) = session_step env e s (rt_reporter t);
               t = t\<lparr>rt_reporter := rp\<rparr>
           in case finished of
                None \<Rightarrow> (t\<lparr>rt_phase := TaskConnected u s\<rparr>, effects)
              | Some en \<Rightarrow> (let (t, more) = task_ended lib en t in (t, effects @ more)))
      | _ \<Rightarrow> (t, []))"

fun task_step ::
  "url_lib \<Rightarrow> relay_task \<Rightarrow> session_env \<times> task_event \<Rightarrow> relay_task \<times> relay_effect list" where
  "task_step lib t (env, TkConfigure s) = (t\<lparr>rt_control := configure lib s (rt_control t)\<rparr>, [])"
| "task_step lib t (env, TkSignedIn b) = (t\<lparr>rt_control := set_signed_in lib b (rt_control t)\<rparr>, [])"
| "task_step lib t (env, TkSubmit out) = (t\<lparr>rt_requests := rt_requests t @ [out]\<rparr>, [])"
| "task_step lib t (env, TkNotice) =
     (if \<not> rc_changed (rt_control t) then (t, [])
      else case rt_phase t of
             TaskIdle retry_in kind \<Rightarrow> task_resume retry_in kind t
           | _ \<Rightarrow> task_loop (t\<lparr>rt_retry := min_retry, rt_rejections := 0\<rparr>))"
| "task_step lib t (env, TkDelay) =
     (case rt_phase t of
        TaskIdle (Some d) kind \<Rightarrow> task_resume (Some d) kind t
      | _ \<Rightarrow> (t, []))"
| "task_step lib t (env, TkRefuse) =
     (case (rt_phase t, rt_requests t) of
        (TaskIdle _ _, out # outs) \<Rightarrow>
          (t\<lparr>rt_requests := outs\<rparr>, [refuse_request (str_lit ''Not connected to the relay.'') out])
      | _ \<Rightarrow> (t, []))"
| "task_step lib t (env, TkOpened token connect unsent items) =
     (case rt_phase t of
        TaskConnecting u \<Rightarrow>
          (case session_open (sv_parse env) (sv_me env) token connect unsent items of
             (Inl e, effects) \<Rightarrow> (let (t, more) = task_ended lib e t in (t, effects @ more))
           | (Inr _, effects) \<Rightarrow>
               (let (t, more) = task_report RelayConnected t
                in (t\<lparr>rt_phase := TaskConnected u (relay_session_new (sv_now env))\<rparr>, effects @ more)))
      | _ \<Rightarrow> (t, []))"
| "task_step lib t (env, TkSession e) =
     (case e of
        SRequest out \<Rightarrow>
          (case (rt_phase t, rt_requests t) of
             (TaskConnected _ _, next # outs) \<Rightarrow>
               if next = out then task_session lib env e (t\<lparr>rt_requests := outs\<rparr>) else (t, [])
           | _ \<Rightarrow> (t, []))
      | _ \<Rightarrow> task_session lib env e t)"

section \<open>Requests of the app\<close>

text \<open>How waiting for a reply ends: with the reply, because its channel was dropped, or too late.\<close>

datatype 'a request_end = Replied "rstr + 'a" | ReplyDropped | ReplyTooLate

definition send_relay_test :: "bool \<Rightarrow> u32 request_end \<Rightarrow> rstr + u32" where
  "send_relay_test alive e =
     (if \<not> alive then Err (str_lit ''Not connected to the relay.'')
      else case e of
             Replied result \<Rightarrow> result
           | ReplyDropped \<Rightarrow> Err (str_lit ''Not connected to the relay.'')
           | ReplyTooLate \<Rightarrow> Err (str_lit ''The relay didn't confirm the message.''))"

definition pair_through_relay :: "bool \<Rightarrow> rstr request_end \<Rightarrow> rstr + rstr" where
  "pair_through_relay alive e =
     (if \<not> alive then Err (str_lit ''Not connected to the relay.'')
      else case e of
             Replied result \<Rightarrow> result
           | ReplyDropped \<Rightarrow> Err (str_lit ''Not connected to the relay.'')
           | ReplyTooLate \<Rightarrow> Err (str_lit ''Pairing took too long. Try again.''))"

section \<open>Reporting\<close>

lemma rr_status_set_join [simp]: "rr_status (fst (set_join j rp)) = rr_status rp"
  by (simp add: set_join_def Let_def)

lemma rr_join_set_join [simp]: "rr_join (fst (set_join j rp)) = j"
  by (simp add: set_join_def Let_def)

lemma rr_status_report [simp]: "rr_status (fst (report s rp)) = s"
  by (simp add: report_def split: prod.split)

lemma rr_join_report: "rr_join (fst (report s rp)) = (if s = RelayConnected then rr_join rp else join_default)"
  by (auto simp: report_def split: prod.split) (metis fst_conv rr_join_set_join)+

lemma update_join_status [simp]: "rr_status (fst (update_join env online rp)) = rr_status rp"
  by (simp add: update_join_def split: option.split)

lemma send_reply_fields:
  "send_reply env frame s rp effects = (e, s', rp', out) \<Longrightarrow> s' = s \<and> rp' = rp"
  by (auto simp: send_reply_def split: option.splits prod.splits)

lemma answer_test_fields:
  "answer_test result s rp = (e, s', rp', out) \<Longrightarrow> e = None \<and> rp' = rp"
  by (auto simp: answer_test_def split: list.splits)

lemma on_devices_status:
  "on_devices env ids s rp = (e, s', rp', out) \<Longrightarrow> rr_status rp' = rr_status rp"
  by (auto simp: on_devices_def Let_def split: prod.splits option.splits) (metis fst_conv update_join_status)+

lemma session_step_status:
  assumes "session_step env e s rp = (fin, s', rp', out)"
  shows "rr_status rp' = rr_status rp"
proof (cases e)
  case (SItem item)
  with assms show ?thesis
    by (auto simp: on_ws_item_def on_server_message_def Let_def
        dest: on_devices_status send_reply_fields answer_test_fields
        split: ws_item.splits option.splits server_message.splits prod.splits)
next
  case (SRequest r)
  with assms show ?thesis
    by (auto simp: on_request_def split: relay_request.splits prod.splits option.splits if_splits)
next
  case STunnelOutput
  with assms show ?thesis
    by (auto simp: on_tunnel_output_def dest: send_reply_fields split: list.splits prod.splits)
next
  case SDialTick
  with assms show ?thesis
    by (auto simp: on_dial_tick_def Let_def split: option.splits prod.splits if_splits)
      (metis fst_conv update_join_status)
next
  case SPingTick
  with assms show ?thesis by (auto simp: on_ping_tick_def split: if_splits prod.splits)
qed (use assms in auto)

section \<open>The status tells what the task does\<close>

definition relay_inv :: "url_lib \<Rightarrow> relay_task \<Rightarrow> bool" where
  "relay_inv lib t \<longleftrightarrow>
     (let c = rt_control t; s = rr_status (rt_reporter t) in
      rc_desired c = desired_from_inputs lib (rc_inputs c)
      \<and> (s \<noteq> RelayConnected \<longrightarrow> rr_join (rt_reporter t) = join_default)
      \<and> (case rt_phase t of
           TaskIdle d kind \<Rightarrow>
             (case kind of
                None \<Rightarrow> d = None
                  \<and> (rc_changed c \<and> s \<in> {RelayOff, RelayNeedsSignIn}
                     \<or> rc_desired c = DesiredOff \<and> s = RelayOff
                     \<or> rc_desired c = DesiredSignIn \<and> s = RelayNeedsSignIn)
              | Some _ \<Rightarrow> (\<exists>error. s = RelayFailed error (map_option (\<lambda>d. d div secs 1) d))
                  \<and> (rc_changed c \<or> rc_desired c \<notin> {DesiredOff, DesiredSignIn}))
         | TaskConnecting u \<Rightarrow> s = RelayConnecting \<and> (rc_changed c \<or> rc_desired c = DesiredConnect u)
         | TaskConnected u _ \<Rightarrow> s = RelayConnected \<and> (rc_changed c \<or> rc_desired c = DesiredConnect u)))"

lemma task_report_fields:
  "task_report s t = (t', effects) \<Longrightarrow>
   t' = t\<lparr>rt_reporter := rt_reporter t'\<rparr> \<and> rr_status (rt_reporter t') = s
   \<and> (s \<noteq> RelayConnected \<longrightarrow> rr_join (rt_reporter t') = join_default)"
  using rr_join_report [of s "rt_reporter t"]
  by (auto simp: task_report_def case_prod_beta)

lemma relay_inv_loop:
  assumes "rc_desired (rt_control t) = desired_from_inputs lib (rc_inputs (rt_control t))"
  shows "relay_inv lib (fst (task_loop t))"
proof -
  let ?t = "t\<lparr>rt_control := (rt_control t)\<lparr>rc_changed := False\<rparr>\<rparr>"
  have "relay_inv lib (t'\<lparr>rt_phase := phase\<rparr>)"
    if "task_report s ?t = (t', effects)"
      and "(phase, s, rc_desired (rt_control t)) \<in> {(TaskIdle None None, RelayOff, DesiredOff),
             (TaskIdle None None, RelayNeedsSignIn, DesiredSignIn)}
           \<union> (\<lambda>u. (TaskConnecting u, RelayConnecting, DesiredConnect u)) ` UNIV" for t' effects phase s
    using task_report_fields [OF that(1)] that(2) assms
    by (cases t') (auto simp: relay_inv_def Let_def)
  then show ?thesis
    by (auto simp: task_loop_def Let_def split: desired.split prod.split)
qed

lemma relay_inv_update: "relay_inv lib t \<Longrightarrow> relay_inv lib (t\<lparr>rt_control := control_update lib f (rt_control t)\<rparr>)"
  by (auto simp: relay_inv_def Let_def control_update_def split: task_phase.splits option.splits)

lemma relay_inv_desired:
  "relay_inv lib t \<Longrightarrow> rc_desired (rt_control t) = desired_from_inputs lib (rc_inputs (rt_control t))"
  by (simp add: relay_inv_def Let_def)

lemma relay_inv_resume: "relay_inv lib t \<Longrightarrow> relay_inv lib (fst (task_resume d kind t))"
  unfolding task_resume_def Let_def by (intro relay_inv_loop) (auto dest: relay_inv_desired)

lemma relay_inv_ended:
  assumes "rc_desired (rt_control t) = desired_from_inputs lib (rc_inputs (rt_control t))"
    and "rc_changed (rt_control t) \<or> rc_desired (rt_control t) \<notin> {DesiredOff, DesiredSignIn}"
  shows "relay_inv lib (fst (task_ended lib e t))"
proof (cases "en_kind e = EndSignedOut")
  case True
  have "relay_inv lib (fst (task_loop (t\<lparr>rt_control := set_signed_in lib False (rt_control t)\<rparr>)))"
    by (intro relay_inv_loop) (simp add: set_signed_in_def control_update_def Let_def)
  with True show ?thesis by (simp add: task_ended_def case_prod_beta)
next
  case False
  have "relay_inv lib (t'\<lparr>rt_phase := TaskIdle d (Some (en_kind e))\<rparr>)"
    if "task_report (RelayFailed error (map_option (\<lambda>d. d div secs 1) d)) t0 = (t', effects)"
      and "rt_control t0 = rt_control t" for t0 t' effects error d
    using task_report_fields [OF that(1)] that(2) assms by (cases t') (auto simp: relay_inv_def Let_def)
  with False show ?thesis
    by (auto simp: task_ended_def Let_def split: prod.split end_kind.split)
qed

lemma relay_inv_session:
  assumes "relay_inv lib t"
  shows "relay_inv lib (fst (task_session lib env e t))"
proof (cases "rt_phase t")
  case (TaskConnected u s)
  obtain fin s' rp out where step: "session_step env e s (rt_reporter t) = (fin, s', rp, out)"
    by (metis prod_cases4)
  from assms TaskConnected have t: "rr_status (rt_reporter t) = RelayConnected"
    "rc_desired (rt_control t) = desired_from_inputs lib (rc_inputs (rt_control t))"
    "rc_changed (rt_control t) \<or> rc_desired (rt_control t) = DesiredConnect u"
    by (auto simp: relay_inv_def Let_def)
  show ?thesis
  proof (cases fin)
    case None
    with t step session_step_status [OF step] TaskConnected show ?thesis
      by (simp add: task_session_def relay_inv_def Let_def)
  next
    case (Some en)
    have "relay_inv lib (fst (task_ended lib en (t\<lparr>rt_reporter := rp\<rparr>)))"
      using t by (intro relay_inv_ended) auto
    with Some step TaskConnected show ?thesis by (simp add: task_session_def case_prod_beta Let_def)
  qed
qed (use assms in \<open>simp_all add: task_session_def\<close>)

lemma relay_inv_step:
  assumes "relay_inv lib t"
  shows "relay_inv lib (fst (task_step lib t e))"
proof -
  obtain env ev where e: "e = (env, ev)" by fastforce
  show ?thesis
  proof (cases ev)
    case TkNotice
    with e assms relay_inv_resume [OF assms] relay_inv_loop [of "t\<lparr>rt_retry := min_retry, rt_rejections := 0\<rparr>" lib]
    show ?thesis by (auto dest: relay_inv_desired split: task_phase.split)
  next
    case TkDelay
    with e assms relay_inv_resume [OF assms] show ?thesis
      by (auto split: task_phase.split option.split)
  next
    case TkRefuse
    with e assms show ?thesis
      by (auto simp: relay_inv_def Let_def split: task_phase.splits list.split option.splits)
  next
    case (TkOpened token connect unsent items)
    show ?thesis
    proof (cases "rt_phase t")
      case (TaskConnecting u)
      with assms have t: "rc_desired (rt_control t) = desired_from_inputs lib (rc_inputs (rt_control t))"
        "rc_changed (rt_control t) \<or> rc_desired (rt_control t) = DesiredConnect u"
        by (auto simp: relay_inv_def Let_def)
      have "relay_inv lib t'" if "task_ended lib en t = (t', out)" for en t' out
        using relay_inv_ended [of t lib en] t that by auto
      moreover have "relay_inv lib (t'\<lparr>rt_phase := TaskConnected u s\<rparr>)"
        if "task_report RelayConnected t = (t', effects)" for t' effects s
        using task_report_fields [OF that] t by (cases t') (auto simp: relay_inv_def Let_def)
      ultimately show ?thesis
        using e TkOpened TaskConnecting by (auto split: prod.split sum.split)
    qed (use e TkOpened assms in simp_all)
  next
    case (TkSession se)
    have "relay_inv lib (t\<lparr>rt_requests := outs\<rparr>)" for outs
      using assms by (simp add: relay_inv_def Let_def)
    with e TkSession assms show ?thesis
      by (cases se) (auto intro: relay_inv_session split: task_phase.split list.split)
  qed (use e assms relay_inv_update [OF assms] in
        \<open>auto simp: configure_def set_signed_in_def relay_inv_def Let_def split: task_phase.split\<close>)
qed


definition relay_after :: "url_lib \<Rightarrow> relay_task \<Rightarrow> session_env \<times> task_event \<Rightarrow> relay_task" where
  "relay_after lib t e = fst (task_step lib t e)"

interpretation relay: state_machine "relay_after lib" "relay_inv lib" for lib
  by unfold_locales (simp add: relay_after_def relay_inv_step)

lemma rc_changed_control_new: "\<not> rc_changed (control_new lib s signed_in)"
  by (simp add: control_new_def Let_def)

lemma relay_inv_start: "relay_inv lib (fst (relay_start lib s signed_in))"
  unfolding relay_start_def by (rule relay_inv_loop) (simp add: control_new_def Let_def)

interpretation relay_retry: doubling_delay min_retry max_retry next_retry
  by unfold_locales (simp_all add: min_retry_def max_retry_def secs_def next_retry_def)

section \<open>Properties\<close>

text \<open>
  C18: The status the user sees is what the task does, whatever happens: it says connected exactly while
  there is a registered connection, there is only something to join while connected, and once the task
  has noticed the current settings and sign-in, it is connecting or connected only in relay mode, signed
  in, and to the endpoint of the relay of the settings.
\<close>

theorem relay_status_matches_connection:
  fixes lib s signed_in events
  defines "t \<equiv> foldl (relay_after lib) (fst (relay_start lib s signed_in)) events"
  shows "(rr_status (rt_reporter t) = RelayConnected \<longleftrightarrow> (\<exists>u sn. rt_phase t = TaskConnected u sn))
    \<and> (rr_status (rt_reporter t) \<noteq> RelayConnected \<longrightarrow> rr_join (rt_reporter t) = join_default)
    \<and> (\<forall>u sn. \<not> rc_changed (rt_control t) \<longrightarrow> rt_phase t \<in> {TaskConnecting u, TaskConnected u sn} \<longrightarrow>
          ri_mode (rc_inputs (rt_control t)) = RelayMode \<and> ri_signed_in (rc_inputs (rt_control t))
          \<and> socket_url lib (ri_url (rc_inputs (rt_control t))) = Some u)"
proof -
  have inv: "relay_inv lib t" unfolding t_def by (intro relay.invar_run relay_inv_start)
  then have "\<not> rc_changed (rt_control t) \<Longrightarrow> rt_phase t \<in> {TaskConnecting u, TaskConnected u sn} \<Longrightarrow>
      desired_from_inputs lib (rc_inputs (rt_control t)) = DesiredConnect u" for u sn
    by (auto simp: relay_inv_def Let_def)
  then show ?thesis
    using inv by (auto simp: relay_inv_def Let_def desired_from_inputs_def
        split: task_phase.splits option.splits if_splits)
qed

definition example_urls :: url_lib where
  "example_urls =
     \<lparr>ul_parse = example_url_parse, ul_set_scheme = (\<lambda>scheme u. Some (u\<lparr>url_scheme := scheme\<rparr>)),
      ul_set_path = (\<lambda>path u. u\<lparr>url_path := path\<rparr>),
      ul_text = (\<lambda>u. url_scheme u @ str_lit ''://'' @ (case url_host u of Some h \<Rightarrow> h | None \<Rightarrow> []) @ url_path u)\<rparr>"

definition example_senv :: session_env where
  "example_senv =
     \<lparr>sv_fmt = bits_fmt, sv_uuid = bits_parse,
      sv_parse = (\<lambda>t. if t = [] then Some Registered else if t = [1] then Some (Sent 1)
                      else Some (ServerError (str_lit ''unauthorized'') [])),
      sv_me = DeviceId 1, sv_node = None, sv_now = 0, sv_lost = None\<rparr>"

definition example_relay_settings :: settings where
  "example_relay_settings = \<lparr>se_mode = RelayMode, se_relay = str_lit ''https://a''\<rparr>"

lemma example_relay_start:
  "fst (relay_start example_urls example_relay_settings True) =
   \<lparr>rt_retry = min_retry, rt_rejections = 0,
    rt_control = (control_new example_urls example_relay_settings True),
    rt_reporter = \<lparr>rr_status = RelayConnecting, rr_join = join_default\<rparr>, rt_requests = [],
    rt_phase = TaskConnecting (str_lit ''wss://a/relay'')\<rparr>"
  "rc_desired (control_new example_urls example_relay_settings True) = DesiredConnect (str_lit ''wss://a/relay'')"
  by (simp_all add: relay_start_def control_new_def example_relay_settings_def desired_from_inputs_def socket_url_def
      example_urls_def example_url_parse_def str_lit_def trim_slash_def task_loop_def task_report_def report_def
      set_join_def Let_def)

theorem relay_status_matches_connection_witness:
  "\<exists>t. t = foldl (relay_after example_urls) (fst (relay_start example_urls example_relay_settings True))
            [(example_senv, TkOpened (Ok []) SocketOpen None [WsText []])]
    \<and> rt_phase t \<in> {TaskConnecting (str_lit ''wss://a/relay''),
                     TaskConnected (str_lit ''wss://a/relay'') (relay_session_new 0)}
    \<and> socket_url example_urls (ri_url (rc_inputs (rt_control t))) = Some (str_lit ''wss://a/relay'')"
proof -
  define t where "t = foldl (relay_after example_urls) (fst (relay_start example_urls example_relay_settings True))
            [(example_senv, TkOpened (Ok []) SocketOpen None [WsText []])]"
  have "rt_phase t = TaskConnected (str_lit ''wss://a/relay'') (relay_session_new 0)
    \<and> rt_control t = control_new example_urls example_relay_settings True"
    by (simp add: t_def relay_after_def example_relay_start example_senv_def session_open_def task_report_def
        case_prod_beta Let_def)
  then have phase: "rt_phase t \<in> {TaskConnecting (str_lit ''wss://a/relay''),
      TaskConnected (str_lit ''wss://a/relay'') (relay_session_new 0)}" and "\<not> rc_changed (rt_control t)"
    by (simp_all add: control_new_def Let_def)
  moreover note relay_status_matches_connection [of example_urls example_relay_settings True
      "[(example_senv, TkOpened (Ok []) SocketOpen None [WsText []])]", folded t_def,
      THEN conjunct2, THEN conjunct2, rule_format]
  ultimately have "socket_url example_urls (ri_url (rc_inputs (rt_control t))) = Some (str_lit ''wss://a/relay'')"
    by blast
  with phase show ?thesis using t_def by blast
qed

fun failing_round :: "session_env \<times> (token_error + rstr) \<times> ws_connect \<times> rstr option \<times> ws_item list \<Rightarrow> bool" where
  "failing_round (env, token, connect, unsent, items) =
     (case fst (session_open (sv_parse env) (sv_me env) token connect unsent items) of
        Inl e \<Rightarrow> en_kind e = EndFailed | Inr _ \<Rightarrow> False)"

fun open_with :: "session_env \<times> (token_error + rstr) \<times> ws_connect \<times> rstr option \<times> ws_item list \<Rightarrow> session_env \<times> task_event" where
  "open_with (env, token, connect, unsent, items) = (env, TkOpened token connect unsent items)"

lemma failing_opening:
  assumes "failing_round r" "rt_phase t = TaskConnecting u"
  shows "\<exists>error. let t' = relay_after lib t (open_with r) in
    rt_phase t' = TaskIdle (Some (rt_retry t)) (Some EndFailed) \<and> rt_retry t' = rt_retry t
    \<and> rr_status (rt_reporter t') = RelayFailed error (Some (rt_retry t div secs 1))
    \<and> rt_control t' = rt_control t \<and> rt_rejections t' = rt_rejections t"
proof -
  obtain env token connect unsent items where r: "r = (env, token, connect, unsent, items)" by (metis prod_cases5)
  obtain e effects where "session_open (sv_parse env) (sv_me env) token connect unsent items = (Err e, effects)"
    "en_kind e = EndFailed"
    using assms(1) unfolding r by (cases "session_open (sv_parse env) (sv_me env) token connect unsent items")
      (auto split: sum.splits)
  with assms(2) r show ?thesis
    by (simp add: relay_after_def task_ended_def task_report_def case_prod_beta Let_def)
qed

lemma waited_out:
  assumes "rt_phase t = TaskIdle (Some d) (Some EndFailed)" "rc_desired (rt_control t) = DesiredConnect u"
  shows "let t' = relay_after lib t (env, TkDelay) in
    rt_phase t' = TaskConnecting u \<and> rt_retry t' = next_retry (rt_retry t)
    \<and> rc_desired (rt_control t') = DesiredConnect u"
  using assms by (simp add: relay_after_def task_resume_def task_loop_def task_report_def case_prod_beta Let_def)

text \<open>
  Retries back off: while connecting keeps failing (no network, an unreachable or refusing relay, a
  token service that does not answer), the delay announced after the \<open>n\<close>-th failure in a row is
  \<open>2 ^ (n - 1)\<close> seconds, at most thirty, and the task then waits that long.
\<close>

theorem relay_retries_back_off:
  fixes lib t u rounds last_round
  assumes "rt_phase t = TaskConnecting u" and "rc_desired (rt_control t) = DesiredConnect u"
    and "rt_retry t = min_retry" and "\<forall>r\<in>set rounds. failing_round r" and "failing_round last_round"
  defines "t' \<equiv> foldl (relay_after lib) t
    (concat (map (\<lambda>r. [open_with r, (fst r, TkDelay)]) rounds) @ [open_with last_round])"
  shows "\<exists>error. rr_status (rt_reporter t') = RelayFailed error (Some (min (2 ^ length rounds) 30))
    \<and> rt_phase t' = TaskIdle (Some (secs (min (2 ^ length rounds) 30))) (Some EndFailed)"
proof -
  let ?s = "foldl (relay_after lib) t (concat (map (\<lambda>r. [open_with r, (fst r, TkDelay)]) rounds))"
  have "rt_phase ?s = TaskConnecting u \<and> rc_desired (rt_control ?s) = DesiredConnect u
    \<and> rt_retry ?s = (next_retry ^^ length rounds) min_retry"
    using assms(4)
  proof (induction rounds rule: rev_induct)
    case Nil
    with assms(1-3) show ?case by simp
  next
    case (snoc r rs)
    let ?s = "foldl (relay_after lib) t (concat (map (\<lambda>r. [open_with r, (fst r, TkDelay)]) rs))"
    from snoc have IH: "rt_phase ?s = TaskConnecting u" "rc_desired (rt_control ?s) = DesiredConnect u"
      "rt_retry ?s = (next_retry ^^ length rs) min_retry" and r: "failing_round r" by auto
    from failing_opening [OF r IH(1), of lib] IH(2,3)
      waited_out [of "relay_after lib ?s (open_with r)" "rt_retry ?s" u lib "fst r"]
    show ?case by (auto simp: Let_def)
  qed
  moreover have "(next_retry ^^ length rounds) min_retry = secs (min (2 ^ length rounds) 30)"
    unfolding relay_retry.delay_after_failures by (simp add: min_retry_def max_retry_def secs_def min_def)
  moreover have "t' = relay_after lib ?s (open_with last_round)" by (simp add: t'_def)
  ultimately show ?thesis
    using failing_opening [OF assms(5), of ?s u lib] by (auto simp: Let_def secs_def)
qed

theorem relay_retries_back_off_witness:
  "\<exists>error. rr_status (rt_reporter (foldl (relay_after example_urls)
      (fst (relay_start example_urls example_relay_settings True))
      (concat (map (\<lambda>r. [open_with r, (fst r, TkDelay)])
         (replicate 3 (example_senv, Err (TokenUnavailable []), SocketTimeout, None, [])))
       @ [open_with (example_senv, Ok [], SocketTimeout, None, [])])))
    = RelayFailed error (Some 8)"
  using relay_retries_back_off [of "fst (relay_start example_urls example_relay_settings True)"
      "str_lit ''wss://a/relay''" "replicate 3 (example_senv, Err (TokenUnavailable []), SocketTimeout, None, [])"
      "(example_senv, Ok [], SocketTimeout, None, [])" example_urls]
  by (auto simp: example_relay_start session_open_def)

text \<open>Registrations sent in a run of the task.\<close>

fun relay_trace :: "url_lib \<Rightarrow> relay_task \<Rightarrow> (session_env \<times> task_event) list \<Rightarrow> relay_effect list" where
  "relay_trace lib t [] = []"
| "relay_trace lib t (e # es) = (let (t, effects) = task_step lib t e in effects @ relay_trace lib t es)"

definition registers :: "relay_effect \<Rightarrow> bool" where
  "registers e \<longleftrightarrow> (case e of SendText (RegisterText _ _) \<Rightarrow> True | _ \<Rightarrow> False)"

text \<open>Nothing changes what is wanted, and whenever a connection is tried the relay rejects the token.\<close>

fun rejects :: "session_env \<times> task_event \<Rightarrow> bool" where
  "rejects (env, TkOpened token connect unsent items) =
     (case session_open (sv_parse env) (sv_me env) token connect unsent items of
        (Inl e, effects) \<Rightarrow> en_kind e = EndUnauthorized
      | _ \<Rightarrow> False)"
| "rejects (env, TkConfigure s) = False"
| "rejects (env, TkSignedIn b) = False"
| "rejects (env, e) = True"

text \<open>How often the task can still register.\<close>

definition tries_left :: "relay_task \<Rightarrow> nat" where
  "tries_left t = (case rt_phase t of
     TaskConnecting _ \<Rightarrow> 2 - rt_rejections t
   | TaskIdle (Some _) _ \<Rightarrow> 2 - rt_rejections t
   | _ \<Rightarrow> 0)"

definition rejected_so_far :: "relay_task \<Rightarrow> bool" where
  "rejected_so_far t \<longleftrightarrow> \<not> rc_changed (rt_control t) \<and> rt_rejections t \<le> 1
     \<and> (case rt_phase t of
          TaskConnecting _ \<Rightarrow> True | TaskConnected _ _ \<Rightarrow> False
        | TaskIdle d kind \<Rightarrow> kind = Some EndUnauthorized)"

lemma report_registers: "filter registers (snd (report s rp)) = []"
  by (auto simp: report_def set_join_def registers_def Let_def split: prod.split)

lemma rejected_step:
  fixes lib t u e
  assumes "rejected_so_far t" "rc_desired (rt_control t) = DesiredConnect u" "rejects e"
  defines "r \<equiv> task_step lib t e"
  shows "rejected_so_far (fst r) \<and> rc_desired (rt_control (fst r)) = DesiredConnect u
    \<and> length (filter registers (snd r)) + tries_left (fst r) \<le> tries_left t"
proof -
  obtain env ev where e: "e = (env, ev)" by fastforce
  show ?thesis
  proof (cases ev)
    case (TkOpened token connect unsent items)
    show ?thesis
    proof (cases "rt_phase t")
      case (TaskConnecting v)
      obtain en effects where open_it: "session_open (sv_parse env) (sv_me env) token connect unsent items = (Err en, effects)"
        and kind: "en_kind en = EndUnauthorized"
        using assms(3) e TkOpened by (auto split: prod.splits sum.splits)
      have "length (filter registers effects) \<le> 1"
        using open_it by (auto simp: session_open_def Let_def split: sum.splits token_error.splits ws_connect.splits option.splits)
      with TaskConnecting open_it kind assms(1,2) e TkOpened report_registers show ?thesis
        by (auto simp: r_def task_ended_def task_report_def case_prod_beta Let_def rejected_so_far_def tries_left_def
            registers_def)
    qed (use assms e TkOpened in \<open>auto simp: r_def\<close>)
  next
    case TkDelay
    show ?thesis
    proof (cases "rt_phase t")
      case (TaskIdle d kind)
      with assms(1,2) e TkDelay report_registers show ?thesis
        by (cases d) (auto simp: r_def rejected_so_far_def task_resume_def task_loop_def task_report_def
            case_prod_beta Let_def tries_left_def)
    qed (use assms e TkDelay in \<open>auto simp: r_def\<close>)
  next
    case (TkSession se)
    have "task_session lib env se t = (t, [])" for se
      using assms(1) by (auto simp: rejected_so_far_def task_session_def split: task_phase.splits)
    with assms e TkSession show ?thesis
      by (cases se) (auto simp: r_def rejected_so_far_def split: task_phase.splits list.splits)
  qed (use assms e in \<open>auto simp: r_def rejected_so_far_def tries_left_def refuse_request_def registers_def
        split: task_phase.splits list.splits relay_request.splits option.splits\<close>)
qed

text \<open>
  C28: A rejected sign-in is tried twice and no more: while the relay keeps rejecting the token and neither
  the settings nor the sign-in change, the task registers at most twice, however long it runs.
\<close>

theorem rejected_sign_in_is_tried_twice:
  assumes "rt_phase t = TaskConnecting u" and "rc_desired (rt_control t) = DesiredConnect u"
    and "\<not> rc_changed (rt_control t)" and "rt_rejections t = 0" and "\<forall>e\<in>set events. rejects e"
  shows "length (filter registers (relay_trace lib t events)) \<le> 2"
proof -
  have "length (filter registers (relay_trace lib t events)) \<le> tries_left t"
    if "rejected_so_far t" "rc_desired (rt_control t) = DesiredConnect u" "\<forall>e\<in>set events. rejects e" for t
    using that
  proof (induction events arbitrary: t)
    case (Cons e es)
    from rejected_step [OF Cons.prems(1,2), of e lib] Cons.prems(3)
    have step: "rejected_so_far (fst (task_step lib t e))"
      "rc_desired (rt_control (fst (task_step lib t e))) = DesiredConnect u"
      "length (filter registers (snd (task_step lib t e))) + tries_left (fst (task_step lib t e)) \<le> tries_left t"
      by auto
    from Cons.IH [OF step(1,2)] Cons.prems(3) step(3) show ?case by (simp add: case_prod_beta Let_def)
  qed simp
  moreover have "rejected_so_far t" using assms by (simp add: rejected_so_far_def)
  ultimately have "length (filter registers (relay_trace lib t events)) \<le> tries_left t" using assms by blast
  also have "\<dots> \<le> 2" by (simp add: tries_left_def split: task_phase.split option.split)
  finally show ?thesis .
qed

theorem rejected_sign_in_is_tried_twice_witness:
  "length (filter registers (relay_trace example_urls (fst (relay_start example_urls example_relay_settings True))
     (concat (replicate 3 [(example_senv, TkOpened (Ok []) SocketOpen None [WsText [2]]), (example_senv, TkDelay)])))) \<le> 2"
  by (rule rejected_sign_in_is_tried_twice [of _ "str_lit ''wss://a/relay''"])
    (auto simp: example_relay_start rc_changed_control_new example_senv_def session_open_def numeral_3_eq_3)

lemma join_loop:
  "rj_show (foldl (\<lambda>s d. if me < d then s\<lparr>rj_show := True\<rparr> else s\<lparr>rj_enter := True\<rparr>) s ds)
   \<longleftrightarrow> rj_show s \<or> (\<exists>d\<in>set ds. me < d)"
  "rj_enter (foldl (\<lambda>s d. if me < d then s\<lparr>rj_show := True\<rparr> else s\<lparr>rj_enter := True\<rparr>) s ds)
   \<longleftrightarrow> rj_enter s \<or> (\<exists>d\<in>set ds. \<not> me < d)"
  by (induction ds arbitrary: s) auto

text \<open>
  Of two devices that see each other on the relay and are not paired, one shows a code and the other
  asks for it: a device shows a code exactly when an unpaired device with a higher identifier is
  online, and asks for one exactly when an unpaired device with a lower identifier is.
\<close>

theorem pairing_roles_complement:
  "(rj_show (join_new me online paired) \<longleftrightarrow> (\<exists>d\<in>set online. d \<notin> set paired \<and> me < d))
   \<and> (rj_enter (join_new me online paired) \<longleftrightarrow> (\<exists>d\<in>set online. d \<notin> set paired \<and> d < me))"
proof -
  let ?unpaired = "filter (\<lambda>d. d \<noteq> me \<and> d \<notin> set paired) online"
  have "rj_show (join_new me online paired) \<longleftrightarrow> (\<exists>d\<in>set ?unpaired. me < d)"
    "rj_enter (join_new me online paired) \<longleftrightarrow> (\<exists>d\<in>set ?unpaired. \<not> me < d)"
    unfolding join_new_def join_loop by (simp_all add: join_default_def)
  moreover have "d \<in> set ?unpaired \<and> \<not> me < d \<longleftrightarrow> d \<in> set online \<and> d \<notin> set paired \<and> d < me"
    "d \<in> set ?unpaired \<and> me < d \<longleftrightarrow> d \<in> set online \<and> d \<notin> set paired \<and> me < d" for d
    by (auto simp: not_less le_less)
  ultimately show ?thesis by (auto simp: Bex_def)
qed

section \<open>Replies to test messages\<close>

text \<open>Requests that were sent, replies, and requests still waiting, by number, in a run of a connection until it ends.\<close>

definition replies :: "relay_effect list \<Rightarrow> nat list" where
  "replies effects = concat (map (\<lambda>x. case x of ReplyTest r _ \<Rightarrow> [r] | _ \<Rightarrow> []) effects)"

definition asked :: "session_event \<Rightarrow> relay_effect list \<Rightarrow> nat list" where
  "asked e effects =
     (case e of SRequest (TestRequest m r) \<Rightarrow> if SendText (TestText m) \<in> set effects then [r] else [] | _ \<Rightarrow> [])"

fun session_run ::
  "(session_env \<times> session_event) list \<Rightarrow> relay_session \<Rightarrow> relay_reporter \<Rightarrow> nat list \<times> nat list \<times> nat list" where
  "session_run [] s rp = ([], [], sn_pending s)"
| "session_run ((env, e) # es) s rp =
     (let (fin, s', rp', effects) = session_step env e s rp
      in case fin of
           Some _ \<Rightarrow> (asked e effects, replies effects, sn_pending s')
         | None \<Rightarrow>
             (let (as, rs, ws) = session_run es s' rp' in (asked e effects @ as, replies effects @ rs, ws)))"

lemma replies_simps [simp]:
  "replies [] = []"
  "replies (x # xs) = (case x of ReplyTest r _ \<Rightarrow> [r] | _ \<Rightarrow> []) @ replies xs"
  "replies (xs @ ys) = replies xs @ replies ys"
  by (simp_all add: replies_def)

lemma replies_frames [simp]: "replies (map (\<lambda>(d, frame). SendFrame frame) opens) = []"
  by (induction opens) (auto split: prod.split)

lemma replies_connects [simp]: "replies (map (\<lambda>(d, frame). ConnectOver d) opens) = []"
  by (induction opens) (auto split: prod.split)

lemma replies_joins: "update_join env online rp = (rp', joins) \<Longrightarrow> replies joins = []"
  by (auto simp: update_join_def set_join_def Let_def split: option.splits if_splits)

lemma replies_sent:
  assumes "send_from n env items = (sent, lost)" "replies items = []"
  shows "replies sent = []"
proof -
  have "replies (take k items) = []" for k
    using assms(2) by (auto simp: replies_def dest: in_set_takeD)
  with assms show ?thesis by (auto simp: send_from_def split: option.splits prod.splits if_splits)
qed

lemma sent_frames_no_replies:
  "send_from n env (map (\<lambda>(d, frame). SendFrame frame) opens) = (sent, lost) \<Longrightarrow> replies sent = []"
  by (erule replies_sent) simp

lemma sent_one_no_replies:
  "send_from n env [SendText t] = (sent, lost) \<Longrightarrow> replies sent = []"
  by (erule replies_sent) simp

lemma send_reply_replies:
  "send_reply env frame s rp effects = (e, s', rp', out) \<Longrightarrow> replies effects = [] \<Longrightarrow> s' = s \<and> replies out = []"
  by (auto simp: send_reply_def dest: replies_sent split: option.splits prod.splits)

lemma on_devices_replies:
  "on_devices env ids s rp = (e, s', rp', out) \<Longrightarrow> replies out = [] \<and> sn_pending s' = sn_pending s"
  by (auto simp: on_devices_def Let_def dest: replies_joins sent_frames_no_replies
      split: prod.splits option.splits if_splits)

lemma answer_test_replies:
  "answer_test result s rp = (e, s', rp', out) \<Longrightarrow> replies out @ sn_pending s' = sn_pending s"
  by (auto simp: answer_test_def split: list.splits)

lemma step_replies:
  assumes "session_step env e s rp = (fin, s', rp', out)"
  shows "replies out @ sn_pending s' = sn_pending s @ asked e out"
proof (cases e)
  case (SItem item)
  have "replies out @ sn_pending s' = sn_pending s"
  proof (cases item)
    case (WsText t)
    with SItem assms show ?thesis
      by (auto simp: on_ws_item_def on_server_message_def Let_def
          dest: on_devices_replies answer_test_replies split: option.splits server_message.splits)
  next
    case (WsBinary frame)
    with SItem assms show ?thesis
      by (auto simp: on_ws_item_def Let_def dest: send_reply_replies split: prod.splits option.splits)
  qed (use SItem assms in \<open>auto simp: on_ws_item_def\<close>)
  with SItem show ?thesis by (simp add: asked_def)
next
  case (SRequest r)
  with assms show ?thesis
    by (cases r) (auto simp: on_request_def asked_def send_from_def refuse_request_def
        split: prod.splits option.splits if_splits)
next
  case STunnelOutput
  with assms show ?thesis
    by (auto simp: on_tunnel_output_def asked_def dest: send_reply_replies split: list.splits prod.splits)
next
  case SDialTick
  with assms show ?thesis
    by (auto simp: on_dial_tick_def Let_def asked_def split: option.splits prod.splits if_splits)
      (blast dest: replies_joins sent_frames_no_replies sent_one_no_replies)+
next
  case SPingTick
  with assms show ?thesis
    by (auto simp: on_ping_tick_def asked_def dest: replies_sent split: if_splits prod.splits)
qed (use assms in \<open>auto simp: asked_def\<close>)

text \<open>
  Replies reach the requests they belong to: on a connection, test messages are answered in the order
  in which they were sent, each at most once, whatever else happens in between (tunnels, pairing,
  devices coming and going) and even if the connection ends; those not answered are the latest ones.
\<close>

theorem test_replies_in_order:
  fixes events now rp
  defines "run \<equiv> session_run events (relay_session_new now) rp"
  shows "fst (snd run) @ snd (snd run) = fst run"
proof -
  have "fst (snd (session_run events s rp)) @ snd (snd (session_run events s rp))
        = sn_pending s @ fst (session_run events s rp)" for s
  proof (induction events arbitrary: s rp)
    case (Cons x es)
    obtain env e fin s' rp' out where x: "x = (env, e)" and step: "session_step env e s rp = (fin, s', rp', out)"
      by (metis prod_cases4 surj_pair)
    obtain as rs ws where rest: "session_run es s' rp' = (as, rs, ws)" by (metis surj_pair)
    with Cons.IH [of s' rp'] have "rs @ ws = sn_pending s' @ as" by simp
    then have "replies out @ rs @ ws = sn_pending s @ asked e out @ as"
      using step_replies [OF step] by (metis append.assoc)
    with x step rest step_replies [OF step] show ?case by (cases fin) simp_all
  qed simp
  then show ?thesis by (simp add: run_def relay_session_new_def)
qed

lemma last_seen_kept:
  assumes "session_step env e s rp = (None, s', rp', out)" and "\<forall>item. e \<noteq> SItem item"
  shows "sn_last_seen s' = sn_last_seen s"
  using assms
  by (cases e) (auto simp: on_request_def on_tunnel_output_def on_dial_tick_def on_ping_tick_def Let_def
      dest: send_reply_fields split: relay_request.splits prod.splits option.splits if_splits list.splits)

lemma send_from_kind: "send_from n env items = (sent, Some en) \<Longrightarrow> en_kind en = EndDropped"
  by (auto simp: send_from_def lost_connection_def dropped_def split: option.splits prod.splits if_splits)

lemma quiet_end:
  assumes "session_step env e s rp = (Some en, s', rp', out)" and "\<forall>item. e \<noteq> SItem item"
  shows "en_kind en = EndDropped"
proof (cases e)
  case STunnelOutput
  with assms show ?thesis
    by (auto simp: on_tunnel_output_def send_reply_def dest: send_from_kind split: list.splits prod.splits option.splits)
next
  case SPingTick
  with assms show ?thesis
    by (auto simp: on_ping_tick_def dropped_def dest: send_from_kind split: if_splits prod.splits)
qed (use assms in \<open>auto simp: on_request_def on_dial_tick_def Let_def
      dest: send_from_kind split: relay_request.splits prod.splits option.splits if_splits\<close>)

fun quiet :: "session_env \<times> task_event \<Rightarrow> bool" where
  "quiet (env, TkSession (SItem item)) = False"
| "quiet (env, TkSession e) = True"
| "quiet (env, TkSubmit out) = True"
| "quiet (env, TkRefuse) = True"
| "quiet (env, e) = False"

definition dropped_idle :: "relay_task \<Rightarrow> bool" where
  "dropped_idle t \<longleftrightarrow> rt_phase t = TaskIdle (Some min_retry) (Some EndDropped)
     \<and> (\<exists>error. rr_status (rt_reporter t) = RelayFailed error (Some 1))"

definition last_heard :: "nat \<Rightarrow> relay_task \<Rightarrow> bool" where
  "last_heard at t \<longleftrightarrow> (\<exists>u s. rt_phase t = TaskConnected u s \<and> sn_last_seen s = at)"

lemma dropped_ended:
  "en_kind en = EndDropped \<Longrightarrow> dropped_idle (fst (task_ended lib en t))"
  by (simp add: dropped_idle_def task_ended_def task_report_def case_prod_beta Let_def min_retry_def secs_def)

lemma quiet_session:
  assumes "last_heard at t" "\<forall>item. e \<noteq> SItem item"
  shows "dropped_idle (fst (task_session lib env e t)) \<or> last_heard at (fst (task_session lib env e t))"
proof -
  from assms(1) obtain u s where s: "rt_phase t = TaskConnected u s" "sn_last_seen s = at"
    by (auto simp: last_heard_def)
  obtain fin s' rp out where step: "session_step env e s (rt_reporter t) = (fin, s', rp, out)" by (metis prod_cases4)
  show ?thesis
  proof (cases fin)
    case None
    with s step last_seen_kept [of env e s "rt_reporter t" s' rp out] assms(2) show ?thesis
      by (simp add: task_session_def last_heard_def)
  next
    case (Some en)
    with step assms(2) have "en_kind en = EndDropped" using quiet_end by blast
    with s step Some show ?thesis by (simp add: task_session_def case_prod_beta Let_def dropped_ended)
  qed
qed

lemma quiet_step:
  assumes "dropped_idle t \<or> last_heard at t" and "quiet e"
  shows "dropped_idle (relay_after lib t e) \<or> last_heard at (relay_after lib t e)"
proof -
  obtain env ev where e: "e = (env, ev)" by fastforce
  have frame: "dropped_idle (t\<lparr>rt_requests := outs\<rparr>) = dropped_idle t"
    "last_heard at (t\<lparr>rt_requests := outs\<rparr>) = last_heard at t" for outs
    by (simp_all add: dropped_idle_def last_heard_def)
  show ?thesis
  proof (cases ev)
    case (TkSession se)
    with e assms(2) have "\<forall>item. se \<noteq> SItem item" by (cases se) auto
    then have "dropped_idle (fst (task_session lib env se t')) \<or> last_heard at (fst (task_session lib env se t'))"
      if "dropped_idle t' \<or> last_heard at t'" for t'
      using that quiet_session [of at t' se lib env]
      by (auto simp: dropped_idle_def task_session_def)
    then show ?thesis
      using assms(1) e TkSession frame
      by (cases se) (auto simp: relay_after_def split: task_phase.split list.split)
  qed (use assms e frame in \<open>auto simp: relay_after_def split: task_phase.split list.split\<close>)
qed

text \<open>
  C31: A silent relay is dropped: when nothing arrives from the relay, the first ping more than fifty
  seconds after the last frame finds the connection ended, whatever else happened on it meanwhile, and
  the user is told that the task connects again in a second.
\<close>

theorem silent_relay_is_dropped:
  assumes "rt_phase t = TaskConnected u s" and "\<forall>e\<in>set events. quiet e"
    and "sn_last_seen s + idle_timeout < sv_now env"
  shows "dropped_idle (foldl (relay_after lib) t (events @ [(env, TkSession SPingTick)]))"
proof -
  let ?t = "foldl (relay_after lib) t events"
  have "dropped_idle ?t \<or> last_heard (sn_last_seen s) ?t"
    using assms(2)
  proof (induction events rule: rev_induct)
    case Nil
    with assms(1) show ?case by (simp add: last_heard_def)
  next
    case (snoc e es)
    then show ?case using quiet_step by simp
  qed
  then show ?thesis
  proof
    assume "dropped_idle ?t"
    then show ?thesis by (simp add: relay_after_def task_session_def dropped_idle_def)
  next
    assume "last_heard (sn_last_seen s) ?t"
    then obtain v s' where t: "rt_phase ?t = TaskConnected v s'" "sn_last_seen s' = sn_last_seen s"
      by (auto simp: last_heard_def)
    have "idle_timeout < sv_now env - sn_last_seen s'" using assms(3) t(2) by linarith
    with t(1) show ?thesis
      by (simp add: relay_after_def task_session_def on_ping_tick_def case_prod_beta Let_def dropped_ended dropped_def)
  qed
qed

theorem silent_relay_is_dropped_witness:
  "dropped_idle (foldl (relay_after example_urls)
     ((fst (relay_start example_urls example_relay_settings True))
        \<lparr>rt_phase := TaskConnected (str_lit ''wss://a/relay'') (relay_session_new 5)\<rparr>)
     ([(example_senv, TkSession SPingTick), (example_senv, TkSession SDialTick)]
       @ [(example_senv\<lparr>sv_now := secs 51\<rparr>, TkSession SPingTick)]))"
  by (rule silent_relay_is_dropped [where u = "str_lit ''wss://a/relay''" and s = "relay_session_new 5"])
    (simp_all add: relay_session_new_def idle_timeout_def secs_def)

end
