(* ===== verification/Desktop.thy ===== *)
theory Desktop
  imports Sync_Item
begin

text \<open>
  Two small parts of the desktop app: \<open>apps/desktop/src-tauri/src/preview.rs\<close> (thumbnails of images)
  and \<open>device.rs\<close> (the identifier of this installation). The image, PNG, base64 and UUID libraries
  and the outcome of file operations are arguments.
\<close>

section \<open>Thumbnails\<close>

definition max_edge :: u32 where "max_edge = 480"

definition thumbnail_size :: "u32 \<Rightarrow> u32 \<Rightarrow> u32 \<times> u32" where
  "thumbnail_size width height =
     (let longest = max width height
      in if longest \<le> max_edge then (max width 1, max height 1)
         else let scale = (\<lambda>edge. ucast (max ((ucast edge * ucast max_edge :: u64) div ucast longest) 1))
              in (scale width, scale height))"

text \<open>\<open>from_raw\<close>, \<open>shrink\<close> and \<open>png_write\<close> are the \<open>image\<close> crate.\<close>

definition data_url ::
  "(u32 \<Rightarrow> u32 \<Rightarrow> byte list \<Rightarrow> 'img option) \<Rightarrow> ('img \<Rightarrow> u32 \<Rightarrow> u32 \<Rightarrow> 'img)
   \<Rightarrow> ('img \<Rightarrow> u32 \<Rightarrow> u32 \<Rightarrow> byte list option) \<Rightarrow> (byte list \<Rightarrow> rstr) \<Rightarrow> pixel_image \<Rightarrow> rstr option" where
  "data_url from_raw shrink png_write base64 img =
     (case from_raw (img_width img) (img_height img) (img_rgba img) of
        None \<Rightarrow> None
      | Some source \<Rightarrow>
          (let (width, height) = thumbnail_size (img_width img) (img_height img)
           in case png_write (shrink source width height) width height of
                None \<Rightarrow> None
              | Some png \<Rightarrow> Some (str_lit ''data:image/png;base64,'' @ base64 png)))"

section \<open>The device identifier\<close>

text \<open>
  What reading the file gives (\<open>None\<close>: there is none, or it cannot be read), and the first file
  operation that fails when a new identifier is saved: creating the directory, opening the file, or
  writing (after so many characters).
\<close>

datatype id_fault = IdDirFails | IdOpenFails | IdWriteFails nat

definition load_device_id ::
  "(128 word \<Rightarrow> rstr) \<Rightarrow> (rstr \<Rightarrow> 128 word option) \<Rightarrow> bool \<Rightarrow> device_id \<Rightarrow> id_fault option \<Rightarrow> rstr option
   \<Rightarrow> device_id \<times> rstr option" where
  "load_device_id uuid_fmt uuid_parse has_dir fresh fault contents =
     (if \<not> has_dir then (fresh, contents)
      else case (case contents of Some t \<Rightarrow> device_id_from_str uuid_parse t | None \<Rightarrow> None) of
             Some d \<Rightarrow> (d, contents)
           | None \<Rightarrow>
               (let line = device_id_fmt uuid_fmt fresh @ [10]
                in (fresh, case fault of
                             None \<Rightarrow> Some line
                           | Some IdDirFails \<Rightarrow> contents
                           | Some IdOpenFails \<Rightarrow> contents
                           | Some (IdWriteFails n) \<Rightarrow> Some (take n line))))"

section \<open>Properties\<close>

lemma unat_scale:
  fixes edge longest :: u32
  assumes "edge \<le> longest" "480 < longest"
  shows "unat (ucast (max ((ucast edge * ucast max_edge :: u64) div ucast longest) 1) :: u32)
    = max (unat edge * 480 div unat longest) 1"
proof -
  have small: "unat w < 4294967296" for w :: u32
  proof -
    have "unat w < 2 ^ LENGTH(32)" by (rule unsigned_less)
    then show ?thesis by simp
  qed
  have up: "unat (ucast w :: u64) = unat w" for w :: u32
    using small [of w] by (simp add: unsigned_ucast_eq take_bit_nat_eq_self)
  have "unat (ucast edge :: u64) * unat (ucast max_edge :: u64) < 2 ^ LENGTH(64)"
    using small [of edge] by (simp add: up max_edge_def)
  then have "unat (ucast edge * ucast max_edge :: u64) = unat (ucast edge :: u64) * unat (ucast max_edge :: u64)"
    by (rule unat_mult_lem [THEN iffD1])
  then have prod: "unat (ucast edge * ucast max_edge :: u64) = unat edge * 480"
    unfolding up by (simp only:) (simp add: max_edge_def)
  then have quot: "unat ((ucast edge * ucast max_edge :: u64) div ucast longest) = unat edge * 480 div unat longest"
    by (simp add: unat_div_distrib up)
  have "unat edge \<le> unat longest" using assms(1) by (simp add: word_le_nat_alt)
  then have "unat edge * 480 div unat longest \<le> unat longest * 480 div unat longest"
    by (intro div_le_mono mult_le_mono1)
  moreover have "0 < unat longest" using assms(2) by (simp add: word_less_nat_alt)
  ultimately have "unat edge * 480 div unat longest \<le> 480" by simp
  then have "unat (max ((ucast edge * ucast max_edge :: u64) div ucast longest) 1)
      = max (unat edge * 480 div unat longest) 1" "max (unat edge * 480 div unat longest) 1 < 4294967296"
    using quot by (simp_all add: max_def word_le_nat_alt)
  then show ?thesis by (simp add: unsigned_ucast_eq take_bit_nat_eq_self)
qed

text \<open>
  Thumbnails fit their box: each edge is between 1 and 480 pixels and no longer than the image's
  (an empty edge becomes one pixel), a small image keeps its size, and otherwise the longest edge
  becomes 480 and the other is scaled by the same factor, rounded down, without overflow.
\<close>

theorem thumbnails_fit_their_box:
  fixes width height
  defines "w \<equiv> unat (fst (thumbnail_size width height))" and "h \<equiv> unat (snd (thumbnail_size width height))"
    and "longest \<equiv> max (unat width) (unat height)"
  shows "1 \<le> w \<and> w \<le> 480 \<and> 1 \<le> h \<and> h \<le> 480
    \<and> w \<le> max (unat width) 1 \<and> h \<le> max (unat height) 1
    \<and> (w, h) = (if longest \<le> 480 then (max (unat width) 1, max (unat height) 1)
                else (max (unat width * 480 div longest) 1, max (unat height * 480 div longest) 1))"
proof -
  have unat_max: "unat (max a b) = max (unat a) (unat b)" for a b :: u32
    by (simp add: max_def word_le_nat_alt)
  have scaled: "max (e * 480 div l) 1 \<le> 480 \<and> max (e * 480 div l) 1 \<le> max e 1" if "e \<le> l" "480 < l" for e l :: nat
  proof -
    have "e * 480 div l \<le> l * 480 div l" using that by (intro div_le_mono mult_le_mono1)
    moreover have "e * 480 div l \<le> e * l div l" using that by (intro div_le_mono mult_le_mono2) simp
    ultimately show ?thesis using that by auto
  qed
  show ?thesis
  proof (cases "longest \<le> 480")
    case True
    then have "max width height \<le> max_edge"
      by (simp add: word_le_nat_alt unat_max longest_def max_edge_def)
    then have "w = max (unat width) 1" "h = max (unat height) 1"
      by (simp_all add: w_def h_def thumbnail_size_def unat_max)
    with True show ?thesis by (auto simp: longest_def)
  next
    case False
    then have large: "480 < max width height" and "\<not> max width height \<le> max_edge"
      by (auto simp: word_le_nat_alt word_less_nat_alt unat_max longest_def max_edge_def less_max_iff_disj)
    then have "w = max (unat width * 480 div longest) 1" "h = max (unat height * 480 div longest) 1"
      using unat_scale [OF _ large, of width] unat_scale [OF _ large, of height]
      by (auto simp: w_def h_def thumbnail_size_def Let_def unat_max longest_def)
    moreover have "unat width \<le> longest" "unat height \<le> longest" "480 < longest"
      using False unfolding longest_def by linarith+
    ultimately show ?thesis using scaled [of "unat width" longest] scaled [of "unat height" longest] False
      by simp
  qed
qed

text \<open>
  The device keeps its identifier: once a start has read or saved it, every later start finds the
  same one, whatever file operation would fail then, and leaves the file alone.
\<close>

theorem device_identifier_persists:
  assumes "\<And>u. uuid_parse (trim (uuid_fmt u @ [10])) = Some u"
    and "load_device_id uuid_fmt uuid_parse True fresh None contents = (d, Some t)"
  shows "load_device_id uuid_fmt uuid_parse True fresh' fault' (Some t) = (d, Some t)"
proof -
  have "device_id_from_str uuid_parse (device_id_fmt uuid_fmt fresh @ [10]) = Some fresh"
    by (simp add: device_id_from_str_def device_id_fmt_def assms(1))
  with assms(2) show ?thesis
    by (auto simp: load_device_id_def Let_def split: option.splits)
qed

end
