(* ===== verification/Clipboard_Access.thy ===== *)
theory Clipboard_Access
  imports Clipboard_Content
begin

text \<open>
  \<open>crates/cled-clipboard/src/lib.rs\<close>, \<open>error.rs\<close>, \<open>backend.rs\<close> and \<open>platform/\<close>: reading and
  writing the clipboard through \<open>arboard\<close>, the privacy markers, and which clipboard system is in
  use. What the operating system and \<open>arboard\<close> answer is the record \<open>os_answers\<close>; \<open>msg\<close> is the
  text \<open>arboard\<close> gives for an error.
\<close>

section \<open>Errors and backends\<close>

datatype clipboard_error =
    Unavailable rstr
  | Busy
  | Conversion
  | ServiceStopped
  | OtherError rstr

fun clipboard_error_text :: "clipboard_error \<Rightarrow> rstr" where
  "clipboard_error_text (Unavailable m) = str_lit ''clipboard is not available: '' @ m"
| "clipboard_error_text Busy = str_lit ''clipboard is busy''"
| "clipboard_error_text Conversion = str_lit ''clipboard content could not be converted''"
| "clipboard_error_text ServiceStopped = str_lit ''clipboard service has stopped''"
| "clipboard_error_text (OtherError m) = str_lit ''clipboard error: '' @ m"

datatype clipboard_backend = Windows | MacOs | Wayland | X11 | XWayland

definition is_limited :: "clipboard_backend \<Rightarrow> bool" where
  "is_limited b \<longleftrightarrow> b = XWayland"

datatype change_detection = Events | Polling

record backend_info =
  bi_backend :: clipboard_backend
  bi_change_detection :: change_detection

text \<open>The errors of \<open>arboard\<close> that \<open>map_error\<close> tells apart.\<close>

datatype arboard_error =
    ContentNotAvailable
  | ClipboardNotSupported
  | ClipboardOccupied
  | ConversionFailure
  | ArboardOther

definition map_error :: "(arboard_error \<Rightarrow> rstr) \<Rightarrow> arboard_error \<Rightarrow> clipboard_error" where
  "map_error msg e =
     (case e of
        ClipboardNotSupported \<Rightarrow> Unavailable (msg e)
      | ClipboardOccupied \<Rightarrow> Busy
      | ConversionFailure \<Rightarrow> Conversion
      | other \<Rightarrow> OtherError (msg other))"

definition not_available_as_none ::
  "(arboard_error \<Rightarrow> rstr) \<Rightarrow> arboard_error + 'a \<Rightarrow> clipboard_error + 'a option" where
  "not_available_as_none msg r =
     (case r of
        Inr v \<Rightarrow> Ok (Some v)
      | Inl ContentNotAvailable \<Rightarrow> Ok None
      | Inl e \<Rightarrow> Err (map_error msg e))"

section \<open>The platform's answers\<close>

text \<open>
  What the platform answers while one request is served: the privacy check, the text, the image
  (\<open>arboard\<close> gives its dimensions as \<open>usize\<close>), the change token, and whether setting the
  clipboard succeeds.
\<close>

record os_answers =
  ans_private :: "clipboard_error + bool"
  ans_text :: "arboard_error + rstr"
  ans_image :: "arboard_error + (nat \<times> nat \<times> byte list)"
  ans_token :: "u64 option"
  ans_set :: "arboard_error + unit"

record raw_image =
  raw_width :: u32
  raw_height :: u32
  raw_rgba :: "byte list"

definition u32_try_from :: "nat \<Rightarrow> u32 option" where
  "u32_try_from n = (if n < 2 ^ 32 then Some (of_nat n) else None)"

definition read_text ::
  "(arboard_error \<Rightarrow> rstr) \<Rightarrow> os_answers \<Rightarrow> clipboard_error + rstr option" where
  "read_text msg os = not_available_as_none msg (ans_text os)"

definition read_image ::
  "(arboard_error \<Rightarrow> rstr) \<Rightarrow> os_answers \<Rightarrow> clipboard_error + raw_image option" where
  "read_image msg os =
     (case not_available_as_none msg (ans_image os) of
        Inl e \<Rightarrow> Err e
      | Inr None \<Rightarrow> Ok None
      | Inr (Some (w, h, bytes)) \<Rightarrow>
          (case (u32_try_from w, u32_try_from h) of
             (Some w', Some h') \<Rightarrow>
               Ok (Some \<lparr>raw_width = w', raw_height = h', raw_rgba = bytes\<rparr>)
           | _ \<Rightarrow> Err Conversion))"

section \<open>Privacy markers\<close>

definition private_format_names :: "rstr list" where
  "private_format_names =
     [str_lit ''org.nspasteboard.ConcealedType'',
      str_lit ''org.nspasteboard.TransientType'',
      str_lit ''org.nspasteboard.AutoGeneratedType'',
      str_lit ''x-kde-passwordManagerHint'']"

definition has_private_marker :: "rstr list \<Rightarrow> bool" where
  "has_private_marker formats = list_ex (\<lambda>f. f \<in> set private_format_names) formats"

text \<open>
  Windows: \<open>exclude\<close> is the registered id of the exclusion format, \<open>opt_outs\<close> those of the formats
  that hold a DWORD, \<open>avail\<close> and \<open>value\<close> what the clipboard offers under an id, and \<open>opened\<close>
  whether the clipboard could be opened to read the values.
\<close>

definition windows_is_private ::
  "u32 option \<Rightarrow> u32 list \<Rightarrow> (u32 \<Rightarrow> bool) \<Rightarrow> (u32 \<Rightarrow> u32 option) \<Rightarrow> bool
   \<Rightarrow> clipboard_error + bool" where
  "windows_is_private exclude opt_outs avail val opened =
     (if (case exclude of None \<Rightarrow> False | Some f \<Rightarrow> avail f) then Ok True
      else
        (let present = filter avail opt_outs
         in if present = [] then Ok False
            else if \<not> opened then Err Busy
            else Ok (list_ex (\<lambda>f. val f = Some 0) present)))"

datatype linux_native = NativeWayland | NativeX11 bool

text \<open>
  \<open>Native::new\<close> on Linux: Wayland when \<open>WAYLAND_DISPLAY\<close> is set and data-control answers
  (\<open>formats_ok\<close>), otherwise X11, whose connection may fail.
\<close>

definition linux_native_new ::
  "bool \<Rightarrow> bool \<Rightarrow> clipboard_error + unit \<Rightarrow> clipboard_error + linux_native" where
  "linux_native_new under_wayland formats_ok x11 =
     (if under_wayland \<and> formats_ok then Ok NativeWayland
      else (case x11 of Inl e \<Rightarrow> Err e | Inr _ \<Rightarrow> Ok (NativeX11 under_wayland)))"

fun linux_backend :: "linux_native \<Rightarrow> clipboard_backend" where
  "linux_backend NativeWayland = Wayland"
| "linux_backend (NativeX11 under_wayland) = (if under_wayland then XWayland else X11)"

text \<open>
  The Wayland change token: a hash over the offered formats and, unless the content is marked
  private, the bytes of one representation. \<open>formats\<close> and \<open>contents\<close> are what the compositor
  answers; \<open>None\<close> is an error.
\<close>

definition wayland_change_token ::
  "(rstr list \<Rightarrow> byte list option \<Rightarrow> u64) \<Rightarrow> rstr list option \<Rightarrow> byte list option \<Rightarrow> u64 option" where
  "wayland_change_token hasher formats contents =
     (case formats of
        None \<Rightarrow> None
      | Some fs \<Rightarrow>
          if fs \<noteq> [] \<and> \<not> has_private_marker fs
          then (case contents of None \<Rightarrow> None | Some bytes \<Rightarrow> Some (hasher fs (Some bytes)))
          else Some (hasher fs None))"

section \<open>Reading and writing\<close>

definition clipboard_read ::
  "(arboard_error \<Rightarrow> rstr) \<Rightarrow> os_answers \<Rightarrow> clipboard_error + snapshot" where
  "clipboard_read msg os =
     (if ans_private os = Ok True then Ok (Skipped Sensitive)
      else
        (case read_text msg os of
           Inl e \<Rightarrow> Err e
         | Inr (Some text) \<Rightarrow> Ok (Content (content_text text))
         | Inr None \<Rightarrow>
             (case read_image msg os of
                Inl e \<Rightarrow> Err e
              | Inr None \<Rightarrow> Ok Empty
              | Inr (Some raw) \<Rightarrow>
                  if length (raw_rgba raw) > max_image_bytes
                  then Ok (Skipped (TooLarge (raw_width raw) (raw_height raw)))
                  else
                    (case from_rgba (raw_width raw) (raw_height raw) (raw_rgba raw) of
                       None \<Rightarrow> Err Conversion
                     | Some img \<Rightarrow> Ok (Content (Image img))))))"

text \<open>What \<open>write\<close> asks \<open>arboard\<close> to set, and the outcome.\<close>

datatype arboard_set = SetText rstr | SetImage nat nat "byte list"

fun clipboard_set :: "content \<Rightarrow> arboard_set" where
  "clipboard_set (Text text) = SetText text"
| "clipboard_set (Image img) =
     SetImage (unat (img_width img)) (unat (img_height img)) (img_rgba img)"

definition clipboard_write ::
  "(arboard_error \<Rightarrow> rstr) \<Rightarrow> os_answers \<Rightarrow> content \<Rightarrow> clipboard_error + unit" where
  "clipboard_write msg os content =
     (case ans_set os of Inl e \<Rightarrow> Err (map_error msg e) | Inr _ \<Rightarrow> Ok ())"

section \<open>Lemmas and properties\<close>

definition kept_content :: "content \<Rightarrow> bool" where
  "kept_content c =
     (case c of
        Text s \<Rightarrow> 13 \<notin> set s
      | Image i \<Rightarrow> length (img_rgba i) \<le> max_image_bytes \<and>
          length (img_rgba i) = unat (img_width i) * unat (img_height i) * 4)"

lemma clipboard_read_kept: "clipboard_read msg os = Ok (Content c) \<Longrightarrow> kept_content c"
  using normalize_no_cr
  by (auto simp: clipboard_read_def kept_content_def content_text_def from_rgba_Some_iff
      split: if_splits sum.splits option.splits)

lemma clipboard_read_valid:
  "clipboard_read msg os = Ok snap \<Longrightarrow> (\<And>s. ans_text os = Ok s \<Longrightarrow> valid_str s) \<Longrightarrow>
   valid_snapshot snap"
  by (auto simp: clipboard_read_def read_text_def not_available_as_none_def content_text_def
      from_rgba_Some_iff intro: valid_normalize
      split: if_splits sum.splits option.splits arboard_error.splits)

text \<open>
  Content an application marked private is never loaded: whatever text and image the clipboard
  offers, the read reports \<open>Sensitive\<close>; and content is only ever read with the marker absent or
  its check failing, with normalized text and images of consistent size below the cap.
\<close>

theorem clipboard_read_respects_privacy:
  "(ans_private os = Ok True \<longrightarrow> clipboard_read msg os = Ok (Skipped Sensitive)) \<and>
   (clipboard_read msg os = Ok (Content c) \<longrightarrow> ans_private os \<noteq> Ok True \<and> kept_content c)"
  using clipboard_read_kept by (auto simp: clipboard_read_def)

theorem clipboard_read_respects_privacy_witness:
  "clipboard_read (\<lambda>_. [])
     \<lparr>ans_private = Ok True, ans_text = Ok (str_lit ''secret''), ans_image = Err ContentNotAvailable,
      ans_token = None, ans_set = Ok ()\<rparr> = Ok (Skipped Sensitive) \<and>
   kept_content (Text (str_lit ''hi''))"
proof -
  let ?os = "\<lparr>ans_private = Ok False, ans_text = Ok (str_lit ''hi''),
    ans_image = Err ContentNotAvailable, ans_token = None, ans_set = Ok ()\<rparr>"
  have "clipboard_read (\<lambda>_. []) ?os = Ok (Content (Text (str_lit ''hi'')))"
    by (simp add: clipboard_read_def read_text_def not_available_as_none_def content_text_def
        normalize_line_endings_def str_lit_def)
  then show ?thesis
    using clipboard_read_respects_privacy [of ?os "\<lambda>_. []" "Text (str_lit ''hi'')"]
      clipboard_read_respects_privacy [of "?os\<lparr>ans_private := Ok True, ans_text := Ok (str_lit ''secret'')\<rparr>"
        "\<lambda>_. []"]
    by simp
qed

end
