(* ===== verification/Holder.thy ===== *)
theory Holder
  imports Clipboard_Access
begin

text \<open>
  \<open>crates/cled-clipboard/src/holder.rs\<close>: the hand-off of clipboard content to a holder process, its
  byte format, and what the holder does with what it was handed. The clipboard the holder sees is
  given by the results of its service's read and write and the changes it is told about.
\<close>

section \<open>Byte format\<close>

fun holder_encode :: "content \<Rightarrow> byte list" where
  "holder_encode (Text text) = of_char CHR ''T'' # utf8 text"
| "holder_encode (Image img) =
     of_char CHR ''I'' # le_bytes (img_width img) @ le_bytes (img_height img) @ img_rgba img"

text \<open>\<open>rest.get(a..b)\<close>: \<open>None\<close> out of range.\<close>

definition get_range :: "nat \<Rightarrow> nat \<Rightarrow> 'a list \<Rightarrow> 'a list option" where
  "get_range a b xs = (if a \<le> b \<and> b \<le> length xs then Some (take (b - a) (drop a xs)) else None)"

definition get_from :: "nat \<Rightarrow> 'a list \<Rightarrow> 'a list option" where
  "get_from a xs = (if a \<le> length xs then Some (drop a xs) else None)"

definition holder_decode :: "byte list \<Rightarrow> content option" where
  "holder_decode bytes =
     (case bytes of
        [] \<Rightarrow> None
      | tag # rest \<Rightarrow>
          if tag = of_char CHR ''T'' then map_option Text (utf8_decode rest)
          else if tag = of_char CHR ''I'' then
            (case (get_range 0 4 rest, get_range 4 8 rest, get_from 8 rest) of
               (Some w, Some h, Some rgba) \<Rightarrow> map_option Image (from_rgba (le_word w) (le_word h) rgba)
             | _ \<Rightarrow> None)
          else None)"

section \<open>The holder process\<close>

definition holder_arg :: rstr where
  "holder_arg = str_lit ''--cled-hold-clipboard''"

definition ready :: rstr where
  "ready = str_lit ''ready''"

text \<open>What the holder did before it exited.\<close>

datatype holder_exit =
    HolderFailed rstr
  | HolderDeclined
  | HolderReplaced "snapshot list"
  | HolderServiceGone "snapshot list"

text \<open>
  \<open>for snapshot in changes\<close>: stops at the first change that isn't the expected one, or when the
  channel closes. The result holds the changes consumed.
\<close>

fun hold_until_replaced :: "snapshot \<Rightarrow> snapshot list \<Rightarrow> holder_exit" where
  "hold_until_replaced expected [] = HolderServiceGone []"
| "hold_until_replaced expected (s # ss) =
     (if s \<noteq> expected then HolderReplaced [s]
      else (case hold_until_replaced expected ss of
              HolderReplaced seen \<Rightarrow> HolderReplaced (s # seen)
            | HolderServiceGone seen \<Rightarrow> HolderServiceGone (s # seen)
            | other \<Rightarrow> other))"

text \<open>
  The effects of \<open>hold_from_stdin\<close> in order: the clipboard writes it made and the lines it printed.
\<close>

datatype holder_effect = HolderWrite content | HolderPrint rstr

definition hold_from_stdin ::
  "byte list \<Rightarrow> clipboard_error + unit \<Rightarrow> clipboard_error + snapshot \<Rightarrow> clipboard_error + unit
   \<Rightarrow> snapshot list \<Rightarrow> holder_effect list \<times> holder_exit" where
  "hold_from_stdin bytes spawned read_result write_result changes =
     (case holder_decode bytes of
        None \<Rightarrow> ([], HolderFailed (str_lit ''malformed clipboard hand-off''))
      | Some content \<Rightarrow>
          (case spawned of
             Inl e \<Rightarrow> ([], HolderFailed (clipboard_error_text e))
           | Inr _ \<Rightarrow>
               (case read_result of
                  Inl e \<Rightarrow> ([], HolderFailed (clipboard_error_text e))
                | Inr snap \<Rightarrow>
                    if snap \<noteq> Content content then ([], HolderDeclined)
                    else
                      (case write_result of
                         Inl e \<Rightarrow> ([HolderWrite content], HolderFailed (clipboard_error_text e))
                       | Inr _ \<Rightarrow>
                           ([HolderWrite content, HolderPrint ready],
                            hold_until_replaced (Content content) changes)))))"

text \<open>
  The parent's side: \<open>line\<close> is the first line the holder printed before the timeout, \<open>None\<close> when
  it printed none in time (or its output could not be read).
\<close>

definition holder_ready :: "rstr option \<Rightarrow> bool" where
  "holder_ready line = (case line of None \<Rightarrow> False | Some l \<Rightarrow> trim l = ready)"

section \<open>Lemmas and properties\<close>

lemma holder_tags_differ: "(of_char CHR ''I'' :: byte) \<noteq> of_char CHR ''T''"
  by simp

lemma holder_decode_image:
  assumes "from_rgba (img_width i) (img_height i) (img_rgba i) = Some i"
  shows "holder_decode (holder_encode (Image i)) = Some (Image i)"
proof -
  have "length (le_bytes (img_width i)) = 4" and "length (le_bytes (img_height i)) = 4"
    by (simp_all add: length_le_bytes)
  with assms show ?thesis
    by (simp add: holder_decode_def get_range_def get_from_def le_word_le_bytes)
qed

lemma holder_decode_encode: "valid_content c \<Longrightarrow> holder_decode (holder_encode c) = Some c"
  using holder_decode_image by (cases c) (simp_all add: holder_decode_def utf8_decode_utf8)

text \<open>
  Whatever Cled hands to its holder, the holder reads back: decoding an encoded text or image
  returns it unchanged.
\<close>

theorem holder_hand_off_round_trip:
  assumes "valid_content c"
  shows "holder_decode (holder_encode c) = Some c"
  using assms by (rule holder_decode_encode)

theorem holder_hand_off_round_trip_witness:
  "holder_decode (holder_encode (Text [104, 233, 0x1F600])) = Some (Text [104, 233, 0x1F600])"
  by (rule holder_hand_off_round_trip) (simp add: valid_str_def is_scalar_def)

text \<open>Everything that decodes is well formed: UTF-8 text or an image of consistent size.\<close>

lemma holder_decode_valid: "holder_decode bs = Some c \<Longrightarrow> valid_content c"
  by (auto simp: holder_decode_def from_rgba_Some_iff
      split: list.splits if_splits option.splits dest: utf8_decode_valid)

lemma hold_until_replaced_seen:
  "hold_until_replaced e ss = HolderReplaced seen \<Longrightarrow>
   \<exists>n s. seen = replicate n e @ [s] \<and> s \<noteq> e \<and> prefix seen ss"
proof (induction ss arbitrary: seen)
  case (Cons s ss)
  show ?case
  proof (cases "s = e")
    case False
    with Cons.prems show ?thesis by (auto intro: exI [of _ 0])
  next
    case True
    with Cons.prems obtain seen' where "hold_until_replaced e ss = HolderReplaced seen'"
      and seen: "seen = s # seen'"
      by (auto split: holder_exit.splits)
    with Cons.IH obtain n t where "seen' = replicate n e @ [t]" "t \<noteq> e" "prefix seen' ss"
      by blast
    with True seen show ?thesis
      by (intro exI [of _ "Suc n"] exI [of _ t]) simp
  qed
qed simp

text \<open>
  The holder never overwrites a newer copy: if it writes at all, it writes exactly what the
  clipboard showed when it checked, which is what it was handed; and it announces itself ready only
  after that write succeeded.
\<close>

theorem holder_never_overwrites_newer_copy:
  "hold_from_stdin bytes spawned shown written changes = (effects, ended) \<Longrightarrow>
   HolderWrite c \<in> set effects \<Longrightarrow>
   holder_decode bytes = Some c \<and> shown = Ok (Content c) \<and>
   (HolderPrint ready \<in> set effects \<longleftrightarrow> written = Ok ()) \<and>
   (\<forall>seen. ended = HolderReplaced seen \<longrightarrow> last seen \<noteq> Content c)"
  by (auto simp: hold_from_stdin_def split: option.splits sum.splits if_splits
      dest!: hold_until_replaced_seen)

theorem holder_never_overwrites_newer_copy_witness:
  defines "c \<equiv> Text (str_lit ''x'')"
  shows "Ok (Content c) = (Ok (Content c) :: clipboard_error + snapshot) \<and>
    hold_from_stdin (holder_encode c) (Ok ()) (Ok (Content c)) (Ok ()) [Content c, Empty]
      = ([HolderWrite c, HolderPrint ready], HolderReplaced [Content c, Empty]) \<and>
    last [Content c, Empty] \<noteq> Content c"
proof -
  have "holder_decode (holder_encode c) = Some c"
    by (simp add: c_def holder_decode_def utf8_decode_utf8 valid_str_def is_scalar_def str_lit_def)
  then have run: "hold_from_stdin (holder_encode c) (Ok ()) (Ok (Content c)) (Ok ()) [Content c, Empty]
      = ([HolderWrite c, HolderPrint ready], HolderReplaced [Content c, Empty])"
    by (simp add: hold_from_stdin_def)
  with holder_never_overwrites_newer_copy [OF run, of c] show ?thesis by simp
qed

end
