(* ===== verification/Clipboard_Service.thy ===== *)
theory Clipboard_Service
  imports Holder
begin

text \<open>
  \<open>crates/cled-clipboard/src/service.rs\<close>: the background thread that owns the clipboard. Its loop is
  a step function over the requests it receives and the timeouts of its schedule; each step gets
  the time and the platform's answers and returns the new state (\<open>None\<close> when the loop ends) and
  what it did: replies, change callbacks, log lines. Times are in nanoseconds.
\<close>

section \<open>Schedule\<close>

definition default_poll_interval :: nat where "default_poll_interval = millis 500"
definition safety_check_interval :: nat where "safety_check_interval = secs 5"
definition notify_debounce :: nat where "notify_debounce = millis 25"

record schedule =
  sch_interval :: nat
  sch_next :: nat

definition schedule_new :: "nat \<Rightarrow> nat \<Rightarrow> schedule" where
  "schedule_new now interval = \<lparr>sch_interval = interval, sch_next = now + interval\<rparr>"

definition next_check :: "schedule \<Rightarrow> nat" where
  "next_check s = sch_next s"

definition notified :: "nat \<Rightarrow> schedule \<Rightarrow> schedule" where
  "notified now s = s\<lparr>sch_next := min (sch_next s) (now + notify_debounce)\<rparr>"

definition checked :: "nat \<Rightarrow> schedule \<Rightarrow> schedule" where
  "checked now s = s\<lparr>sch_next := now + sch_interval s\<rparr>"

text \<open>\<open>recv_timeout\<close>'s timeout: how long until the next check, zero when it is overdue.\<close>

definition recv_timeout :: "nat \<Rightarrow> schedule \<Rightarrow> nat" where
  "recv_timeout now s = next_check s - now"

text \<open>The interval \<open>spawn\<close> picks, from whether a watcher could be started.\<close>

definition spawn_interval :: "bool \<Rightarrow> nat \<Rightarrow> change_detection \<times> nat" where
  "spawn_interval watching poll_interval =
     (let detection = (if watching then Events else Polling)
      in (detection, case detection of Events \<Rightarrow> safety_check_interval | Polling \<Rightarrow> poll_interval))"

section \<open>The service thread\<close>

datatype service_event =
    EvRead
  | EvWrite content
  | EvChanged
  | EvKeepAfterExit
  | EvStop
  | EvDisconnected
  | EvTimeout

datatype service_out =
    ReplyRead "clipboard_error + snapshot"
  | ReplyWrite "clipboard_error + unit"
  | ReplyKeep "clipboard_error + bool"
  | OnChange snapshot
  | LogReadFailed rstr

record service =
  sv_detector :: change_detector
  sv_last_token :: "u64 option"
  sv_last_error :: "rstr option"
  sv_last_written :: "content option"
  sv_schedule :: schedule

text \<open>The platform, the time and the outcome of starting a holder, for one step.\<close>

record service_env =
  env_now :: nat
  env_os :: os_answers
  env_holder :: "rstr + bool"

definition keep_after_exit ::
  "bool \<Rightarrow> (arboard_error \<Rightarrow> rstr) \<Rightarrow> os_answers \<Rightarrow> rstr + bool \<Rightarrow> content option
   \<Rightarrow> clipboard_error + bool" where
  "keep_after_exit content_dies msg os hold last_written =
     (if \<not> content_dies then Ok False
      else
        (case last_written of
           None \<Rightarrow> Ok False
         | Some written \<Rightarrow>
             (case clipboard_read msg os of
                Inl e \<Rightarrow> Err e
              | Inr snap \<Rightarrow>
                  if snap \<noteq> Content written then Ok False
                  else
                    (case hold of
                       Inl m \<Rightarrow>
                         Err (OtherError (str_lit ''failed to start clipboard holder: '' @ m))
                     | Inr took_over \<Rightarrow> Ok took_over))))"

definition service_init ::
  "(hash_write list \<Rightarrow> u64) \<Rightarrow> (arboard_error \<Rightarrow> rstr) \<Rightarrow> os_answers \<Rightarrow> nat \<Rightarrow> nat \<Rightarrow> service" where
  "service_init hasher msg os now interval =
     \<lparr>sv_detector =
        baseline hasher detector_default
          (case clipboard_read msg os of Inr snap \<Rightarrow> snap | Inl _ \<Rightarrow> Empty),
      sv_last_token = ans_token os,
      sv_last_error = None,
      sv_last_written = None,
      sv_schedule = schedule_new now interval\<rparr>"

text \<open>The branch of the loop taken when the check is due.\<close>

definition service_check ::
  "(hash_write list \<Rightarrow> u64) \<Rightarrow> (arboard_error \<Rightarrow> rstr) \<Rightarrow> service_env \<Rightarrow> service
   \<Rightarrow> service \<times> service_out list" where
  "service_check hasher msg env s0 =
     (let s = s0\<lparr>sv_schedule := checked (env_now env) (sv_schedule s0)\<rparr>;
          os = env_os env;
          token = ans_token os
      in if token \<noteq> None \<and> token = sv_last_token s then (s, [])
         else
           (let s = s\<lparr>sv_last_token := token\<rparr>
            in case clipboard_read msg os of
                 Inr snap \<Rightarrow>
                   (let (changed, d) = observe hasher (sv_detector s) snap
                    in (s\<lparr>sv_last_error := None, sv_detector := d\<rparr>,
                        if changed then [OnChange snap] else []))
               | Inl Busy \<Rightarrow> (s, [])
               | Inl e \<Rightarrow>
                   (let message = clipboard_error_text e
                    in if sv_last_error s \<noteq> Some message
                       then (s\<lparr>sv_last_error := Some message\<rparr>, [LogReadFailed message])
                       else (s, []))))"

fun service_step ::
  "bool \<Rightarrow> (hash_write list \<Rightarrow> u64) \<Rightarrow> (arboard_error \<Rightarrow> rstr) \<Rightarrow> service
   \<Rightarrow> service_event \<times> service_env \<Rightarrow> service option \<times> service_out list" where
  "service_step dies hasher msg s (EvRead, env) =
     (Some s, [ReplyRead (clipboard_read msg (env_os env))])"
| "service_step dies hasher msg s (EvWrite content, env) =
     (let result = clipboard_write msg (env_os env) content
      in (Some (if result = Ok () then s\<lparr>sv_last_written := Some content\<rparr> else s),
          [ReplyWrite result]))"
| "service_step dies hasher msg s (EvKeepAfterExit, env) =
     (Some s,
      [ReplyKeep (keep_after_exit dies msg (env_os env) (env_holder env) (sv_last_written s))])"
| "service_step dies hasher msg s (EvChanged, env) =
     (Some (s\<lparr>sv_schedule := notified (env_now env) (sv_schedule s)\<rparr>), [])"
| "service_step dies hasher msg s (EvStop, env) = (None, [])"
| "service_step dies hasher msg s (EvDisconnected, env) = (None, [])"
| "service_step dies hasher msg s (EvTimeout, env) =
     (let (s', out) = service_check hasher msg env s in (Some s', out))"

fun service_run ::
  "bool \<Rightarrow> (hash_write list \<Rightarrow> u64) \<Rightarrow> (arboard_error \<Rightarrow> rstr) \<Rightarrow> service
   \<Rightarrow> (service_event \<times> service_env) list \<Rightarrow> service_out list" where
  "service_run dies hasher msg s [] = []"
| "service_run dies hasher msg s (e # es) =
     (case service_step dies hasher msg s e of
        (None, out) \<Rightarrow> out
      | (Some s', out) \<Rightarrow> out @ service_run dies hasher msg s' es)"

section \<open>What the callbacks report\<close>

text \<open>The changes a list of outputs reports.\<close>

fun reported :: "service_out list \<Rightarrow> snapshot list" where
  "reported [] = []"
| "reported (OnChange s # out) = s # reported out"
| "reported (_ # out) = reported out"

lemma reported_append [simp]: "reported (a @ b) = reported a @ reported b"
  by (induction a rule: reported.induct) auto

text \<open>
  The snapshots a run really looks at: the successful reads of checks that a change token did not
  skip, up to the request to stop.
\<close>

fun looked_at ::
  "(arboard_error \<Rightarrow> rstr) \<Rightarrow> u64 option \<Rightarrow> (service_event \<times> service_env) list \<Rightarrow> snapshot list" where
  "looked_at msg token [] = []"
| "looked_at msg token ((ev, env) # es) =
     (if ev = EvStop \<or> ev = EvDisconnected then []
      else if ev = EvTimeout \<and> \<not> (ans_token (env_os env) \<noteq> None \<and> ans_token (env_os env) = token)
      then
        (case clipboard_read msg (env_os env) of Inr snap \<Rightarrow> [snap] | Inl _ \<Rightarrow> [])
        @ looked_at msg (ans_token (env_os env)) es
      else looked_at msg token es)"

lemma service_check_cases:
  assumes "service_check hasher msg env s = (s', out)"
  shows "(if ans_token (env_os env) \<noteq> None \<and> ans_token (env_os env) = sv_last_token s
          then s' = s\<lparr>sv_schedule := checked (env_now env) (sv_schedule s)\<rparr> \<and> out = []
          else sv_last_token s' = ans_token (env_os env) \<and>
            (case clipboard_read msg (env_os env) of
               Inr snap \<Rightarrow> sv_detector s' = snd (observe hasher (sv_detector s) snap) \<and>
                 reported out = (if fst (observe hasher (sv_detector s) snap) then [snap] else [])
             | Inl e \<Rightarrow> sv_detector s' = sv_detector s \<and> reported out = []))"
  using assms
  by (auto simp: service_check_def Let_def case_prod_beta
      split: if_splits sum.splits clipboard_error.splits)

lemma service_run_reported:
  "reported (service_run dies hasher msg s es)
   = observe_all hasher (sv_detector s) (looked_at msg (sv_last_token s) es)"
proof (induction es arbitrary: s)
  case (Cons e es)
  obtain ev env where e: "e = (ev, env)" by (cases e)
  show ?case
  proof (cases ev)
    case EvTimeout
    obtain s' out where check: "service_check hasher msg env s = (s', out)" by fastforce
    from service_check_cases [OF check] show ?thesis
      using Cons.IH [of s'] check e EvTimeout
      by (cases "clipboard_read msg (env_os env)")
        (auto simp: case_prod_beta Let_def split: if_splits)
  qed (use Cons.IH e in \<open>auto simp: Let_def\<close>)
qed simp

lemma service_init_fields [simp]:
  "sv_detector (service_init hasher msg os now interval)
     = baseline hasher detector_default (case clipboard_read msg os of Inr snap \<Rightarrow> snap | Inl _ \<Rightarrow> Empty)"
  "sv_last_token (service_init hasher msg os now interval) = ans_token os"
  by (simp_all add: service_init_def)

section \<open>Schedule: bursts and missed notifications\<close>

lemma notified_interval [simp]: "sch_interval (foldr notified ts s) = sch_interval s"
  by (induction ts) (simp_all add: notified_def)

lemma next_check_notified_all:
  "next_check (foldl (\<lambda>s t. notified t s) s ts) =
   fold (\<lambda>t n. min n (t + notify_debounce)) ts (next_check s)"
  by (induction ts arbitrary: s) (simp_all add: notified_def next_check_def)

lemma fold_min_sorted:
  "\<forall>u\<in>set ts. t \<le> u \<Longrightarrow> n \<le> t + d \<Longrightarrow> fold (\<lambda>u n. min n (u + d)) ts n = (n :: nat)"
  by (induction ts) auto

lemma burst_after_check:
  assumes "sorted (t # ts)"
  shows "next_check (foldl (\<lambda>s u. notified u s) (checked now s) (t # ts))
         = min (now + sch_interval s) (t + notify_debounce)"
proof -
  have "fold (\<lambda>u n. min n (u + notify_debounce)) ts (min (now + sch_interval s) (t + notify_debounce))
        = min (now + sch_interval s) (t + notify_debounce)"
    using assms by (intro fold_min_sorted [of _ t]) auto
  then show ?thesis
    by (simp only: next_check_notified_all) (simp add: checked_def next_check_def)
qed

section \<open>Properties\<close>

text \<open>
  C30: The thread's callbacks report exactly the real changes among the snapshots it looked at, in
  order, whatever requests are served in between: nothing for the startup content, nothing for an
  empty clipboard, and nothing from reads, writes or the exit hand-off.
\<close>

theorem service_reports_real_changes:
  fixes msg os es
  defines "startup \<equiv> (case clipboard_read msg os of Inr snap \<Rightarrow> snap | Inl _ \<Rightarrow> Empty)"
    and "looks \<equiv> looked_at msg (ans_token os) es"
  assumes "\<forall>s\<in>set (startup # looks). valid_snapshot s"
    and "inj_on hasher (snapshot_writes ` set (startup # looks))"
  shows "reported (service_run dies hasher msg (service_init hasher msg os now interval) es)
         = real_changes startup looks"
  using assms by (simp add: service_run_reported observe_all_real_changes baseline_def)

definition example_answers :: "u64 option \<Rightarrow> rstr \<Rightarrow> os_answers" where
  "example_answers token text =
     \<lparr>ans_private = Ok False, ans_text = Ok text, ans_image = Err ContentNotAvailable,
      ans_token = token, ans_set = Ok ()\<rparr>"

definition example_env :: "nat \<Rightarrow> u64 option \<Rightarrow> rstr \<Rightarrow> service_env" where
  "example_env now token text =
     \<lparr>env_now = now, env_os = example_answers token text, env_holder = Ok True\<rparr>"

lemma clipboard_read_example [simp]:
  "clipboard_read msg (example_answers token text) = Ok (Content (content_text text))"
  by (simp add: clipboard_read_def example_answers_def read_text_def not_available_as_none_def)

lemma example_token [simp]: "ans_token (example_answers token text) = token"
  by (simp add: example_answers_def)

lemma example_env_fields [simp]:
  "env_os (example_env now token text) = example_answers token text"
  "env_now (example_env now token text) = now"
  by (simp_all add: example_env_def)

theorem service_reports_real_changes_witness:
  defines "es \<equiv> [(EvRead, example_env 1 None [97]), (EvTimeout, example_env 2 None [97, 32]),
                 (EvTimeout, example_env 3 None [98]), (EvStop, example_env 4 None [97])]"
    and "h \<equiv> (\<lambda>ws :: hash_write list. if HStr [98] \<in> set ws then 1 else 0 :: u64)"
  shows "reported (service_run True h (\<lambda>_. [])
           (service_init h (\<lambda>_. []) (example_answers None [97]) 0 default_poll_interval) es)
         = [Content (Text [98])]"
proof -
  let ?startup = "case clipboard_read (\<lambda>_. []) (example_answers None [97]) of
    Inr snap \<Rightarrow> snap | Inl _ \<Rightarrow> Empty"
  let ?looks = "looked_at (\<lambda>_. []) (ans_token (example_answers None [97])) es"
  have looks: "?looks = [Content (Text [97, 32]), Content (Text [98])]"
    and startup: "?startup = Content (Text [97])"
    by (simp_all add: es_def content_text_def normalize_line_endings_def)
  have "\<forall>s\<in>set (?startup # ?looks). valid_snapshot s"
    unfolding looks startup by (simp add: valid_str_def is_scalar_def)
  moreover have "inj_on h (snapshot_writes ` set (?startup # ?looks))"
    unfolding looks startup
    by (simp add: h_def trim_end_def is_whitespace_def utf8_def utf8_char_def str_lit_def)
  ultimately have "reported (service_run True h (\<lambda>_. [])
      (service_init h (\<lambda>_. []) (example_answers None [97]) 0 default_poll_interval) es)
    = real_changes ?startup ?looks"
    by (rule service_reports_real_changes)
  then show ?thesis
    unfolding looks startup by (simp add: trim_end_def is_whitespace_def)
qed

text \<open>
  After a check, a burst of notifications schedules one check, 25 ms after the first of them;
  later ones never push it back, and a notification never delays a check that was due earlier.
\<close>

theorem burst_collapses_into_one_check:
  assumes "sorted (t # ts)"
  shows "next_check (foldl (\<lambda>s u. notified u s) (checked now s) (t # ts))
         = min (now + sch_interval s) (t + notify_debounce)"
  using assms by (rule burst_after_check)

theorem burst_collapses_into_one_check_witness:
  "next_check (foldl (\<lambda>s u. notified u s) (checked 0 (schedule_new 0 safety_check_interval))
     [millis 100, millis 105, millis 110]) = millis 125"
  using burst_collapses_into_one_check [of "millis 100" "[millis 105, millis 110]" 0
      "schedule_new 0 safety_check_interval"]
  by (simp add: millis_def secs_def safety_check_interval_def notify_debounce_def schedule_new_def)

text \<open>
  On exit the content is handed to a holder only where it would be lost with the process, and
  only while the clipboard still shows exactly what Cled wrote last; everything else is left alone.
\<close>

theorem keep_after_exit_hands_off_own_content:
  "keep_after_exit dies msg os hold last_written = Ok True \<longleftrightarrow>
     dies \<and> hold = Ok True \<and>
     (\<exists>written. last_written = Some written \<and> clipboard_read msg os = Ok (Content written))"
  by (auto simp: keep_after_exit_def split: option.splits sum.splits)

end
