(* ===== verification/App.thy ===== *)
theory App
  imports Relay Desktop Engine Clipboard_Service
begin

text \<open>
  The glue of the desktop app: \<open>apps/desktop/src-tauri/src/clipboard.rs\<close> (clipboard changes and
  commands) and \<open>sync.rs\<close> (events of the node and commands), on the models of the engine, the node and
  the clipboard service. Events for the user interface are data; \<open>fmt\<close> and \<open>msg\<close> give the texts of
  identifiers and errors.
\<close>

section \<open>What the user interface is told\<close>

datatype origin_info = ThisDevice | OtherDevice rstr "rstr option"

record item_info =
  ii_id :: rstr
  ii_origin :: origin_info

datatype skipped_reason = SkippedSensitive | SkippedTooLarge u32 u32

datatype clipboard_payload =
    PayloadText rstr
  | PayloadImage u32 u32 "rstr option"
  | PayloadSkipped skipped_reason

record clipboard_changed =
  cc_item :: "item_info option"
  cc_content :: clipboard_payload

definition peer_name :: "node \<Rightarrow> device_id \<Rightarrow> rstr option" where
  "peer_name nd d = map_option pst_name (find (\<lambda>p. pst_id p = d) (peer_statuses nd))"

definition item_info_new ::
  "(128 word \<Rightarrow> rstr) \<Rightarrow> clipboard_item \<Rightarrow> device_id \<Rightarrow> node option \<Rightarrow> item_info" where
  "item_info_new fmt item this_device nd =
     \<lparr>ii_id = fmt (item_uuid (it_id item)),
      ii_origin = (if it_origin item = this_device then ThisDevice
                   else OtherDevice (device_id_fmt fmt (it_origin item))
                          (case nd of Some nd \<Rightarrow> peer_name nd (it_origin item) | None \<Rightarrow> None))\<rparr>"

text \<open>\<open>preview\<close> is \<open>Desktop.data_url\<close> with its libraries.\<close>

definition payload_from_snapshot ::
  "(pixel_image \<Rightarrow> rstr option) \<Rightarrow> snapshot \<Rightarrow> clipboard_payload option" where
  "payload_from_snapshot preview snap =
     (case snap of
        Content (Text t) \<Rightarrow> Some (PayloadText t)
      | Content (Image img) \<Rightarrow> Some (PayloadImage (img_width img) (img_height img) (preview img))
      | Skipped Sensitive \<Rightarrow> Some (PayloadSkipped SkippedSensitive)
      | Skipped (TooLarge w h) \<Rightarrow> Some (PayloadSkipped (SkippedTooLarge w h))
      | Empty \<Rightarrow> None)"

section \<open>Clipboard changes\<close>

record app_lib =
  al_node :: node_lib
  al_blake3 :: "byte list \<Rightarrow> byte list"
  al_png_write :: "u32 \<Rightarrow> u32 \<Rightarrow> byte list \<Rightarrow> byte list option"
  al_preview :: "pixel_image \<Rightarrow> rstr option"

text \<open>
  \<open>fresh\<close> and \<open>now\<close> are the identifier and the time a new item gets. The results are what the user
  interface is told, the engine, and what the node sends.
\<close>

definition process_change ::
  "app_lib \<Rightarrow> item_id \<Rightarrow> int \<Rightarrow> node option \<Rightarrow> snapshot \<Rightarrow> sync_engine
   \<Rightarrow> clipboard_changed option \<times> sync_engine \<times> node_effect list" where
  "process_change lib fresh now nd snap engine =
     (let fmt = nl_uuid_fmt (al_node lib);
          (item, engine, sent) =
            (case snap of
               Content content \<Rightarrow>
                 (let device = eng_device engine
                  in case on_local_change (al_blake3 lib) fresh now content engine of
                       (Copied item, engine) \<Rightarrow>
                         (Some (item_info_new fmt item device nd), engine,
                          case nd of
                            Some nd \<Rightarrow> broadcast_item (al_node lib) (al_png_write lib) item nd
                          | None \<Rightarrow> [])
                     | (Echo item, engine) \<Rightarrow> (Some (item_info_new fmt item device nd), engine, []))
             | _ \<Rightarrow> (None, engine, []))
      in (map_option (\<lambda>payload. \<lparr>cc_item = item, cc_content = payload\<rparr>)
            (payload_from_snapshot (al_preview lib) snap), engine, sent))"

text \<open>The clipboard service, or why it could not start; \<open>written\<close> is its answer to a write.\<close>

definition clipboard_state_write ::
  "rstr option \<Rightarrow> (content \<Rightarrow> clipboard_error + unit) \<Rightarrow> content \<Rightarrow> rstr + unit" where
  "clipboard_state_write unavailable written content =
     (case unavailable of
        Some reason \<Rightarrow> Err reason
      | None \<Rightarrow> (case written content of Inl e \<Rightarrow> Err (clipboard_error_text e) | Inr u \<Rightarrow> Ok u))"

definition write_clipboard ::
  "rstr option \<Rightarrow> (content \<Rightarrow> clipboard_error + unit) \<Rightarrow> rstr \<Rightarrow> rstr + unit" where
  "write_clipboard unavailable written t = clipboard_state_write unavailable written (content_text t)"

definition read_clipboard ::
  "(pixel_image \<Rightarrow> rstr option) \<Rightarrow> rstr option \<Rightarrow> clipboard_error + snapshot \<Rightarrow> rstr + clipboard_payload option" where
  "read_clipboard preview unavailable answer =
     (case unavailable of
        Some reason \<Rightarrow> Err reason
      | None \<Rightarrow> (case answer of
                   Inl e \<Rightarrow> Err (clipboard_error_text e)
                 | Inr snap \<Rightarrow> Ok (payload_from_snapshot preview snap)))"

text \<open>The backend, how changes are detected, and whether the view of the clipboard is limited.\<close>

datatype clipboard_status =
    Watching clipboard_backend change_detection bool
  | StatusUnavailable rstr

definition clipboard_status_of :: "rstr + backend_info \<Rightarrow> clipboard_status" where
  "clipboard_status_of service =
     (case service of
        Inl reason \<Rightarrow> StatusUnavailable reason
      | Inr info \<Rightarrow> Watching (bi_backend info) (bi_change_detection info) (is_limited (bi_backend info)))"

section \<open>Events of the node\<close>

datatype ui_event =
    UiSyncChanged
  | UiPaired rstr
  | UiPairingCode "rstr option"
  | UiNotify rstr
  | UiLog rstr

text \<open>
  \<open>managed\<close>: the clipboard state is managed by the app already. A received item may end as a write to
  the clipboard, which is the first result.
\<close>

definition handle_event ::
  "app_lib \<Rightarrow> bool \<Rightarrow> (content \<Rightarrow> rstr + unit) \<Rightarrow> node \<Rightarrow> event \<Rightarrow> sync_engine
   \<Rightarrow> content option \<times> sync_engine \<times> ui_event list" where
  "handle_event lib managed state_write nd ev engine =
     (case ev of
        ItemReceived item _ \<Rightarrow>
          (case on_remote_item (al_blake3 lib) item engine of
             (Ignore _, engine) \<Rightarrow> (None, engine, [])
           | (Write content, engine) \<Rightarrow>
               (case (if managed then state_write content else Err (str_lit ''clipboard not ready'')) of
                  Inl e \<Rightarrow>
                    (None, on_write_failed engine,
                     [UiLog (str_lit ''could not apply received clipboard item: '' @ e)])
                | Inr _ \<Rightarrow> (Some content, engine, [])))
      | PeersChanged \<Rightarrow> (None, engine, [UiSyncChanged])
      | Paired _ name \<Rightarrow> (None, engine, [UiPaired name, UiSyncChanged])
      | PairingCodeChanged code \<Rightarrow> (None, engine, [UiPairingCode (map_option code_fmt code)])
      | RemovedBy _ name \<Rightarrow>
          (None, engine,
           [UiNotify (name @ str_lit '' removed this device. They no longer share a clipboard.''), UiSyncChanged])
      | ClockSkew d skew \<Rightarrow>
          (None, engine,
           [UiLog (case find (\<lambda>p. pst_id p = d) (peer_statuses nd) of
                     None \<Rightarrow> device_id_fmt (nl_uuid_fmt (al_node lib)) d
                   | Some p \<Rightarrow> pst_name p)]))"

section \<open>Commands\<close>

definition device_name :: "rstr \<Rightarrow> rstr" where
  "device_name host =
     (let short = trim (hd (split_on (of_char CHR ''.'') host))
      in if short = [] then str_lit ''Cled device'' else short)"

text \<open>The node, or why it could not start.\<close>

record sync_status =
  sy_unavailable :: "rstr option"
  sy_name :: rstr
  sy_address :: "rstr option"
  sy_peers :: "(rstr \<times> rstr \<times> bool) list"

text \<open>
  What the operating system says about a UDP socket: whether it can be bound, whether it can be
  connected to an address of TEST-NET-1 (no packet is sent), and its local address then.
\<close>

record lan_lookup =
  ll_bound :: bool
  ll_connected :: bool
  ll_local :: "socket_addr option"

fun is_unspecified :: "socket_addr \<Rightarrow> bool" where
  "is_unspecified (V4 ip _) = (ip = 0)"
| "is_unspecified (V6 ip _ _ _) = (ip = 0)"

text \<open>\<open>SocketAddr::new\<close> on the address of another one.\<close>

fun at_port :: "u16 \<Rightarrow> socket_addr \<Rightarrow> socket_addr" where
  "at_port port (V4 ip _) = V4 ip port"
| "at_port port (V6 ip _ _ _) = V6 ip port 0 0"

definition lan_address :: "lan_lookup \<Rightarrow> u16 \<Rightarrow> socket_addr option" where
  "lan_address l port =
     (if ll_bound l \<and> ll_connected l
      then (case ll_local l of
              None \<Rightarrow> None
            | Some a \<Rightarrow> if is_unspecified a then None else Some (at_port port a))
      else None)"

text \<open>\<open>addr_fmt\<close> prints a socket address, as the standard library does.\<close>

definition sync_status_of ::
  "(128 word \<Rightarrow> rstr) \<Rightarrow> (socket_addr \<Rightarrow> rstr) \<Rightarrow> lan_lookup \<Rightarrow> u16 \<Rightarrow> rstr \<Rightarrow> rstr + node \<Rightarrow> sync_status" where
  "sync_status_of fmt addr_fmt lookup port name node =
     (case node of
        Inl reason \<Rightarrow> \<lparr>sy_unavailable = Some reason, sy_name = name, sy_address = None, sy_peers = []\<rparr>
      | Inr nd \<Rightarrow>
          \<lparr>sy_unavailable = None, sy_name = name,
           sy_address = map_option addr_fmt (lan_address lookup port),
           sy_peers = map (\<lambda>p. (device_id_fmt fmt (pst_id p), pst_name p, pst_online p)) (peer_statuses nd)\<rparr>)"

definition cmd_start_pairing ::
  "(lan_error \<Rightarrow> rstr) \<Rightarrow> node_env \<Rightarrow> rstr + node \<Rightarrow> (rstr + rstr) \<times> (rstr + node) \<times> node_effect list" where
  "cmd_start_pairing msg env node =
     (case node of
        Inl reason \<Rightarrow> (Err reason, node, [])
      | Inr nd \<Rightarrow>
          (let (r, nd, effects) = start_pairing env nd
           in (case r of Inl e \<Rightarrow> Err (msg e) | Inr code \<Rightarrow> Ok (code_fmt code), Ok nd, effects)))"

definition cmd_cancel_pairing :: "rstr + node \<Rightarrow> (rstr + unit) \<times> (rstr + node) \<times> node_effect list" where
  "cmd_cancel_pairing node =
     (case node of
        Inl reason \<Rightarrow> (Err reason, node, [])
      | Inr nd \<Rightarrow> (let (nd, effects) = end_pairing nd in (Ok (), Ok nd, effects)))"

definition cmd_pairable_devices ::
  "(128 word \<Rightarrow> rstr) \<Rightarrow> (socket_addr \<Rightarrow> rstr) \<Rightarrow> (u32 \<times> u32) list \<Rightarrow> found_map option \<Rightarrow> rstr + node
   \<Rightarrow> rstr + (rstr \<times> rstr \<times> rstr) list" where
  "cmd_pairable_devices fmt addr_text nets discovery node =
     (case node of
        Inl reason \<Rightarrow> Err reason
      | Inr nd \<Rightarrow>
          Ok (map (\<lambda>d. (device_id_fmt fmt (pd_device d), pd_name d, addr_text (pd_address d)))
                (pairable_devices nets discovery nd)))"

definition cmd_pair_with ::
  "(lan_error \<Rightarrow> rstr) \<Rightarrow> (rstr \<Rightarrow> socket_addr option) \<Rightarrow> node_lib \<Rightarrow> node_env \<Rightarrow> (socket_addr \<Rightarrow> 's lan_result)
   \<Rightarrow> 's pairing_stream \<Rightarrow> rstr \<Rightarrow> rstr \<Rightarrow> rstr + node \<Rightarrow> (rstr + rstr) \<times> (rstr + node) \<times> node_effect list" where
  "cmd_pair_with msg parse_addr lib env connect over address code node =
     (case parse_addr (trim address) of
        None \<Rightarrow> (Err (str_lit ''Enter the address as IP:port, e.g. 192.168.1.20:43117''), node, [])
      | Some a \<Rightarrow>
          (case node of
             Inl reason \<Rightarrow> (Err reason, node, [])
           | Inr nd \<Rightarrow>
               (let (r, nd, effects) = pair_with lib env connect over a code nd
                in (case r of Inl e \<Rightarrow> Err (msg e) | Inr peer \<Rightarrow> Ok (pst_name peer), Ok nd, effects))))"

definition cmd_remove_peer ::
  "(lan_error \<Rightarrow> rstr) \<Rightarrow> (rstr \<Rightarrow> 128 word option) \<Rightarrow> node_lib \<Rightarrow> node_env \<Rightarrow> rstr \<Rightarrow> rstr + node
   \<Rightarrow> (rstr + unit) \<times> (rstr + node) \<times> node_effect list" where
  "cmd_remove_peer msg uuid_parse lib env id_text node =
     (case device_id_from_str uuid_parse id_text of
        None \<Rightarrow> (Err (str_lit ''unknown device''), node, [])
      | Some d \<Rightarrow>
          (case node of
             Inl reason \<Rightarrow> (Err reason, node, [])
           | Inr nd \<Rightarrow>
               (let (r, nd, effects) = remove_peer lib env d nd
                in (case r of Inl e \<Rightarrow> Err (msg e) | Inr u \<Rightarrow> Ok u, Ok nd, effects))))"

section \<open>Properties\<close>


text \<open>What the commands of the sign-in tell the relay connection.\<close>

fun tell_relay :: "url_lib \<Rightarrow> session_env \<Rightarrow> relay_task \<Rightarrow> auth_effect list \<Rightarrow> relay_task" where
  "tell_relay lib env t [] = t"
| "tell_relay lib env t (RelaySignedIn b # es) = tell_relay lib env (relay_after lib t (env, TkSignedIn b)) es"
| "tell_relay lib env t (e # es) = tell_relay lib env t es"

lemma relay_after_signed_out:
  fixes lib env t
  assumes "relay_inv lib t" "rc_desired (rt_control t) \<in> {DesiredOff, DesiredSignIn}"
  defines "t' \<equiv> relay_after lib t (env, TkNotice)"
  shows "(\<exists>d kind. rt_phase t' = TaskIdle d kind) \<and> rc_desired (rt_control t') = rc_desired (rt_control t)"
  using assms
  by (auto simp: t'_def relay_after_def relay_inv_def Let_def task_resume_def task_loop_def task_report_def
      case_prod_beta split: task_phase.splits)

lemma relay_inv_idle:
  assumes "relay_inv lib t" "rt_phase t = TaskIdle d kind"
  shows "rr_status (rt_reporter t) \<notin> {RelayConnecting, RelayConnected} \<and> rr_join (rt_reporter t) = join_default"
  using assms by (auto simp: relay_inv_def Let_def split: option.splits)

text \<open>
  C29: Signing out disconnects: whatever the relay connection was doing when the user signs out, once it
  notices there is no connection any more, it does not try again, and nothing is left to join.
\<close>

theorem signing_out_disconnects:
  fixes lib env t st removed
  assumes "relay_inv lib t"
  defines "t' \<equiv> relay_after lib (tell_relay lib env t (snd (sign_out removed st))) (env, TkNotice)"
  shows "(\<exists>d kind. rt_phase t' = TaskIdle d kind) \<and> rr_status (rt_reporter t') \<notin> {RelayConnecting, RelayConnected}
    \<and> rr_join (rt_reporter t') = join_default
    \<and> rc_desired (rt_control t') \<in> {DesiredOff, DesiredSignIn}"
proof -
  let ?t = "relay_after lib t (env, TkSignedIn False)"
  have told: "tell_relay lib env t (snd (sign_out removed st)) = ?t"
    by (simp add: sign_out_def publish_def Let_def split: option.split)
  have inv: "relay_inv lib ?t" "relay_inv lib t'"
    unfolding t'_def told by (intro relay.invar_step assms(1))+
  have "rc_desired (rt_control ?t) \<in> {DesiredOff, DesiredSignIn}"
    by (simp add: relay_after_def set_signed_in_def control_update_def desired_from_inputs_def Let_def)
  with relay_after_signed_out [OF inv(1), of env] have
    "\<exists>d kind. rt_phase t' = TaskIdle d kind" "rc_desired (rt_control t') \<in> {DesiredOff, DesiredSignIn}"
    unfolding t'_def told by auto
  with relay_inv_idle [OF inv(2)] show ?thesis by blast
qed


section \<open>Witnesses\<close>

definition example_app :: app_lib where
  "example_app =
     \<lparr>al_node = \<lparr>nl_uuid_fmt = bits_fmt, nl_postcard = (\<lambda>_. Err LanStopped), nl_postcard_from = (\<lambda>_. None),
                 nl_png_read = (\<lambda>_. None)\<rparr>,
      al_blake3 = id, al_png_write = (\<lambda>_ _ _. None), al_preview = (\<lambda>_. None)\<rparr>"

definition example_item :: clipboard_item where
  "example_item = item_new id (ItemId 7) 5 (DeviceId 2) (Text [65])"


theorem signing_out_disconnects_witness:
  "\<exists>d kind. rt_phase (relay_after example_urls
     (tell_relay example_urls example_senv (fst (relay_start example_urls example_relay_settings True))
        (snd (sign_out True (auth_load True (Some example_session))))) (example_senv, TkNotice)) = TaskIdle d kind"
  using signing_out_disconnects [OF relay_inv_start] by blast


end
