(* ===== verification/Watchers.thy ===== *)
theory Watchers
  imports Clipboard_Service
begin

text \<open>
  \<open>crates/cled-clipboard/src/platform/\<close>: the threads that wait for the platform to announce a new
  clipboard owner (\<open>linux/x11.rs\<close>, \<open>linux/wayland.rs\<close>, \<open>windows.rs\<close>), and the X11 query for the formats
  on offer. What the window system delivers is data; the answer of \<open>notify\<close> says whether the
  clipboard thread still listens.
\<close>

section \<open>Watcher threads\<close>

text \<open>
  A watcher thread: how often it has called \<open>notify\<close>, and whether its loop still runs. Each event
  comes with what \<open>notify\<close> answers if it is called: \<open>False\<close> once the clipboard thread is gone.
\<close>

record watch =
  w_notified :: nat
  w_running :: bool

definition watch_started :: watch where
  "watch_started = \<lparr>w_notified = 0, w_running = True\<rparr>"

text \<open>X11: an event, or the connection failed.\<close>

datatype x11_event = XfixesSelectionNotify | ClientMessage bool | OtherX11Event | X11Failed

fun x11_watch :: "watch \<Rightarrow> x11_event \<times> bool \<Rightarrow> watch" where
  "x11_watch w (e, alive) =
     (if \<not> w_running w then w
      else case e of
        XfixesSelectionNotify \<Rightarrow> \<lparr>w_notified = Suc (w_notified w), w_running = alive\<rparr>
      | ClientMessage is_stop \<Rightarrow> if is_stop then w\<lparr>w_running := False\<rparr> else w
      | OtherX11Event \<Rightarrow> w
      | X11Failed \<Rightarrow> w\<lparr>w_running := False\<rparr>)"

text \<open>
  Wayland: the loop looks at its stop flag, then one dispatch hands over several events of the
  data-control device. A refused notification sets the flag, and so does dropping the watcher.
\<close>

datatype wayland_event = WlSelection | WlPrimarySelection | WlFinished | WlOther

definition selection_changed :: "bool \<Rightarrow> watch \<Rightarrow> watch" where
  "selection_changed alive w =
     (let w = w\<lparr>w_notified := Suc (w_notified w)\<rparr> in if \<not> alive then w\<lparr>w_running := False\<rparr> else w)"

fun wayland_device_event :: "watch \<Rightarrow> wayland_event \<times> bool \<Rightarrow> watch" where
  "wayland_device_event w (WlSelection, alive) = selection_changed alive w"
| "wayland_device_event w (WlPrimarySelection, alive) = w"
| "wayland_device_event w (WlFinished, alive) = w"
| "wayland_device_event w (WlOther, alive) = w"

datatype wayland_dispatch = Dispatched "(wayland_event \<times> bool) list" | DispatchFailed | StopAndWake

fun wayland_watch :: "watch \<Rightarrow> wayland_dispatch \<Rightarrow> watch" where
  "wayland_watch w d =
     (if \<not> w_running w then w
      else case d of
        Dispatched es \<Rightarrow> foldl wayland_device_event w es
      | DispatchFailed \<Rightarrow> w\<lparr>w_running := False\<rparr>
      | StopAndWake \<Rightarrow> w\<lparr>w_running := False\<rparr>)"

text \<open>Starting on Wayland: the data-control manager to use, and whether there is a seat.\<close>

datatype wayland_manager = ManagerExt | ManagerWlr

definition wayland_start :: "bool \<Rightarrow> rstr + unit \<Rightarrow> nat \<Rightarrow> rstr + unit \<Rightarrow> rstr + wayland_manager" where
  "wayland_start ext wlr seats roundtrip =
     (case (if ext then Ok ManagerExt else case wlr of Inl e \<Rightarrow> Err e | Inr _ \<Rightarrow> Ok ManagerWlr) of
        Inl e \<Rightarrow> Err e
      | Inr manager \<Rightarrow>
          if seats = 0 then Err (str_lit ''no Wayland seats'')
          else case roundtrip of Inl e \<Rightarrow> Err e | Inr _ \<Rightarrow> Ok manager)"

text \<open>Windows: \<open>recv\<close> gives \<open>Ok(true)\<close> for an update; anything else ends the loop.\<close>

fun windows_watch :: "watch \<Rightarrow> (rstr + bool) \<times> bool \<Rightarrow> watch" where
  "windows_watch w (r, alive) =
     (if \<not> w_running w then w
      else if r = Ok True then \<lparr>w_notified = Suc (w_notified w), w_running = alive\<rparr>
      else w\<lparr>w_running := False\<rparr>)"

text \<open>
  Dropping a watcher: X11 sends the thread a message of its own, Wayland sets the flag and wakes the
  thread with a \<open>sync\<close>, and on Windows \<open>recv\<close> gives \<open>Ok(false)\<close> once the \<open>Shutdown\<close> is dropped.
  Each then waits for the thread.
\<close>

definition x11_drop :: "watch \<Rightarrow> watch" where
  "x11_drop w = x11_watch w (ClientMessage True, True)"

definition wayland_drop :: "watch \<Rightarrow> watch" where
  "wayland_drop w = wayland_watch w StopAndWake"

definition listener_drop :: "watch \<Rightarrow> watch" where
  "listener_drop w = windows_watch w (Ok False, True)"

definition listener_start :: "rstr + unit \<Rightarrow> (rstr + unit) option \<Rightarrow> rstr + unit" where
  "listener_start spawned first_message =
     (case spawned of
        Inl e \<Rightarrow> Err e
      | Inr _ \<Rightarrow> (case first_message of
                    None \<Rightarrow> Err (str_lit ''listener thread exited'')
                  | Some r \<Rightarrow> r))"

text \<open>Whether change notifications are in use: \<open>None\<close> means polling.\<close>

definition native_watch :: "clipboard_backend \<Rightarrow> rstr + unit \<Rightarrow> bool" where
  "native_watch backend started = (case backend of MacOs \<Rightarrow> False | _ \<Rightarrow> \<not> isl started)"

section \<open>The formats on offer under X11\<close>

definition reply_timeout :: nat where "reply_timeout = millis 250"
definition poll_pause :: nat where "poll_pause = millis 2"

text \<open>
  One poll: a failure, an answer to a request for the selection (no property: no owner, or it
  refused; otherwise what reading the property gives), something else, or nothing yet, in which case
  the clock is looked at. Atoms are numbers.
\<close>

datatype x11_poll =
    PollFailed rstr
  | PollSelection bool "(rstr + u32 list) option"
  | PollOther
  | PollNothing nat

definition x11_error :: "rstr \<Rightarrow> clipboard_error" where
  "x11_error e = OtherError (str_lit ''X11: '' @ e)"

text \<open>\<open>None\<close>: the polls given do not suffice.\<close>

fun await_targets :: "nat \<Rightarrow> x11_poll list \<Rightarrow> (clipboard_error + u32 list) option" where
  "await_targets deadline [] = None"
| "await_targets deadline (p # ps) =
     (case p of
        PollFailed e \<Rightarrow> Some (Err (x11_error e))
      | PollSelection is_mine answer \<Rightarrow>
          if is_mine
          then Some (case answer of
                       None \<Rightarrow> Ok []
                     | Some (Inl e) \<Rightarrow> Err (x11_error e)
                     | Some (Inr atoms) \<Rightarrow> Ok atoms)
          else await_targets deadline ps
      | PollOther \<Rightarrow> await_targets deadline ps
      | PollNothing now \<Rightarrow> if deadline \<le> now then Some (Err Busy) else await_targets deadline ps)"

definition x11_targets :: "rstr option \<Rightarrow> nat \<Rightarrow> x11_poll list \<Rightarrow> (clipboard_error + u32 list) option" where
  "x11_targets unsent now polls =
     (case unsent of
        Some e \<Rightarrow> Some (Err (x11_error e))
      | None \<Rightarrow> await_targets (now + reply_timeout) polls)"

definition x11_has_private_marker ::
  "u32 \<Rightarrow> rstr option \<Rightarrow> nat \<Rightarrow> x11_poll list \<Rightarrow> (clipboard_error + bool) option" where
  "x11_has_private_marker marker unsent now polls =
     map_option (\<lambda>r. case r of Inl e \<Rightarrow> Err e | Inr atoms \<Rightarrow> Ok (marker \<in> set atoms)) (x11_targets unsent now polls)"

section \<open>What every watcher promises\<close>

text \<open>
  The contract of a watcher loop: while it runs it has called \<open>notify\<close> once for each change
  announced (\<open>announced\<close>), and once it has ended it does nothing any more. \<open>refused\<close> are the events
  in which \<open>notify\<close> said that nobody listens: they end the loop.
\<close>

locale watch_loop =
  fixes loop :: "watch \<Rightarrow> 'e \<Rightarrow> watch"
    and announced :: "'e \<Rightarrow> nat"
    and refused :: "'e \<Rightarrow> bool"
  assumes ended: "\<not> w_running w \<Longrightarrow> loop w e = w"
    and forwards: "w_running (loop w e) \<Longrightarrow> w_notified (loop w e) = w_notified w + announced e"
    and at_most: "w_notified (loop w e) \<le> w_notified w + announced e"
    and stops: "w_running w \<Longrightarrow> refused e \<Longrightarrow> \<not> w_running (loop w e)"
begin

lemma ended_run: "\<not> w_running w \<Longrightarrow> foldl loop w es = w"
  by (induction es arbitrary: w) (simp_all add: ended)

lemma running_before: "w_running (foldl loop w es) \<Longrightarrow> w_running w"
  using ended_run by fastforce

lemma forwards_run:
  "w_running (foldl loop w es) \<Longrightarrow>
   w_notified (foldl loop w es) = w_notified w + sum_list (map announced es)"
proof (induction es arbitrary: w)
  case (Cons e es)
  then have "w_running (loop w e)"
    using running_before [of "loop w e" es] by simp
  with Cons forwards [of w e] show ?case by simp
qed simp

lemma at_most_run: "w_notified (foldl loop w es) \<le> w_notified w + sum_list (map announced es)"
proof (induction es arbitrary: w)
  case (Cons e es)
  from Cons.IH [of "loop w e"] at_most [of w e] show ?case by simp
qed simp

lemma refused_ends_run:
  assumes "w_running w" and "refused e"
  shows "foldl loop w (e # es) = loop w e"
  using assms by (simp add: stops ended_run)

lemma refused_stays:
  assumes "refused e"
  shows "\<not> w_running (foldl loop w (es @ e # fs))"
proof (cases "w_running (foldl loop w es)")
  case True
  with assms have "\<not> w_running (loop (foldl loop w es) e)"
    by (rule stops [rotated])
  then show ?thesis
    using ended_run by simp
next
  case False
  then show ?thesis
    using ended_run [of "foldl loop w es" "e # fs"] by simp
qed

end

fun x11_announced :: "x11_event \<times> bool \<Rightarrow> nat" where
  "x11_announced (e, alive) = (if e = XfixesSelectionNotify then 1 else 0)"

fun x11_refused :: "x11_event \<times> bool \<Rightarrow> bool" where
  "x11_refused (e, alive) \<longleftrightarrow> e = XfixesSelectionNotify \<and> \<not> alive \<or> e = ClientMessage True \<or> e = X11Failed"

fun wayland_announced :: "wayland_dispatch \<Rightarrow> nat" where
  "wayland_announced (Dispatched es) = length (filter (\<lambda>(e, alive). e = WlSelection) es)"
| "wayland_announced _ = 0"

fun wayland_refused :: "wayland_dispatch \<Rightarrow> bool" where
  "wayland_refused (Dispatched es) \<longleftrightarrow> (WlSelection, False) \<in> set es"
| "wayland_refused _ \<longleftrightarrow> True"

fun windows_announced :: "(rstr + bool) \<times> bool \<Rightarrow> nat" where
  "windows_announced (r, alive) = (if r = Ok True then 1 else 0)"

fun windows_refused :: "(rstr + bool) \<times> bool \<Rightarrow> bool" where
  "windows_refused (r, alive) \<longleftrightarrow> r \<noteq> Ok True \<or> \<not> alive"

interpretation x11: watch_loop x11_watch x11_announced x11_refused
proof
  fix w e
  show "\<not> w_running w \<Longrightarrow> x11_watch w e = w"
    and "w_running (x11_watch w e) \<Longrightarrow> w_notified (x11_watch w e) = w_notified w + x11_announced e"
    and "w_notified (x11_watch w e) \<le> w_notified w + x11_announced e"
    and "w_running w \<Longrightarrow> x11_refused e \<Longrightarrow> \<not> w_running (x11_watch w e)"
    by (cases e; auto split: x11_event.splits if_splits)+
qed

interpretation windows: watch_loop windows_watch windows_announced windows_refused
proof
  fix w e
  show "\<not> w_running w \<Longrightarrow> windows_watch w e = w"
    and "w_running (windows_watch w e) \<Longrightarrow>
      w_notified (windows_watch w e) = w_notified w + windows_announced e"
    and "w_notified (windows_watch w e) \<le> w_notified w + windows_announced e"
    and "w_running w \<Longrightarrow> windows_refused e \<Longrightarrow> \<not> w_running (windows_watch w e)"
    by (cases e; auto)+
qed

text \<open>One dispatch notifies for each of its selection events, also after a refusal.\<close>

lemma wayland_device_event_eq:
  "wayland_device_event w (e, alive) =
     (if e = WlSelection
      then \<lparr>w_notified = Suc (w_notified w), w_running = w_running w \<and> alive\<rparr> else w)"
  by (cases e; cases w) (simp_all add: selection_changed_def Let_def)

lemma wayland_dispatched:
  "foldl wayland_device_event w es =
     \<lparr>w_notified = w_notified w + wayland_announced (Dispatched es),
      w_running = w_running w \<and> \<not> wayland_refused (Dispatched es)\<rparr>"
proof (induction es arbitrary: w)
  case (Cons x es)
  obtain e alive where x: "x = (e, alive)" by (cases x)
  show ?case
    unfolding x foldl_Cons wayland_device_event_eq Cons.IH by auto
qed simp

interpretation wayland: watch_loop wayland_watch wayland_announced wayland_refused
proof
  fix w e
  show "\<not> w_running w \<Longrightarrow> wayland_watch w e = w"
    and "w_running (wayland_watch w e) \<Longrightarrow>
      w_notified (wayland_watch w e) = w_notified w + wayland_announced e"
    and "w_notified (wayland_watch w e) \<le> w_notified w + wayland_announced e"
    and "w_running w \<Longrightarrow> wayland_refused e \<Longrightarrow> \<not> w_running (wayland_watch w e)"
    by (cases e; cases "w_running w"; simp add: wayland_dispatched)+
qed

text \<open>Dropping a watcher ends its thread, so waiting for it returns.\<close>

lemma dropped_watchers_end:
  "\<not> w_running (x11_drop w)" "\<not> w_running (wayland_drop w)" "\<not> w_running (listener_drop w)"
  by (simp_all add: x11_drop_def wayland_drop_def listener_drop_def)

section \<open>Asking for the formats\<close>

text \<open>
  Each look at the clock that found nothing is followed by a pause of at least \<open>poll_pause\<close>, so the
  clock readings of the polls given are that far apart.
\<close>

fun poll_times :: "x11_poll list \<Rightarrow> nat list" where
  "poll_times [] = []"
| "poll_times (PollNothing now # ps) = now # poll_times ps"
| "poll_times (_ # ps) = poll_times ps"

fun paced :: "nat \<Rightarrow> nat list \<Rightarrow> bool" where
  "paced start [] \<longleftrightarrow> True"
| "paced start (t # ts) \<longleftrightarrow> start \<le> t \<and> paced (t + poll_pause) ts"

lemma paced_late: "paced start ts \<Longrightarrow> i < length ts \<Longrightarrow> start + i * poll_pause \<le> ts ! i"
proof (induction ts arbitrary: start i)
  case (Cons t ts)
  then show ?case
    by (cases i) (fastforce simp: algebra_simps)+
qed simp

lemma await_targets_times:
  "await_targets deadline ps = None \<Longrightarrow> \<forall>t\<in>set (poll_times ps). t < deadline"
  by (induction ps rule: poll_times.induct) (auto split: if_splits)

lemma await_targets_Busy_late:
  "await_targets deadline ps = Some (Err Busy) \<Longrightarrow> \<exists>t\<in>set (poll_times ps). deadline \<le> t"
  by (induction ps rule: poll_times.induct)
    (auto simp: x11_error_def split: if_splits option.splits sum.splits)

lemma await_targets_append:
  "await_targets deadline ps \<noteq> None \<Longrightarrow> await_targets deadline (ps @ qs) = await_targets deadline ps"
  by (induction ps) (auto split: x11_poll.splits if_splits)

text \<open>
  C36: Asking the owner of an X11 selection for its formats cannot hang the clipboard thread: once
  the connection had nothing to deliver 126 times the call has returned, whatever else arrived in
  between; and it gives up with \<open>Busy\<close> only after the full 250 ms.
\<close>

theorem targets_query_ends:
  assumes "paced now (poll_times polls)" and "126 \<le> length (poll_times polls)"
  shows "x11_targets unsent now polls \<noteq> None \<and>
     (x11_targets unsent now polls = Some (Err Busy) \<longrightarrow>
        (\<exists>t\<in>set (poll_times polls). now + reply_timeout \<le> t))"
proof -
  have "now + 125 * poll_pause \<le> poll_times polls ! 125"
    using paced_late [OF assms(1), of 125] assms(2) by simp
  moreover have "125 * poll_pause = reply_timeout"
    by (simp add: poll_pause_def reply_timeout_def millis_def)
  moreover have "poll_times polls ! 125 \<in> set (poll_times polls)"
    using assms(2) by simp
  ultimately have "await_targets (now + reply_timeout) polls \<noteq> None"
    using await_targets_times [of "now + reply_timeout" polls] by force
  then show ?thesis
    using await_targets_Busy_late [of "now + reply_timeout" polls]
    by (auto simp: x11_targets_def x11_error_def split: option.splits)
qed

lemma poll_times_map: "poll_times (map PollNothing ts) = ts"
  by (induction ts) simp_all

lemma paced_map: "paced start (map (\<lambda>i. start + i * poll_pause) [0..<n])"
proof -
  have "paced (start + m * poll_pause) (map (\<lambda>i. start + i * poll_pause) [m..<m + n])" for m
  proof (induction n arbitrary: m)
    case (Suc n)
    have "[m..<m + Suc n] = m # [Suc m..<Suc m + n]"
      by (simp add: upt_conv_Cons)
    with Suc.IH [of "Suc m"] show ?case
      by (simp add: algebra_simps)
  qed simp
  from this [of 0] show ?thesis by simp
qed

theorem targets_query_ends_witness:
  "x11_targets None 0 (map (\<lambda>i. PollNothing (i * poll_pause)) [0..<126]) \<noteq> None"
  using targets_query_ends [of 0 "map PollNothing (map (\<lambda>i. 0 + i * poll_pause) [0..<126])" None]
    paced_map [of 0 126]
  unfolding poll_times_map by (simp add: o_def)

text \<open>
  A request that timed out leaves its answer to come. The next request takes it for its own: the
  formats of the earlier content decide whether the new content counts as private.
\<close>

theorem late_answer_hides_the_marker:
  assumes "marker \<notin> set stale"
  shows "x11_has_private_marker marker None now
           (PollSelection True (Some (Ok stale)) # PollSelection True (Some (Ok current)) # polls)
         = Some (Ok False)"
  using assms by (simp add: x11_has_private_marker_def x11_targets_def)

theorem late_answer_hides_the_marker_witness:
  "x11_has_private_marker 7 None 0
     [PollSelection True (Some (Ok [1, 2])), PollSelection True (Some (Ok [1, 7]))] = Some (Ok False)"
  using late_answer_hides_the_marker [of 7 "[1, 2]" 0 "[1, 7]" "[]"] by simp

text \<open>
  As long as a watcher thread runs, the clipboard thread has been told of every change the
  window system announced, once each and never more, on X11, Wayland and Windows alike; a
  notification that is refused, a request to stop and a failure end the thread for good.
\<close>

theorem watchers_forward_every_change:
  "(w_running (foldl x11_watch w xs) \<longrightarrow>
      w_notified (foldl x11_watch w xs) = w_notified w + sum_list (map x11_announced xs)) \<and>
   (w_running (foldl wayland_watch w ls) \<longrightarrow>
      w_notified (foldl wayland_watch w ls) = w_notified w + sum_list (map wayland_announced ls)) \<and>
   (w_running (foldl windows_watch w ws) \<longrightarrow>
      w_notified (foldl windows_watch w ws) = w_notified w + sum_list (map windows_announced ws)) \<and>
   (x11_refused x \<longrightarrow> \<not> w_running (foldl x11_watch w (xs @ x # xs'))) \<and>
   (wayland_refused l \<longrightarrow> \<not> w_running (foldl wayland_watch w (ls @ l # ls'))) \<and>
   (windows_refused u \<longrightarrow> \<not> w_running (foldl windows_watch w (ws @ u # ws')))"
  by (intro conjI impI x11.forwards_run wayland.forwards_run windows.forwards_run
      x11.refused_stays wayland.refused_stays windows.refused_stays)

theorem watchers_forward_every_change_witness:
  "w_notified (foldl x11_watch watch_started [(XfixesSelectionNotify, True), (OtherX11Event, True)]) = 1 \<and>
   \<not> w_running (foldl wayland_watch watch_started [Dispatched [(WlSelection, False)]]) \<and>
   w_notified (foldl windows_watch watch_started [(Ok True, True), (Ok True, True)]) = 2"
  using watchers_forward_every_change
      [of watch_started "[(XfixesSelectionNotify, True), (OtherX11Event, True)]" "[]"
        "[(Ok True, True), (Ok True, True)]" undefined undefined "Dispatched [(WlSelection, False)]" "[]"]
  by (simp add: watch_started_def)

end
