(* ===== verification/Clipboard_Threads.thy ===== *)
theory Clipboard_Threads
  imports Watchers
begin

text \<open>
  \<open>crates/cled-clipboard/src/service.rs\<close> as the concurrent system it is: callers of a
  \<open>ClipboardService\<close> (\<open>read\<close>, \<open>write\<close>, \<open>keep_content_after_exit\<close>), the watcher's \<open>notify\<close>, the
  clipboard thread of \<open>Clipboard_Service\<close> and the other applications, which act in any order. They
  meet in the request channel, the queue of the state below. Replies carry the number of the call
  they answer: each call makes a reply channel of its own.
\<close>

section \<open>The handle and the channel\<close>

record clip_sys =
  cs_queue :: "(service_event \<times> nat option) list"
  cs_service :: "service option"
  cs_receiver :: bool
  cs_handle :: bool
  cs_watching :: bool
  cs_announced :: nat
  cs_now :: nat
  cs_calls :: "service_event list"
  cs_replies :: "(nat \<times> service_out) list"
  cs_changes :: "snapshot list"
  cs_unchecked :: bool

text \<open>\<open>send\<close>: fails once the receiver is gone.\<close>

definition service_send ::
  "service_event \<times> nat option \<Rightarrow> clip_sys \<Rightarrow> clipboard_error + clip_sys" where
  "service_send r c =
     (if cs_receiver c then Ok (c\<lparr>cs_queue := cs_queue c @ [r]\<rparr>) else Err ServiceStopped)"

text \<open>What \<open>read\<close>, \<open>write\<close> and \<open>keep_content_after_exit\<close> return when the service has stopped.\<close>

fun stopped_reply :: "service_event \<Rightarrow> service_out" where
  "stopped_reply EvRead = ReplyRead (Err ServiceStopped)"
| "stopped_reply (EvWrite content) = ReplyWrite (Err ServiceStopped)"
| "stopped_reply _ = ReplyKeep (Err ServiceStopped)"

fun is_call :: "service_event \<Rightarrow> bool" where
  "is_call EvRead \<longleftrightarrow> True"
| "is_call (EvWrite content) \<longleftrightarrow> True"
| "is_call EvKeepAfterExit \<longleftrightarrow> True"
| "is_call _ \<longleftrightarrow> False"

text \<open>A method of the handle: make a reply channel, send the request, wait for the reply.\<close>

definition service_call :: "service_event \<Rightarrow> clip_sys \<Rightarrow> clip_sys" where
  "service_call r c =
     (let n = length (cs_calls c);
          c = c\<lparr>cs_calls := cs_calls c @ [r]\<rparr>
      in case service_send (r, Some n) c of
           Inl e \<Rightarrow> c\<lparr>cs_replies := cs_replies c @ [(n, stopped_reply r)]\<rparr>
         | Inr c \<Rightarrow> c)"

text \<open>\<open>notify\<close>: the watcher ends when the request cannot be sent.\<close>

definition service_notify :: "clip_sys \<Rightarrow> clip_sys" where
  "service_notify c =
     (case service_send (EvChanged, None) c of
        Inl _ \<Rightarrow> c\<lparr>cs_watching := False\<rparr>
      | Inr c \<Rightarrow> c\<lparr>cs_announced := cs_announced c - 1\<rparr>)"

text \<open>Dropping the handle asks the thread to stop and waits for it.\<close>

definition service_drop :: "clip_sys \<Rightarrow> clip_sys" where
  "service_drop c =
     (case service_send (EvStop, None) c of
        Inl _ \<Rightarrow> c\<lparr>cs_handle := False\<rparr>
      | Inr c \<Rightarrow> c\<lparr>cs_handle := False\<rparr>)"

text \<open>
  One turn of the loop on a request or a timeout; \<open>None\<close> is the loop's end. The caller's reply and
  the change callback are what \<open>service_step\<close> gives.
\<close>

fun answers_of :: "nat option \<Rightarrow> service_out list \<Rightarrow> (nat \<times> service_out) list" where
  "answers_of (Some n) (out # outs) = [(n, out)]"
| "answers_of _ _ = []"

definition service_turn ::
  "bool \<Rightarrow> (hash_write list \<Rightarrow> u64) \<Rightarrow> (arboard_error \<Rightarrow> rstr) \<Rightarrow> service \<Rightarrow>
   service_event \<times> nat option \<Rightarrow> service_env \<Rightarrow> clip_sys \<Rightarrow> clip_sys" where
  "service_turn dies hasher msg s r env c =
     (let (s', out) = service_step dies hasher msg s (fst r, env)
      in c\<lparr>cs_service := s',
           cs_replies := cs_replies c @ answers_of (snd r) out,
           cs_changes := cs_changes c @ reported out,
           cs_unchecked := cs_unchecked c \<and> fst r \<noteq> EvTimeout\<rparr>)"

text \<open>
  The thread ends: the watcher is dropped, then the receiver. Requests still in the channel are
  dropped with their reply channels, which their callers notice.
\<close>

definition service_exit :: "clip_sys \<Rightarrow> clip_sys" where
  "service_exit c =
     c\<lparr>cs_receiver := False, cs_watching := False, cs_queue := [],
       cs_replies := cs_replies c
         @ concat (map (\<lambda>(r, n). answers_of n [stopped_reply r]) (cs_queue c))\<rparr>"

text \<open>\<open>spawn\<close>: the thread takes the baseline before it serves requests.\<close>

definition service_spawn ::
  "(hash_write list \<Rightarrow> u64) \<Rightarrow> (arboard_error \<Rightarrow> rstr) \<Rightarrow> os_answers \<Rightarrow> nat \<Rightarrow> bool \<Rightarrow> nat \<Rightarrow> clip_sys" where
  "service_spawn hasher msg os now watching poll_interval =
     \<lparr>cs_queue = [],
      cs_service = Some (service_init hasher msg os now (snd (spawn_interval watching poll_interval))),
      cs_receiver = True, cs_handle = True, cs_watching = watching, cs_announced = 0,
      cs_now = now, cs_calls = [], cs_replies = [], cs_changes = [], cs_unchecked = False\<rparr>"

section \<open>Steps\<close>

text \<open>
  One step of one of the parties. \<open>Dropping\<close> the handle needs exclusive ownership: no call is
  under way. A check takes place when the channel is empty and the schedule's time has come, which
  is when \<open>recv_timeout\<close> times out. What the platform answers during a turn is arbitrary, except
  that its text is text (a Rust \<open>String\<close>).
\<close>

definition text_is_text :: "os_answers \<Rightarrow> bool" where
  "text_is_text os \<longleftrightarrow> (case ans_text os of Inr s \<Rightarrow> valid_str s | Inl _ \<Rightarrow> True)"

inductive clip_step ::
  "bool \<Rightarrow> (hash_write list \<Rightarrow> u64) \<Rightarrow> (arboard_error \<Rightarrow> rstr) \<Rightarrow> clip_sys \<Rightarrow> clip_sys \<Rightarrow> bool"
  for dies hasher msg where
  Calling: "cs_handle c \<Longrightarrow> is_call r \<Longrightarrow> clip_step dies hasher msg c (service_call r c)"
| Dropping: "cs_handle c \<Longrightarrow> \<forall>r\<in>set (cs_queue c). snd r = None \<Longrightarrow>
    clip_step dies hasher msg c (service_drop c)"
| Copying: "clip_step dies hasher msg c
    (c\<lparr>cs_unchecked := True, cs_announced := cs_announced c + (if cs_watching c then 1 else 0)\<rparr>)"
| Notifying: "cs_watching c \<Longrightarrow> 0 < cs_announced c \<Longrightarrow> clip_step dies hasher msg c (service_notify c)"
| WatcherEnds: "clip_step dies hasher msg c (c\<lparr>cs_watching := False\<rparr>)"
| Serving: "cs_service c = Some s \<Longrightarrow> cs_queue c = r # rs \<Longrightarrow>
    env_now env = cs_now c \<Longrightarrow> text_is_text (env_os env) \<Longrightarrow>
    clip_step dies hasher msg c (service_turn dies hasher msg s r env (c\<lparr>cs_queue := rs\<rparr>))"
| Checking: "cs_service c = Some s \<Longrightarrow> cs_queue c = [] \<Longrightarrow> recv_timeout (cs_now c) (sv_schedule s) = 0 \<Longrightarrow>
    env_now env = cs_now c \<Longrightarrow> text_is_text (env_os env) \<Longrightarrow>
    clip_step dies hasher msg c (service_turn dies hasher msg s (EvTimeout, None) env c)"
| Exiting: "cs_service c = None \<Longrightarrow> cs_receiver c \<Longrightarrow> clip_step dies hasher msg c (service_exit c)"
| Waiting: "cs_now c \<le> t \<Longrightarrow> clip_step dies hasher msg c (c\<lparr>cs_now := t\<rparr>)"

inductive clip_reachable ::
  "bool \<Rightarrow> (hash_write list \<Rightarrow> u64) \<Rightarrow> (arboard_error \<Rightarrow> rstr) \<Rightarrow> bool \<Rightarrow> nat \<Rightarrow> clip_sys \<Rightarrow> bool"
  for dies hasher msg watching interval where
  Spawned: "text_is_text os \<Longrightarrow>
    clip_reachable dies hasher msg watching interval (service_spawn hasher msg os now watching interval)"
| Stepped: "clip_reachable dies hasher msg watching interval c \<Longrightarrow> clip_step dies hasher msg c c' \<Longrightarrow>
    clip_reachable dies hasher msg watching interval c'"

inductive_cases clip_stepE: "clip_step dies hasher msg c c'"

section \<open>What a turn of the loop gives\<close>

fun reply_for :: "service_event \<Rightarrow> service_out \<Rightarrow> bool" where
  "reply_for EvRead (ReplyRead r) \<longleftrightarrow> True"
| "reply_for (EvWrite content) (ReplyWrite r) \<longleftrightarrow> True"
| "reply_for EvKeepAfterExit (ReplyKeep r) \<longleftrightarrow> True"
| "reply_for _ _ \<longleftrightarrow> False"

text \<open>A reply of the thread itself: of the request's type, and not that it has stopped.\<close>

definition served :: "service_event \<Rightarrow> service_out \<Rightarrow> bool" where
  "served r out \<longleftrightarrow> reply_for r out \<and> out \<noteq> stopped_reply r"

fun good_out :: "service_out \<Rightarrow> bool" where
  "good_out (ReplyRead (Inr snap)) \<longleftrightarrow> valid_snapshot snap"
| "good_out (OnChange snap) \<longleftrightarrow> valid_snapshot snap \<and> snap \<noteq> Empty"
| "good_out _ \<longleftrightarrow> True"

lemma read_not_stopped: "clipboard_read msg os \<noteq> Err ServiceStopped"
  by (auto simp: clipboard_read_def read_text_def read_image_def not_available_as_none_def map_error_def
      split: sum.splits option.splits arboard_error.splits)

lemma write_not_stopped: "clipboard_write msg os content \<noteq> Err ServiceStopped"
  by (auto simp: clipboard_write_def map_error_def split: sum.splits arboard_error.splits)

lemma keep_not_stopped: "keep_after_exit dies msg os hold w \<noteq> Err ServiceStopped"
  using read_not_stopped [of msg os]
  by (auto simp: keep_after_exit_def split: sum.splits option.splits)

lemma step_call:
  assumes "is_call r"
  obtains s' out where "service_step dies hasher msg s (r, env) = (Some s', [out])"
    and "served r out" and "reported [out] = []" and "sv_schedule s' = sv_schedule s"
proof (cases r)
  case EvRead
  then show ?thesis
    using that read_not_stopped by (auto simp: served_def)
next
  case (EvWrite content)
  then show ?thesis
    using that write_not_stopped by (auto simp: served_def Let_def)
next
  case EvKeepAfterExit
  then show ?thesis
    using that keep_not_stopped by (auto simp: served_def)
qed (use assms in simp_all)

lemma read_valid:
  "text_is_text os \<Longrightarrow> clipboard_read msg os = Ok snap \<Longrightarrow> valid_snapshot snap"
  by (rule clipboard_read_valid) (auto simp: text_is_text_def)

lemma step_good:
  assumes "text_is_text (env_os env)"
  shows "\<forall>out\<in>set (snd (service_step dies hasher msg s (r, env))). good_out out"
proof (cases r)
  case EvRead
  then show ?thesis
    using read_valid [OF assms] by (cases "clipboard_read msg (env_os env)") auto
next
  case EvTimeout
  then show ?thesis
    using read_valid [OF assms, of msg]
    by (auto simp: service_check_def Let_def case_prod_beta observe_def
        split: sum.splits clipboard_error.splits if_splits snapshot.splits)
qed (simp_all add: Let_def)

lemma check_schedule:
  "sv_schedule (fst (service_check hasher msg env s)) = checked (env_now env) (sv_schedule s)"
  by (auto simp: service_check_def Let_def case_prod_beta split: sum.splits clipboard_error.splits)

lemma answers_of_simps [simp]:
  "answers_of None outs = []" "answers_of m [] = []" "answers_of (Some n) [out] = [(n, out)]"
  by (cases m; simp)+

section \<open>Invariants\<close>

text \<open>The calls still in the channel, oldest first.\<close>

definition waiting :: "clip_sys \<Rightarrow> nat list" where
  "waiting c = List.map_filter snd (cs_queue c)"

fun queued_ok :: "clip_sys \<Rightarrow> service_event \<times> nat option \<Rightarrow> bool" where
  "queued_ok c (r, Some n) \<longleftrightarrow> is_call r \<and> n < length (cs_calls c) \<and> cs_calls c ! n = r"
| "queued_ok c (r, None) \<longleftrightarrow> r = EvChanged \<or> r = EvStop \<and> \<not> cs_handle c"

definition calls_inv :: "clip_sys \<Rightarrow> bool" where
  "calls_inv c \<longleftrightarrow>
     map fst (cs_replies c) @ waiting c = [0..<length (cs_calls c)] \<and>
     (\<forall>(n, out)\<in>set (cs_replies c). n < length (cs_calls c) \<and> served (cs_calls c ! n) out) \<and>
     (\<forall>r\<in>set (cs_queue c). queued_ok c r)"

text \<open>The thread outlives its handle; without a handle nobody waits.\<close>

definition owner_inv :: "clip_sys \<Rightarrow> bool" where
  "owner_inv c \<longleftrightarrow>
     (cs_handle c \<longrightarrow> cs_receiver c \<and> cs_service c \<noteq> None) \<and>
     (\<not> cs_handle c \<longrightarrow> waiting c = []) \<and>
     (\<not> cs_receiver c \<longrightarrow> cs_service c = None)"

lemma map_filter_append [simp]:
  "List.map_filter f (xs @ ys) = List.map_filter f xs @ List.map_filter f ys"
  by (simp add: List.map_filter_def)

lemma waiting_append: "cs_queue c' = cs_queue c @ [(r, m)] \<Longrightarrow>
    waiting c' = waiting c @ (case m of None \<Rightarrow> [] | Some n \<Rightarrow> [n])"
  by (simp add: waiting_def map_filter_simps split: option.split)

lemma waiting_Nil_iff: "waiting c = [] \<longleftrightarrow> (\<forall>r\<in>set (cs_queue c). snd r = None)"
  by (auto simp: waiting_def List.map_filter_def filter_empty_conv)

lemma waiting_front:
  "cs_queue c = (r, m) # rs \<Longrightarrow>
   waiting c = (case m of None \<Rightarrow> [] | Some n \<Rightarrow> [n]) @ List.map_filter snd rs"
  by (simp add: waiting_def map_filter_simps split: option.split)

lemma queued_ok_cong:
  "cs_calls c' = cs_calls c \<Longrightarrow> cs_handle c' = cs_handle c \<Longrightarrow> queued_ok c' r = queued_ok c r"
  by (cases r; cases "snd r") (auto simp: queued_ok.simps)

lemma queued_ok_more:
  assumes "queued_ok c r" and "cs_calls c' = cs_calls c @ rs" and "cs_handle c' \<longrightarrow> cs_handle c"
  shows "queued_ok c' r"
  using assms by (cases "(c, r)" rule: queued_ok.cases) (auto simp: nth_append)

text \<open>What the thread does to the parts of the state the calls depend on.\<close>

lemma service_turn_fields [simp]:
  "cs_queue (service_turn dies hasher msg s r env c) = cs_queue c"
  "cs_calls (service_turn dies hasher msg s r env c) = cs_calls c"
  "cs_handle (service_turn dies hasher msg s r env c) = cs_handle c"
  "cs_receiver (service_turn dies hasher msg s r env c) = cs_receiver c"
  "cs_watching (service_turn dies hasher msg s r env c) = cs_watching c"
  "cs_announced (service_turn dies hasher msg s r env c) = cs_announced c"
  "cs_now (service_turn dies hasher msg s r env c) = cs_now c"
  "cs_unchecked (service_turn dies hasher msg s r env c) = (cs_unchecked c \<and> fst r \<noteq> EvTimeout)"
  "cs_service (service_turn dies hasher msg s r env c) = fst (service_step dies hasher msg s (fst r, env))"
  "cs_replies (service_turn dies hasher msg s r env c) =
     cs_replies c @ answers_of (snd r) (snd (service_step dies hasher msg s (fst r, env)))"
  "cs_changes (service_turn dies hasher msg s r env c) =
     cs_changes c @ reported (snd (service_step dies hasher msg s (fst r, env)))"
  by (simp_all add: service_turn_def case_prod_beta Let_def)

lemma calls_inv_serving:
  assumes inv: "calls_inv c" and q: "cs_queue c = r # rs"
  shows "calls_inv (service_turn dies hasher msg s r env (c\<lparr>cs_queue := rs\<rparr>))"
    (is "calls_inv ?c'")
proof (cases r)
  case (Pair e m)
  have ok: "queued_ok c (e, m)"
    using inv q Pair by (simp add: calls_inv_def)
  have rest: "\<forall>x\<in>set rs. queued_ok ?c' x"
    using inv q by (auto simp del: split_paired_All simp: calls_inv_def intro: queued_ok_cong [THEN iffD2])
  have old: "\<forall>(n, out)\<in>set (cs_replies c). n < length (cs_calls c) \<and> served (cs_calls c ! n) out"
    and order: "map fst (cs_replies c) @ waiting c = [0..<length (cs_calls c)]"
    using inv by (simp_all add: calls_inv_def)
  have left: "waiting ?c' = List.map_filter snd rs"
    by (simp add: waiting_def)
  show ?thesis
  proof (cases m)
    case None
    then show ?thesis
      using rest old order left waiting_front [of c e m rs] q Pair by (simp add: calls_inv_def)
  next
    case (Some n)
    with ok have "is_call e" and n: "n < length (cs_calls c)" "cs_calls c ! n = e" by simp_all
    from step_call [OF \<open>is_call e\<close>, of dies hasher msg s env] obtain s' out where
      "service_step dies hasher msg s (e, env) = (Some s', [out])" and "served e out" by metis
    then show ?thesis
      using rest old order left waiting_front [of c e m rs] q Pair Some n
      by (simp add: calls_inv_def)
  qed
qed

lemma calls_inv_same:
  assumes "calls_inv c" and "cs_queue c' = cs_queue c" and "cs_calls c' = cs_calls c"
    and "cs_replies c' = cs_replies c" and "cs_handle c' = cs_handle c"
  shows "calls_inv c'"
  using assms queued_ok_cong [of c' c] by (simp add: calls_inv_def waiting_def)

lemma calls_inv_sent:
  assumes "calls_inv c" and "cs_queue c' = cs_queue c @ [(r, None)]" and "cs_calls c' = cs_calls c"
    and "cs_replies c' = cs_replies c" and "cs_handle c' \<longrightarrow> cs_handle c" and "queued_ok c' (r, None)"
  shows "calls_inv c'"
  using assms queued_ok_more [of c _ c' "[]"] waiting_append [of c' c r None]
  by (auto simp: calls_inv_def simp del: queued_ok.simps)

lemma calls_inv_call:
  assumes "calls_inv c" and "cs_receiver c" and "is_call r"
  shows "calls_inv (service_call r c)"
  using assms queued_ok_more [of c _ "service_call r c" "[r]"]
    waiting_append [of "service_call r c" c r "Some (length (cs_calls c))"]
  by (auto simp: calls_inv_def service_call_def service_send_def Let_def nth_append)

definition sys_inv :: "clip_sys \<Rightarrow> bool" where
  "sys_inv c \<longleftrightarrow> calls_inv c \<and> owner_inv c"

lemma step_service_None:
  "fst (service_step dies hasher msg s (r, env)) = None \<longleftrightarrow> r = EvStop \<or> r = EvDisconnected"
  by (cases r) (auto simp: Let_def case_prod_beta)

lemma sys_inv_step:
  assumes "clip_step dies hasher msg c c'" and "sys_inv c"
  shows "sys_inv c'"
  using assms(1)
proof cases
  case (Calling r)
  with assms(2) have "cs_receiver c" by (simp add: sys_inv_def owner_inv_def)
  then have "calls_inv c'"
    using Calling assms(2) by (simp add: calls_inv_call sys_inv_def)
  then show ?thesis
    using Calling assms(2) \<open>cs_receiver c\<close>
    by (simp add: sys_inv_def owner_inv_def service_call_def service_send_def Let_def)
next
  case Dropping
  with assms(2) have "cs_receiver c" by (simp add: sys_inv_def owner_inv_def)
  then have "calls_inv c'"
    using Dropping assms(2)
    by (intro calls_inv_sent [of c c' EvStop]) (simp_all add: sys_inv_def service_drop_def service_send_def)
  moreover have "waiting c' = []"
    using Dropping \<open>cs_receiver c\<close> by (simp add: waiting_Nil_iff service_drop_def service_send_def)
  ultimately show ?thesis
    using Dropping \<open>cs_receiver c\<close> by (simp add: sys_inv_def owner_inv_def service_drop_def service_send_def)
next
  case Notifying
  show ?thesis
  proof (cases "cs_receiver c")
    case True
    with Notifying assms(2) have "calls_inv c'"
      by (intro calls_inv_sent [of c c' EvChanged])
        (simp_all add: sys_inv_def service_notify_def service_send_def)
    with Notifying True assms(2) waiting_append [of c' c EvChanged None] show ?thesis
      by (simp add: sys_inv_def owner_inv_def service_notify_def service_send_def)
  next
    case False
    with Notifying assms(2) calls_inv_same [of c c'] show ?thesis
      by (simp add: sys_inv_def owner_inv_def waiting_def service_notify_def service_send_def)
  qed
next
  case (Serving s r rs env)
  have "fst r = EvStop \<longrightarrow> \<not> cs_handle c" and "fst r \<noteq> EvDisconnected"
    using assms(2) Serving(3)
    by (cases r; cases "snd r"; auto simp: sys_inv_def calls_inv_def)+
  then have "cs_handle c \<longrightarrow> cs_service c' \<noteq> None"
    using Serving(1) step_service_None [of dies hasher msg s "fst r" env] by auto
  moreover have "waiting c = [] \<longrightarrow> waiting c' = []"
    using Serving(1,3) by (simp add: waiting_Nil_iff)
  ultimately show ?thesis
    using Serving assms(2) calls_inv_serving [of c r rs] by (auto simp: sys_inv_def owner_inv_def)
next
  case (Checking s env)
  have "cs_service c' \<noteq> None"
    using Checking(1) step_service_None [of dies hasher msg s EvTimeout env] by auto
  then show ?thesis
    using Checking assms(2) calls_inv_same [of c c'] by (auto simp: sys_inv_def owner_inv_def waiting_def)
next
  case Exiting
  with assms(2) have none: "\<forall>r\<in>set (cs_queue c). snd r = None" and "\<not> cs_handle c"
    by (auto simp: sys_inv_def owner_inv_def waiting_Nil_iff)
  then have "concat (map (\<lambda>(r, n). answers_of n [stopped_reply r]) (cs_queue c)) = []"
    by (auto simp: split_def)
  with Exiting assms(2) none \<open>\<not> cs_handle c\<close> show ?thesis
    by (simp add: sys_inv_def calls_inv_def owner_inv_def service_exit_def waiting_Nil_iff [symmetric])
      (auto simp: waiting_def map_filter_simps)
qed (use assms(2) calls_inv_same [of c c'] in \<open>simp_all add: sys_inv_def owner_inv_def waiting_def\<close>)

lemma sys_inv_spawn: "sys_inv (service_spawn hasher msg os now watching interval)"
  by (simp add: sys_inv_def calls_inv_def owner_inv_def service_spawn_def waiting_def map_filter_simps)

lemma sys_inv_reachable: "clip_reachable dies hasher msg watching interval c \<Longrightarrow> sys_inv c"
  by (induction rule: clip_reachable.induct) (auto intro: sys_inv_spawn sys_inv_step)

text \<open>
  The schedule is never further away than the interval, and a change that no check has looked at
  yet is on its way to one.
\<close>

definition on_its_way :: "clip_sys \<Rightarrow> bool" where
  "on_its_way c \<longleftrightarrow>
     0 < cs_announced c \<or> EvChanged \<in> fst ` set (cs_queue c) \<or>
     (\<forall>s. cs_service c = Some s \<longrightarrow> next_check (sv_schedule s) \<le> cs_now c + notify_debounce)"

definition schedule_inv :: "nat \<Rightarrow> clip_sys \<Rightarrow> bool" where
  "schedule_inv interval c \<longleftrightarrow>
     (\<forall>s. cs_service c = Some s \<longrightarrow>
        sch_interval (sv_schedule s) = interval \<and>
        next_check (sv_schedule s) \<le> cs_now c + interval) \<and>
     (cs_watching c \<and> cs_unchecked c \<longrightarrow> on_its_way c)"

lemma step_schedule:
  assumes "service_step dies hasher msg s (r, env) = (Some s', out)"
  shows "sv_schedule s' =
     (if r = EvChanged then notified (env_now env) (sv_schedule s)
      else if r = EvTimeout then checked (env_now env) (sv_schedule s)
      else sv_schedule s)"
  using assms check_schedule [of hasher msg env s]
  by (cases r) (auto simp: Let_def case_prod_beta)

lemma schedule_inv_turn:
  assumes inv: "schedule_inv interval c" and s: "cs_service c = Some s" and env: "env_now env = cs_now c"
    and q: "cs_queue c = r # rs \<or> r = (EvTimeout, None) \<and> cs_queue c = [] \<and> rs = []"
  shows "schedule_inv interval (service_turn dies hasher msg s r env (c\<lparr>cs_queue := rs\<rparr>))"
    (is "schedule_inv _ ?c'")
proof -
  have sched: "sch_interval (sv_schedule s) = interval" "next_check (sv_schedule s) \<le> cs_now c + interval"
    using inv s by (simp_all add: schedule_inv_def)
  have near: "next_check (sv_schedule s') \<le> cs_now c + notify_debounce"
    if "cs_service ?c' = Some s'" and "cs_watching c" "cs_unchecked c" "fst r \<noteq> EvTimeout"
      "cs_announced c = 0" "EvChanged \<notin> fst ` set rs" for s'
  proof -
    note running = that(1)
    obtain out where "service_step dies hasher msg s (fst r, env) = (Some s', out)"
      using running by (cases "service_step dies hasher msg s (fst r, env)") auto
    note step = step_schedule [OF this]
    have "on_its_way c"
      using inv that by (simp add: schedule_inv_def)
    then have "fst r = EvChanged \<or> next_check (sv_schedule s) \<le> cs_now c + notify_debounce"
      using that q s by (auto simp: on_its_way_def) force+
    then show ?thesis
      using step env that(4) by (auto simp: notified_def next_check_def)
  qed
  show ?thesis
    unfolding schedule_inv_def on_its_way_def
  proof (intro conjI allI impI)
    fix s' assume "cs_service ?c' = Some s'"
    then obtain out where "service_step dies hasher msg s (fst r, env) = (Some s', out)"
      by (cases "service_step dies hasher msg s (fst r, env)") auto
    note step = step_schedule [OF this]
    show "sch_interval (sv_schedule s') = interval" and "next_check (sv_schedule s') \<le> cs_now ?c' + interval"
      using step sched env by (auto simp: notified_def checked_def next_check_def)
  qed (use near in auto)
qed

lemma schedule_inv_step:
  assumes "clip_step dies hasher msg c c'" and "schedule_inv interval c"
  shows "schedule_inv interval c'"
  using assms(1)
proof cases
  case (Calling r)
  with assms(2) show ?thesis
    by (auto simp: schedule_inv_def on_its_way_def service_call_def service_send_def Let_def)
next
  case Dropping
  with assms(2) show ?thesis
    by (auto simp: schedule_inv_def on_its_way_def service_drop_def service_send_def)
next
  case Notifying
  with assms(2) show ?thesis
    by (auto simp: schedule_inv_def on_its_way_def service_notify_def service_send_def)
next
  case (Serving s r rs env)
  with assms(2) schedule_inv_turn [of interval c s env r rs] show ?thesis by simp
next
  case (Checking s env)
  then have "c\<lparr>cs_queue := []\<rparr> = c" by (cases c) simp
  with Checking assms(2) schedule_inv_turn [of interval c s env "(EvTimeout, None)" "[]"] show ?thesis
    by simp
next
  case Exiting
  with assms(2) show ?thesis
    by (simp add: schedule_inv_def on_its_way_def service_exit_def)
next
  case (Waiting t)
  with assms(2) show ?thesis
    by (fastforce simp: schedule_inv_def on_its_way_def)
qed (use assms(2) in \<open>auto simp: schedule_inv_def on_its_way_def\<close>)

lemma schedule_inv_reachable:
  "clip_reachable dies hasher msg watching interval c \<Longrightarrow>
   schedule_inv (snd (spawn_interval watching interval)) c"
proof (induction rule: clip_reachable.induct)
  case (Spawned os now)
  then show ?case
    by (simp add: schedule_inv_def service_spawn_def service_init_def schedule_new_def next_check_def)
qed (rule schedule_inv_step)

text \<open>Well-formed snapshots only.\<close>

definition outputs_inv :: "clip_sys \<Rightarrow> bool" where
  "outputs_inv c \<longleftrightarrow>
     (\<forall>out\<in>snd ` set (cs_replies c). good_out out) \<and>
     (\<forall>snap\<in>set (cs_changes c). valid_snapshot snap \<and> snap \<noteq> Empty)"

lemma answers_of_subset: "snd ` set (answers_of n out) \<subseteq> set out"
  by (cases "(n, out)" rule: answers_of.cases) auto

lemma reported_good: "\<forall>x\<in>set out. good_out x \<Longrightarrow> \<forall>snap\<in>set (reported out). valid_snapshot snap \<and> snap \<noteq> Empty"
  by (induction out rule: reported.induct) auto

lemma good_stopped [simp]: "good_out (stopped_reply r)"
  by (cases r) simp_all

lemma outputs_inv_step:
  assumes "clip_step dies hasher msg c c'" and "outputs_inv c"
  shows "outputs_inv c'"
  using assms(1)
proof cases
  case (Calling r)
  with assms(2) show ?thesis
    by (auto simp: outputs_inv_def service_call_def service_send_def Let_def)
next
  case (Serving s r rs env)
  note good = step_good [OF Serving(5), of dies hasher msg s "fst r"]
  from Serving(1) assms(2) good reported_good [OF good]
    answers_of_subset [of "snd r" "snd (service_step dies hasher msg s (fst r, env))"]
  show ?thesis
    by (auto simp: outputs_inv_def)
next
  case (Checking s env)
  note good = step_good [OF Checking(6), of dies hasher msg s EvTimeout]
  from Checking(1) assms(2) reported_good [OF good] show ?thesis
    by (auto simp: outputs_inv_def)
next
  case Exiting
  then have "snd ` set (concat (map (\<lambda>(r, n). answers_of n [stopped_reply r]) (cs_queue c)))
    \<subseteq> range stopped_reply"
    using answers_of_subset by fastforce
  with Exiting assms(2) show ?thesis
    by (fastforce simp: outputs_inv_def service_exit_def)
qed (use assms(2) in \<open>auto simp: outputs_inv_def service_drop_def service_notify_def service_send_def\<close>)

lemma outputs_inv_reachable: "clip_reachable dies hasher msg watching interval c \<Longrightarrow> outputs_inv c"
proof (induction rule: clip_reachable.induct)
  case (Spawned os now)
  then show ?case by (simp add: outputs_inv_def service_spawn_def)
qed (rule outputs_inv_step)

section \<open>Properties\<close>

text \<open>
  C4: In every reachable state each call made on the handle has exactly one answer or is waiting in
  the channel; answers come in the order of the calls; each is the clipboard thread's own answer,
  of the type the call asks for, and never that the service has stopped, because the thread
  outlives its handle.
\<close>

theorem every_call_is_answered_once:
  assumes "clip_reachable dies hasher msg watching interval c"
  shows "map fst (cs_replies c) @ waiting c = [0..<length (cs_calls c)] \<and>
     (\<forall>(n, out)\<in>set (cs_replies c).
        n < length (cs_calls c) \<and> reply_for (cs_calls c ! n) out \<and> out \<noteq> stopped_reply (cs_calls c ! n)) \<and>
     (cs_service c = None \<longrightarrow> waiting c = [])"
  using sys_inv_reachable [OF assms] by (auto simp: sys_inv_def calls_inv_def owner_inv_def served_def)

text \<open>
  C5: A change of the clipboard that no check has looked at yet is never forgotten while the
  watcher runs: it is waiting to be notified, its notification is in the channel, or the next check
  is at most 25 ms away. With or without a watcher the next check is never further away than the
  interval: 5 s with one, the polling interval otherwise.
\<close>

theorem changes_are_on_their_way:
  assumes "clip_reachable dies hasher msg watching interval c"
  shows "(cs_watching c \<and> cs_unchecked c \<longrightarrow>
            0 < cs_announced c \<or> EvChanged \<in> fst ` set (cs_queue c) \<or>
            (\<forall>s. cs_service c = Some s \<longrightarrow> next_check (sv_schedule s) \<le> cs_now c + notify_debounce)) \<and>
         (\<forall>s. cs_service c = Some s \<longrightarrow>
            next_check (sv_schedule s)
              \<le> cs_now c + (if watching then safety_check_interval else interval))"
  using schedule_inv_reachable [OF assms]
  by (auto simp: schedule_inv_def on_its_way_def spawn_interval_def)


text \<open>
  C39: The token of a change is recorded before its content is read. When that read fails, because
  another application holds the clipboard open, the copy is never reported: every later check sees
  the token it knows and skips the read.
\<close>

theorem busy_read_loses_the_copy:
  assumes "ans_token (env_os env) = Some token" and "clipboard_read msg (env_os env) = Err Busy"
    and "\<forall>e\<in>set later. ans_token (env_os e) = Some token"
  shows "reported (service_run dies hasher msg s ((EvTimeout, env) # map (\<lambda>e. (EvTimeout, e)) later)) = []"
proof -
  have skip: "looked_at msg (Some token) (map (\<lambda>e. (EvTimeout, e)) later) = []"
    using assms(3) by (induction later) auto
  have "looked_at msg (sv_last_token s) ((EvTimeout, env) # map (\<lambda>e. (EvTimeout, e)) later) = []"
    using assms(1,2) skip by auto
  then show ?thesis
    by (simp only: service_run_reported observe_all.simps)
qed

definition example_call_state :: clip_sys where
  "example_call_state =
     service_call EvRead (service_spawn (\<lambda>_. 0) (\<lambda>_. []) (example_answers (Some 1) [97]) 0 True 0)"

definition example_answer_state :: clip_sys where
  "example_answer_state =
     service_turn True (\<lambda>_. 0) (\<lambda>_. []) (the (cs_service example_call_state)) (EvRead, Some 0)
       (example_env 0 (Some 2) [98]) (example_call_state\<lparr>cs_queue := []\<rparr>)"

lemma example_text [simp]: "text_is_text (example_answers token [c]) \<longleftrightarrow> valid_str [c]"
  by (simp add: text_is_text_def example_answers_def)

lemma example_call_fields [simp]:
  "cs_queue example_call_state = [(EvRead, Some 0)]" "cs_now example_call_state = 0"
  "cs_calls example_call_state = [EvRead]" "cs_replies example_call_state = []"
  by (simp_all add: example_call_state_def service_call_def service_spawn_def service_send_def Let_def)

lemma example_call_running:
  "cs_service example_call_state = Some (the (cs_service example_call_state))"
  by (simp add: example_call_state_def service_call_def service_spawn_def service_send_def Let_def)

lemma example_reachable: "clip_reachable True (\<lambda>_. 0) (\<lambda>_. []) True 0 example_answer_state"
proof -
  have "clip_reachable True (\<lambda>_. 0) (\<lambda>_. []) True 0 example_call_state"
    unfolding example_call_state_def
    by (rule clip_reachable.Stepped [OF clip_reachable.Spawned clip_step.Calling])
      (simp_all add: valid_str_def is_scalar_def service_spawn_def)
  moreover have "clip_step True (\<lambda>_. 0) (\<lambda>_. []) example_call_state example_answer_state"
    unfolding example_answer_state_def
    by (rule clip_step.Serving [OF example_call_running]) (simp_all add: valid_str_def is_scalar_def)
  ultimately show ?thesis by (rule clip_reachable.Stepped)
qed

lemma example_answer_fields [simp]:
  "cs_replies example_answer_state = [(0, ReplyRead (Ok (Content (content_text [98]))))]"
  "cs_calls example_answer_state = [EvRead]" "waiting example_answer_state = []"
  by (simp_all add: example_answer_state_def waiting_def map_filter_simps)

theorem every_call_is_answered_once_witness:
  "map fst (cs_replies example_answer_state) = [0..<1] \<and>
   reply_for EvRead (snd (hd (cs_replies example_answer_state)))"
  using every_call_is_answered_once [OF example_reachable] by simp

theorem changes_are_on_their_way_witness:
  "\<exists>s. cs_service example_answer_state = Some s \<and> next_check (sv_schedule s) \<le> secs 5"
proof -
  obtain s where s: "cs_service example_answer_state = Some s"
    using example_call_running by (auto simp: example_answer_state_def)
  have "cs_now example_answer_state = 0"
    by (simp add: example_answer_state_def)
  with changes_are_on_their_way [OF example_reachable] s show ?thesis
    by (simp add: safety_check_interval_def)
qed


definition busy_env :: service_env where
  "busy_env = (example_env 0 (Some 2) [])
     \<lparr>env_os := (example_answers (Some 2) [])\<lparr>ans_text := Err ClipboardOccupied\<rparr>\<rparr>"

theorem busy_read_loses_the_copy_witness:
  "reported (service_run True (\<lambda>_. 0) (\<lambda>_. []) (service_init (\<lambda>_. 0) (\<lambda>_. []) (example_answers (Some 1) [97]) 0 1)
     [(EvTimeout, busy_env), (EvTimeout, example_env 9 (Some 2) [98])]) = []"
  using busy_read_loses_the_copy [of busy_env 2 "\<lambda>_. []" "[example_env 9 (Some 2) [98]]" True "\<lambda>_. 0"
      "service_init (\<lambda>_. 0) (\<lambda>_. []) (example_answers (Some 1) [97]) 0 1"]
  by (simp add: busy_env_def clipboard_read_def read_text_def not_available_as_none_def map_error_def
      example_answers_def)

end
