(* ===== verification/Platform.thy ===== *)
theory Platform
  imports Watchers
begin

text \<open>
  \<open>crates/cled-clipboard/src/platform/\<close>: what each operating system adds to \<open>arboard\<close>, the type
  \<open>Native\<close> of \<open>linux/mod.rs\<close>, \<open>macos.rs\<close> and \<open>windows.rs\<close>. The source picks one of them when it is
  compiled; here they are the constructors of one type. What the window systems answer is the record
  \<open>native_answers\<close>.
\<close>

section \<open>Wayland\<close>

text \<open>The errors of \<open>wl_clipboard_rs\<close> that \<open>formats\<close> tells apart.\<close>

datatype paste_error = PasteClipboardEmpty | PasteNoSeats | PasteOther rstr

definition wayland_formats :: "paste_error + rstr list \<Rightarrow> paste_error + rstr list" where
  "wayland_formats types =
     (case types of
        Inr formats \<Rightarrow> Ok formats
      | Inl PasteClipboardEmpty \<Rightarrow> Ok []
      | Inl PasteNoSeats \<Rightarrow> Ok []
      | Inl e \<Rightarrow> Err e)"

definition wayland_is_private :: "(paste_error \<Rightarrow> rstr) \<Rightarrow> paste_error + rstr list \<Rightarrow> clipboard_error + bool" where
  "wayland_is_private paste_text types =
     (case wayland_formats types of
        Inr formats \<Rightarrow> Ok (has_private_marker formats)
      | Inl e \<Rightarrow> Err (OtherError (paste_text e)))"

section \<open>The platforms\<close>

datatype native =
    NativeLinux linux_native u32
  | NativeMac
  | NativeWindows "u32 option" "u32 list"

record native_answers =
  na_wl_types :: "paste_error + rstr list"
  na_wl_contents :: "byte list option"
  na_x11_unsent :: "rstr option"
  na_x11_polls :: "x11_poll list"
  na_now :: nat
  na_mac_types :: "rstr list option"
  na_mac_count :: int
  na_win_avail :: "u32 \<Rightarrow> bool"
  na_win_value :: "u32 \<Rightarrow> u32 option"
  na_win_opened :: bool
  na_win_seq :: "u32 option"

text \<open>Windows: \<open>register\<close> gives the identifier of a named format, if it can be registered.\<close>

definition windows_native_new :: "(rstr \<Rightarrow> u32 option) \<Rightarrow> native" where
  "windows_native_new register =
     NativeWindows (register (str_lit ''ExcludeClipboardContentFromMonitorProcessing''))
       (List.map_filter register
          [str_lit ''CanIncludeInClipboardHistory'', str_lit ''CanUploadToCloudClipboard''])"

definition macos_is_private :: "rstr list option \<Rightarrow> clipboard_error + bool" where
  "macos_is_private types = Ok (case types of None \<Rightarrow> False | Some ts \<Rightarrow> has_private_marker ts)"

text \<open>\<open>None\<close>: the polls given do not suffice for an answer (X11 only).\<close>

fun native_is_private ::
  "(paste_error \<Rightarrow> rstr) \<Rightarrow> native \<Rightarrow> native_answers \<Rightarrow> (clipboard_error + bool) option" where
  "native_is_private paste_text (NativeLinux NativeWayland marker) na =
     Some (wayland_is_private paste_text (na_wl_types na))"
| "native_is_private paste_text (NativeLinux (NativeX11 u) marker) na =
     x11_has_private_marker marker (na_x11_unsent na) (na_now na) (na_x11_polls na)"
| "native_is_private paste_text NativeMac na = Some (macos_is_private (na_mac_types na))"
| "native_is_private paste_text (NativeWindows exclude opt_outs) na =
     Some (windows_is_private exclude opt_outs (na_win_avail na) (na_win_value na) (na_win_opened na))"

text \<open>macOS counts changes in a signed integer, which is cast; Windows in an unsigned one.\<close>

fun native_change_token ::
  "(rstr list \<Rightarrow> byte list option \<Rightarrow> u64) \<Rightarrow> native \<Rightarrow> native_answers \<Rightarrow> u64 option" where
  "native_change_token hasher (NativeLinux NativeWayland marker) na =
     wayland_change_token hasher
       (case wayland_formats (na_wl_types na) of Inr fs \<Rightarrow> Some fs | Inl _ \<Rightarrow> None) (na_wl_contents na)"
| "native_change_token hasher (NativeLinux (NativeX11 u) marker) na = None"
| "native_change_token hasher NativeMac na = Some (of_int (na_mac_count na))"
| "native_change_token hasher (NativeWindows exclude opt_outs) na = map_option ucast (na_win_seq na)"

fun native_backend :: "native \<Rightarrow> clipboard_backend" where
  "native_backend (NativeLinux l marker) = linux_backend l"
| "native_backend NativeMac = MacOs"
| "native_backend (NativeWindows exclude opt_outs) = Windows"

definition content_dies_with_process :: "native \<Rightarrow> bool" where
  "content_dies_with_process n = (case n of NativeLinux l marker \<Rightarrow> True | _ \<Rightarrow> False)"

text \<open>\<open>Clipboard\<close>: the platform's privacy check and \<open>arboard\<close>, for one read.\<close>

definition native_read ::
  "(paste_error \<Rightarrow> rstr) \<Rightarrow> (arboard_error \<Rightarrow> rstr) \<Rightarrow> native \<Rightarrow> native_answers \<Rightarrow> os_answers
   \<Rightarrow> (clipboard_error + snapshot) option" where
  "native_read paste_text msg n na os =
     map_option (\<lambda>private. clipboard_read msg (os\<lparr>ans_private := private\<rparr>)) (native_is_private paste_text n na)"

text \<open>\<open>Clipboard::new\<close>: \<open>arboard\<close> first, then the platform.\<close>

definition clipboard_new :: "(arboard_error \<Rightarrow> rstr) \<Rightarrow> arboard_error + unit \<Rightarrow> clipboard_error + native \<Rightarrow> clipboard_error + native" where
  "clipboard_new msg backend n = (case backend of Inl e \<Rightarrow> Err (map_error msg e) | Inr _ \<Rightarrow> n)"

section \<open>The conventions\<close>

text \<open>
  What an application does to mark a copy as private, by platform: it offers one of the named
  formats, the hint's atom, the exclusion format, or an opt-out whose value is 0.
\<close>

fun marked :: "native \<Rightarrow> native_answers \<Rightarrow> bool" where
  "marked (NativeLinux NativeWayland marker) na \<longleftrightarrow>
     (\<exists>types. na_wl_types na = Ok types \<and> set types \<inter> set private_format_names \<noteq> {})"
| "marked (NativeLinux (NativeX11 u) marker) na \<longleftrightarrow>
     (\<exists>atoms. x11_targets (na_x11_unsent na) (na_now na) (na_x11_polls na) = Some (Ok atoms) \<and> marker \<in> set atoms)"
| "marked NativeMac na \<longleftrightarrow>
     (\<exists>types. na_mac_types na = Some types \<and> set types \<inter> set private_format_names \<noteq> {})"
| "marked (NativeWindows exclude opt_outs) na \<longleftrightarrow>
     (\<exists>f. exclude = Some f \<and> na_win_avail na f) \<or>
     (\<exists>f\<in>set opt_outs. na_win_avail na f \<and> na_win_value na f = Some 0)"

lemma has_private_marker_iff: "has_private_marker formats \<longleftrightarrow> set formats \<inter> set private_format_names \<noteq> {}"
  by (auto simp: has_private_marker_def list_ex_iff)

lemma native_is_private_iff:
  "native_is_private paste_text n na = Some (Ok private) \<Longrightarrow> private \<longleftrightarrow> marked n na"
proof (cases "(n, na)" rule: marked.cases)
  case (1 marker na')
  assume "native_is_private paste_text n na = Some (Ok private)"
  with 1 show ?thesis
    by (auto simp: wayland_is_private_def wayland_formats_def has_private_marker_iff
        split: sum.splits paste_error.splits)
next
  case (2 u marker na')
  assume "native_is_private paste_text n na = Some (Ok private)"
  with 2 show ?thesis
    by (cases "the (x11_targets (na_x11_unsent na) (na_now na) (na_x11_polls na))")
      (auto simp: x11_has_private_marker_def)
next
  case (3 na')
  assume "native_is_private paste_text n na = Some (Ok private)"
  with 3 show ?thesis
    by (auto simp: macos_is_private_def has_private_marker_iff split: option.splits)
next
  case (4 exclude opt_outs na')
  assume "native_is_private paste_text n na = Some (Ok private)"
  with 4 show ?thesis
    by (auto simp: windows_is_private_def Let_def list_ex_iff filter_empty_conv
        split: option.splits if_splits)
qed

section \<open>Properties\<close>


text \<open>The bytes of a marked copy are not even hashed for the change token of Wayland.\<close>

theorem wayland_token_ignores_marked_bytes:
  assumes "marked (NativeLinux NativeWayland marker) na"
  shows "native_change_token hasher (NativeLinux NativeWayland marker) (na\<lparr>na_wl_contents := bytes\<rparr>)
         = native_change_token hasher (NativeLinux NativeWayland marker) na"
proof -
  from assms obtain types where "na_wl_types na = Ok types" and "has_private_marker types"
    by (auto simp: has_private_marker_iff)
  then show ?thesis
    by (simp add: wayland_change_token_def wayland_formats_def)
qed

text \<open>
  A marker that cannot be read is taken for none: when another application holds the Windows
  clipboard open during the check, a copy that is marked private is read like any other.
\<close>

theorem unreadable_marker_is_ignored:
  assumes "marked (NativeWindows None opt_outs) na" and "\<not> na_win_opened na"
    and "ans_text os = Ok t"
  shows "native_read paste_text msg (NativeWindows None opt_outs) na os = Some (Ok (Content (content_text t)))"
  using assms
  by (auto simp: native_read_def windows_is_private_def Let_def filter_empty_conv clipboard_read_def
      read_text_def not_available_as_none_def)

definition example_native_answers :: native_answers where
  "example_native_answers =
     \<lparr>na_wl_types = Ok [str_lit ''text/plain'', str_lit ''x-kde-passwordManagerHint''], na_wl_contents = None,
      na_x11_unsent = None, na_x11_polls = [], na_now = 0, na_mac_types = None, na_mac_count = 0,
      na_win_avail = (\<lambda>f. f = 5), na_win_value = (\<lambda>_. Some 0), na_win_opened = False, na_win_seq = None\<rparr>"

definition example_os :: os_answers where
  "example_os = \<lparr>ans_private = Ok False, ans_text = Ok (str_lit ''secret''), ans_image = Err ContentNotAvailable,
     ans_token = None, ans_set = Ok ()\<rparr>"


theorem wayland_token_ignores_marked_bytes_witness:
  "native_change_token h (NativeLinux NativeWayland 0) (example_native_answers\<lparr>na_wl_contents := Some [1]\<rparr>)
   = native_change_token h (NativeLinux NativeWayland 0) example_native_answers"
  by (rule wayland_token_ignores_marked_bytes) (simp add: example_native_answers_def private_format_names_def)

theorem unreadable_marker_is_ignored_witness:
  "native_read (\<lambda>_. []) (\<lambda>_. []) (NativeWindows None [5]) example_native_answers example_os
   = Some (Ok (Content (content_text (str_lit ''secret''))))"
  by (rule unreadable_marker_is_ignored) (simp_all add: example_native_answers_def example_os_def)

end
