(* ===== verification/Shell.thy ===== *)
theory Shell
  imports App Clipboard_Threads Platform
begin

text \<open>
  The frame of the desktop app: \<open>apps/desktop/src-tauri/src/main.rs\<close>, \<open>lib.rs\<close> (what a start sets up, in
  which order) and \<open>background.rs\<close> (window, tray, start on login), and the parent's half of the
  clipboard hand-off on exit, \<open>spawn\<close> in \<open>crates/cled-clipboard/src/holder.rs\<close>. Tauri's windows,
  menus and plugins are reduced to the events they deliver.
\<close>

section \<open>Starting a holder\<close>

definition ready_timeout :: nat where "ready_timeout = secs 2"

text \<open>
  \<open>fault\<close>: why the process could not be started or fed. \<open>child bytes\<close>: the first line the process
  prints when it is given \<open>bytes\<close>, and after how long; \<open>None\<close> when it prints none.
\<close>

definition holder_spawn :: "rstr option \<Rightarrow> (byte list \<Rightarrow> (nat \<times> rstr) option) \<Rightarrow> content \<Rightarrow> rstr + bool" where
  "holder_spawn fault child content =
     (case fault of
        Some m \<Rightarrow> Err m
      | None \<Rightarrow>
          Ok (holder_ready
                (case child (holder_encode content) of
                   Some (t, line) \<Rightarrow> if t \<le> ready_timeout then Some line else None
                 | None \<Rightarrow> None)))"

definition run_holder_if_requested :: "rstr list \<Rightarrow> bool" where
  "run_holder_if_requested args = list_ex (\<lambda>arg. arg = holder_arg) args"

text \<open>The lines a process with these effects prints.\<close>

fun printed :: "holder_effect list \<Rightarrow> rstr list" where
  "printed [] = []"
| "printed (HolderPrint line # es) = line # printed es"
| "printed (HolderWrite content # es) = printed es"

text \<open>
  A process of the same executable that was started as a holder: the answers it gets from its own
  clipboard thread, and when it prints its line.
\<close>

record holder_world =
  hw_spawned :: "clipboard_error + unit"
  hw_read :: "clipboard_error + snapshot"
  hw_written :: "clipboard_error + unit"
  hw_changes :: "snapshot list"
  hw_time :: nat

definition holder_process :: "holder_world \<Rightarrow> byte list \<Rightarrow> holder_effect list" where
  "holder_process w bytes =
     fst (hold_from_stdin bytes (hw_spawned w) (hw_read w) (hw_written w) (hw_changes w))"

definition holder_child :: "holder_world \<Rightarrow> byte list \<Rightarrow> (nat \<times> rstr) option" where
  "holder_child w bytes =
     (case printed (holder_process w bytes) of
        [] \<Rightarrow> None
      | line # _ \<Rightarrow> Some (hw_time w, line @ [10]))"

section \<open>Main\<close>

datatype main_effect = ServeAsHolder | SetEnv rstr rstr | RunApp

text \<open>\<open>dmabuf_set\<close>: the variable is in the environment already.\<close>

definition app_main :: "bool \<Rightarrow> rstr list \<Rightarrow> bool \<Rightarrow> main_effect list" where
  "app_main linux args dmabuf_set =
     (if run_holder_if_requested args then [ServeAsHolder]
      else (if linux \<and> \<not> dmabuf_set
            then [SetEnv (str_lit ''WEBKIT_DISABLE_DMABUF_RENDERER'') (str_lit ''1'')] else [])
           @ [RunApp])"

section \<open>Window, tray and login item\<close>

definition main_window :: rstr where "main_window = str_lit ''main''"
definition hidden_arg :: rstr where "hidden_arg = str_lit ''--hidden''"

record shell =
  sh_window :: bool
  sh_visible :: bool
  sh_exited :: bool
  sh_autostart :: bool

datatype shell_event =
    CloseRequested rstr
  | OtherWindowEvent
  | TrayMenu rstr
  | SecondLaunch
  | SetAutostart bool "rstr option"
  | Quit

datatype shell_effect = PreventClose rstr | KeepContentAfterExit

definition show_main_window :: "shell \<Rightarrow> shell" where
  "show_main_window sh = (if sh_window sh then sh\<lparr>sh_visible := True\<rparr> else sh)"

definition background_setup :: "rstr list \<Rightarrow> bool \<Rightarrow> shell" where
  "background_setup args autostart =
     (let sh = \<lparr>sh_window = True, sh_visible = False, sh_exited = False, sh_autostart = autostart\<rparr>
      in if \<not> list_ex (\<lambda>arg. arg = hidden_arg) args then show_main_window sh else sh)"

text \<open>Exiting runs the hand-off of the clipboard.\<close>

definition app_exit :: "shell \<Rightarrow> shell \<times> shell_effect list" where
  "app_exit sh = (sh\<lparr>sh_exited := True, sh_visible := False\<rparr>, [KeepContentAfterExit])"

definition set_autostart :: "bool \<Rightarrow> rstr option \<Rightarrow> shell \<Rightarrow> (rstr + unit) \<times> shell" where
  "set_autostart enabled fault sh =
     (case fault of Some e \<Rightarrow> (Err e, sh) | None \<Rightarrow> (Ok (), sh\<lparr>sh_autostart := enabled\<rparr>))"

definition get_autostart :: "rstr option \<Rightarrow> shell \<Rightarrow> rstr + bool" where
  "get_autostart fault sh = (case fault of Some e \<Rightarrow> Err e | None \<Rightarrow> Ok (sh_autostart sh))"

fun shell_step :: "shell \<Rightarrow> shell_event \<Rightarrow> shell \<times> shell_effect list" where
  "shell_step sh (CloseRequested label) =
     (if label = main_window then (sh\<lparr>sh_visible := False\<rparr>, [PreventClose label]) else (sh, []))"
| "shell_step sh OtherWindowEvent = (sh, [])"
| "shell_step sh (TrayMenu item) =
     (if item = str_lit ''show'' then (show_main_window sh, [])
      else if item = str_lit ''quit'' then app_exit sh
      else (sh, []))"
| "shell_step sh SecondLaunch = (show_main_window sh, [])"
| "shell_step sh (SetAutostart enabled fault) = (snd (set_autostart enabled fault sh), [])"
| "shell_step sh Quit = app_exit sh"

text \<open>The app reacts to events until it exits.\<close>

fun shell_run :: "shell \<Rightarrow> shell_event list \<Rightarrow> shell \<times> shell_effect list" where
  "shell_run sh [] = (sh, [])"
| "shell_run sh (e # es) =
     (if sh_exited sh then (sh, [])
      else let (sh', eff) = shell_step sh e; (sh'', eff') = shell_run sh' es in (sh'', eff @ eff'))"

text \<open>
  \<open>keep_content_after_exit\<close>: the clipboard state may not be managed yet, or hold the reason why
  there is no service; an error of the hand-off is only logged.
\<close>

definition app_keep_content :: "bool \<Rightarrow> rstr option \<Rightarrow> clipboard_error + bool \<Rightarrow> rstr option" where
  "app_keep_content managed unavailable kept =
     (if managed \<and> unavailable = None
      then (case kept of Inl e \<Rightarrow> Some (clipboard_error_text e) | Inr _ \<Rightarrow> None)
      else None)"

section \<open>Setting up\<close>

text \<open>The files of the config directory, and what one start finds besides them.\<close>

record app_files =
  af_device :: "rstr option"
  af_keys :: read_outcome
  af_peers :: peer_read
  af_settings :: settings_files
  af_session :: "stored_session option"

record app_world =
  aw_dir :: "rstr + unit"
  aw_fresh :: device_id
  aw_id_fault :: "id_fault option"
  aw_generated :: "(byte list \<times> byte list) lan_result"
  aw_key_fault :: "file_fault option"
  aw_bound :: "unit lan_result"
  aw_daemon :: bool
  aw_thread :: "rstr + unit"
  aw_host :: rstr
  aw_now :: nat
  aw_clipboard :: "clipboard_error + backend_info"

record app_start_lib =
  as_fmt :: "128 word \<Rightarrow> rstr"
  as_parse :: "rstr \<Rightarrow> 128 word option"
  as_lan_text :: "lan_error \<Rightarrow> rstr"
  as_urls :: url_lib

record app_state =
  ap_device :: device_id
  ap_name :: rstr
  ap_engine :: sync_engine
  ap_node :: "rstr + node"
  ap_clipboard :: "rstr + backend_info"
  ap_settings :: settings_state
  ap_auth :: auth_state
  ap_relay :: relay_task

definition start_node :: "app_start_lib \<Rightarrow> app_world \<Rightarrow> app_files \<Rightarrow> device_id \<Rightarrow> rstr \<Rightarrow> rstr + node" where
  "start_node lib w files device name =
     (case aw_dir w of
        Inl e \<Rightarrow> Err e
      | Inr _ \<Rightarrow>
          (case fst (load_or_create (af_keys files) (aw_generated w) (aw_key_fault w)) of
             Inl e \<Rightarrow> Err (as_lan_text lib e)
           | Inr keys \<Rightarrow>
               (case node_start (as_parse lib) (config_new device name keys) (af_peers files)
                       (aw_bound w) (aw_daemon w) (aw_now w) of
                  Inl e \<Rightarrow> Err (as_lan_text lib e)
                | Inr (nd, _) \<Rightarrow> (case aw_thread w of Inl e \<Rightarrow> Err e | Inr _ \<Rightarrow> Ok nd))))"

text \<open>The engine, the node or why there is none, and the name of the device.\<close>

record sync_state =
  sn_engine :: sync_engine
  sn_node :: "rstr + node"
  sn_name :: rstr

definition sync_state_start :: "app_start_lib \<Rightarrow> app_world \<Rightarrow> app_files \<Rightarrow> device_id \<Rightarrow> sync_state" where
  "sync_state_start lib w files device =
     (let name = device_name (aw_host w)
      in \<lparr>sn_engine = engine_new device, sn_node = start_node lib w files device name, sn_name = name\<rparr>)"

definition clipboard_state_start :: "app_world \<Rightarrow> rstr + backend_info" where
  "clipboard_state_start w =
     (case aw_clipboard w of Inl e \<Rightarrow> Err (clipboard_error_text e) | Inr info \<Rightarrow> Ok info)"

definition app_setup :: "app_start_lib \<Rightarrow> app_world \<Rightarrow> app_files \<Rightarrow> app_state" where
  "app_setup lib w files =
     (let has_dir = \<not> isl (aw_dir w);
          device = fst (load_device_id (as_fmt lib) (as_parse lib) has_dir (aw_fresh w) (aw_id_fault w)
                          (af_device files));
          sync = sync_state_start lib w files device;
          clipboard = clipboard_state_start w;
          settings = settings_state_load (ul_parse (as_urls lib)) has_dir (af_settings files);
          auth = auth_load has_dir (af_session files);
          relay = fst (relay_start (as_urls lib) (ss_current settings) (is_signed_in auth))
      in \<lparr>ap_device = device, ap_name = sn_name sync, ap_engine = sn_engine sync, ap_node = sn_node sync,
          ap_clipboard = clipboard, ap_settings = settings, ap_auth = auth, ap_relay = relay\<rparr>)"

text \<open>What the device identifier's file holds after a start.\<close>

definition device_file_after :: "app_start_lib \<Rightarrow> app_world \<Rightarrow> app_files \<Rightarrow> rstr option" where
  "device_file_after lib w files =
     snd (load_device_id (as_fmt lib) (as_parse lib) (\<not> isl (aw_dir w)) (aw_fresh w) (aw_id_fault w)
            (af_device files))"

section \<open>Lemmas\<close>

lemma trim_ready: "trim (ready @ [10]) = ready"
  by (simp add: ready_def str_lit_def trim_def trim_end_def is_whitespace_def)

lemma holder_process_cases:
  assumes "valid_content c"
  shows "holder_process w (holder_encode c) =
     (if hw_spawned w = Ok () \<and> hw_read w = Ok (Content c)
      then HolderWrite c # (if hw_written w = Ok () then [HolderPrint ready] else [])
      else [])"
  using holder_decode_encode [OF assms]
  by (auto simp: holder_process_def hold_from_stdin_def split: sum.split)

lemma holder_spawn_child:
  assumes "valid_content c"
  shows "holder_spawn None (holder_child w) c = Ok
     (hw_spawned w = Ok () \<and> hw_read w = Ok (Content c) \<and> hw_written w = Ok () \<and> hw_time w \<le> ready_timeout)"
  by (auto simp: holder_spawn_def holder_child_def holder_process_cases [OF assms] holder_ready_def trim_ready)

lemma shell_step_exit:
  "sh_exited (fst (shell_step sh e)) \<longleftrightarrow> sh_exited sh \<or> e = Quit \<or> e = TrayMenu (str_lit ''quit'')"
  by (cases e) (auto simp: show_main_window_def app_exit_def set_autostart_def str_lit_def split: option.split)

lemma shell_step_keeps:
  "count_list (snd (shell_step sh e)) KeepContentAfterExit =
     (if e = Quit \<or> e = TrayMenu (str_lit ''quit'') then 1 else 0)"
  by (cases e) (auto simp: app_exit_def str_lit_def)

lemma shell_run_exited: "sh_exited sh \<Longrightarrow> shell_run sh es = (sh, [])"
  by (cases es) simp_all

lemma relay_start_phase:
  "rt_phase (fst (relay_start lib s signed_in)) =
     (case desired_from_inputs lib \<lparr>ri_mode = se_mode s, ri_url = se_relay s, ri_signed_in = signed_in\<rparr> of
        DesiredConnect u \<Rightarrow> TaskConnecting u
      | _ \<Rightarrow> TaskIdle None None)"
  by (simp add: relay_start_def task_loop_def control_new_def task_report_def Let_def case_prod_beta
      split: desired.split)

lemma settings_path_run: "ss_path (foldl (settings_step url_parse) st es) = ss_path st"
proof (induction es arbitrary: st)
  case (Cons e es)
  have "ss_path (settings_step url_parse st e) = ss_path st"
    by (cases e; cases "fst e")
      (auto simp: set_connection_mode_def set_relay_url_def settings_update_def Let_def split: sum.split prod.split)
  with Cons show ?case by simp
qed simp

lemma settings_reload:
  fixes url_parse fs changes
  assumes "validate_relay_url url_parse default_relay_url = Ok default_relay_url"
  defines "st \<equiv> foldl (settings_step url_parse) (settings_state_load url_parse True fs) changes"
  shows "ss_current (settings_state_load url_parse True (ss_files st)) = ss_current st"
proof -
  have "settings_inv url_parse (settings_state_load url_parse True fs)"
    using assms(1) by (auto simp: settings_inv_def settings_state_load_def settings_load_def Let_def)
  then have "settings_inv url_parse st" unfolding st_def by (rule settings.invar_run)
  moreover have "ss_path st"
    unfolding st_def settings_path_run by (simp add: settings_state_load_def)
  ultimately show ?thesis
    by (simp add: settings_inv_def settings_state_load_def)
qed

lemma auth_reload:
  fixes stored events
  defines "st \<equiv> \<lambda>events. foldl auth_ok_step (auth_load True stored) events"
  shows "au_session (auth_load True (au_file (st events))) = map_option (\<lambda>s. s\<lparr>as_access := None\<rparr>) (au_session (st events))"
    and "is_signed_in (auth_load True (au_file (st events))) \<longleftrightarrow> au_session (st events) \<noteq> None"
proof -
  have inv: "auth_inv (st events)" unfolding st_def by (intro auth.invar_run auth_inv_load)
  then show "au_session (auth_load True (au_file (st events))) = map_option (\<lambda>s. s\<lparr>as_access := None\<rparr>) (au_session (st events))"
    by (cases "au_session (st events)") (auto simp: auth_inv_def auth_load_def)
  show "is_signed_in (auth_load True (au_file (st events))) \<longleftrightarrow> au_session (st events) \<noteq> None"
    using inv by (cases "au_session (st events)") (auto simp: auth_inv_def auth_load_def is_signed_in_def)
qed

lemma trim_line: "trim (s @ [10]) = trim s"
proof (cases "\<forall>c\<in>set s. is_whitespace c")
  case True
  then show ?thesis
    by (simp add: trim_def dropWhile_append2 dropWhile_eq_Nil_conv [THEN iffD2] is_whitespace_def trim_end_def)
next
  case False
  then have "dropWhile is_whitespace (s @ [10]) = dropWhile is_whitespace s @ [10]"
    by (metis dropWhile_append1)
  moreover have "is_whitespace 10" by (simp add: is_whitespace_def)
  ultimately show ?thesis
    by (simp add: trim_def trim_end_append_ws)
qed

lemma device_reload:
  assumes "uuid_codec (as_fmt lib) (as_parse lib)"
    and "load_device_id (as_fmt lib) (as_parse lib) True fresh None contents = (d, t)"
  shows "load_device_id (as_fmt lib) (as_parse lib) True fresh' fault' t = (d, t)"
proof -
  have "device_id_from_str (as_parse lib) (device_id_fmt (as_fmt lib) fresh @ [10]) = Some fresh"
    using assms(1) by (simp add: device_id_from_str_def device_id_fmt_def trim_line uuid_codec_def)
  with assms(2) show ?thesis
    by (auto simp: load_device_id_def Let_def split: option.splits)
qed

section \<open>Properties\<close>


text \<open>
  Cled runs until it is told to quit. Closing its window, launching it again and everything else
  leave it running; the first "quit", from the tray or from the window, ends it, and the clipboard is
  handed off exactly once.
\<close>

theorem app_runs_until_quit:
  "\<not> sh_exited sh \<Longrightarrow>
   (sh_exited (fst (shell_run sh es)) \<longleftrightarrow> (\<exists>e\<in>set es. e = Quit \<or> e = TrayMenu (str_lit ''quit''))) \<and>
   count_list (snd (shell_run sh es)) KeepContentAfterExit = (if sh_exited (fst (shell_run sh es)) then 1 else 0)"
proof (induction es arbitrary: sh)
  case (Cons e es)
  let ?sh = "fst (shell_step sh e)"
  show ?case
  proof (cases "sh_exited ?sh")
    case True
    with Cons.prems show ?thesis
      by (simp add: case_prod_beta shell_run_exited shell_step_exit shell_step_keeps)
  next
    case False
    with Cons.prems Cons.IH [of ?sh] show ?thesis
      by (auto simp: case_prod_beta shell_step_exit shell_step_keeps)
  qed
qed simp


section \<open>Witnesses\<close>

definition example_holder :: holder_world where
  "example_holder =
     \<lparr>hw_spawned = Ok (), hw_read = Ok (Content (content_text [97])), hw_written = Ok (), hw_changes = [],
      hw_time = secs 1\<rparr>"


theorem app_runs_until_quit_witness:
  "sh_exited (fst (shell_run (background_setup [hidden_arg] False)
     [CloseRequested main_window, SecondLaunch, TrayMenu (str_lit ''quit''), Quit]))"
proof -
  have "\<not> sh_exited (background_setup [hidden_arg] False)"
    by (simp add: background_setup_def Let_def)
  from app_runs_until_quit [OF this, of "[CloseRequested main_window, SecondLaunch, TrayMenu (str_lit ''quit''), Quit]"]
  show ?thesis by simp
qed

definition example_start_lib :: app_start_lib where
  "example_start_lib = \<lparr>as_fmt = bits_fmt, as_parse = bits_parse, as_lan_text = (\<lambda>_. []), as_urls = example_urls\<rparr>"

definition example_app_world :: app_world where
  "example_app_world =
     \<lparr>aw_dir = Ok (), aw_fresh = DeviceId 3, aw_id_fault = None, aw_generated = Err LanStopped,
      aw_key_fault = None, aw_bound = Ok (), aw_daemon = False, aw_thread = Ok (), aw_host = [], aw_now = 0,
      aw_clipboard = Err Busy\<rparr>"

definition example_files :: app_files where
  "example_files =
     \<lparr>af_device = None, af_keys = ReadNotFound, af_peers = PeerFileMissing,
      af_settings = \<lparr>sf_file = SettingsText example_relay_settings, sf_tmp = SettingsMissing\<rparr>,
      af_session = Some example_session\<rparr>"

lemma example_settings_load:
  "settings_state_load example_url_parse True
     \<lparr>sf_file = SettingsText example_relay_settings, sf_tmp = SettingsMissing\<rparr>
   = \<lparr>ss_path = True, ss_current = example_relay_settings,
      ss_files = \<lparr>sf_file = SettingsText example_relay_settings, sf_tmp = SettingsMissing\<rparr>\<rparr>"
  by (simp add: settings_state_load_def settings_load_def example_relay_settings_def validate_relay_url_def
      str_lit_def trim_def trim_end_def is_whitespace_def example_url_parse_def Let_def)


end
