(* ===== verification/Clipboard_Tests.thy ===== *)
theory Clipboard_Tests
  imports Platform
begin

text \<open>
  The unit tests of \<open>crates/cled-clipboard\<close> (the modules \<open>tests\<close> of \<open>content.rs\<close>, \<open>detector.rs\<close>,
  \<open>holder.rs\<close>, \<open>service.rs\<close> and \<open>platform/mod.rs\<close>) as definitions of the same names, true when every
  assertion of the test holds of the model. What a test leaves to chance or to a library is an
  argument: the hasher, the start of a schedule. A test that compares fingerprints for inequality
  holds when the hasher has no collision on the values it hashes.
\<close>

section \<open>Content\<close>

text \<open>\<open>ClipboardContent::text\<close> of a literal, and an image of the tests.\<close>

definition lit :: "string \<Rightarrow> content" where
  "lit s = content_text (str_lit s)"

definition rgba_image :: "u32 \<Rightarrow> u32 \<Rightarrow> byte list \<Rightarrow> content" where
  "rgba_image w h rgba = Image (the (from_rgba w h rgba))"

definition crlf :: rstr where "crlf = [13, 10]"

lemmas text_simps = str_lit_def content_text_def normalize_line_endings_def identity_text_def
  trim_end_def trim_def is_whitespace_def crlf_def

definition normalizes_crlf_and_lone_cr :: bool where
  "normalizes_crlf_and_lone_cr \<longleftrightarrow>
     content_text (str_lit ''a'' @ crlf @ str_lit ''b'' @ [13] @ str_lit ''c'' @ [10])
     = Text (str_lit ''a'' @ [10] @ str_lit ''b'' @ [10] @ str_lit ''c'' @ [10])"

lemma normalizes_crlf_and_lone_cr: "normalizes_crlf_and_lone_cr"
  by (simp add: normalizes_crlf_and_lone_cr_def text_simps)

text \<open>\<open>fingerprint(&content)\<close>.\<close>

definition content_print :: "(hash_write list \<Rightarrow> u64) \<Rightarrow> content \<Rightarrow> u64" where
  "content_print hasher c = fingerprint hasher (content_hash_writes c)"

definition same_text_across_line_endings_has_same_fingerprint :: "(hash_write list \<Rightarrow> u64) \<Rightarrow> bool" where
  "same_text_across_line_endings_has_same_fingerprint hasher \<longleftrightarrow>
     (let windows = content_text (str_lit ''hello'' @ crlf @ str_lit ''world'');
          unix = content_text (str_lit ''hello'' @ [10] @ str_lit ''world'')
      in content_print hasher windows = content_print hasher unix)"

lemma same_text_across_line_endings_has_same_fingerprint:
  "same_text_across_line_endings_has_same_fingerprint hasher"
  by (simp add: same_text_across_line_endings_has_same_fingerprint_def text_simps)

definition trailing_whitespace_does_not_change_the_fingerprint :: "(hash_write list \<Rightarrow> u64) \<Rightarrow> bool" where
  "trailing_whitespace_does_not_change_the_fingerprint hasher \<longleftrightarrow>
     (let base = content_print hasher (lit ''hello world'')
      in (\<forall>variant\<in>set [str_lit ''hello world '', str_lit ''hello world'' @ [10],
                         str_lit ''hello world '' @ [9, 10, 10]].
            content_print hasher (content_text variant) = base) \<and>
         content_print hasher (lit '' hello world'') \<noteq> base \<and>
         content_print hasher (lit ''hello  world'') \<noteq> base)"

text \<open>The fingerprint tells contents apart when the hasher does not collide on them.\<close>

definition no_collision :: "(hash_write list \<Rightarrow> u64) \<Rightarrow> content list \<Rightarrow> bool" where
  "no_collision hasher cs \<longleftrightarrow> inj_on hasher (content_hash_writes ` set cs)"

lemma content_hash_writes_same:
  assumes "valid_content c" and "valid_content d"
  shows "content_hash_writes c = content_hash_writes d \<longleftrightarrow> same_copy (Content c) (Content d)"
  using assms snapshot_writes_same_copy [of "Content c" "Content d"] by simp

lemma content_print_eq:
  assumes "no_collision hasher cs" and "c \<in> set cs" and "d \<in> set cs"
    and "valid_content c" and "valid_content d"
  shows "content_print hasher c = content_print hasher d \<longleftrightarrow> same_copy (Content c) (Content d)"
  using assms inj_on_eq_iff [of hasher "content_hash_writes ` set cs" "content_hash_writes c" "content_hash_writes d"]
  by (simp add: content_print_def fingerprint_def no_collision_def content_hash_writes_same)

lemma valid_lit: "valid_content (lit s)"
proof -
  have "is_scalar (of_char c)" for c
  proof -
    have "of_char c < (256 :: nat)" by (rule nat_of_char_less_256)
    then show ?thesis unfolding is_scalar_def by linarith
  qed
  then have "valid_str (str_lit s)"
    by (simp add: valid_str_def str_lit_def)
  then show ?thesis
    by (simp add: lit_def content_text_def valid_normalize)
qed

lemma trailing_whitespace_does_not_change_the_fingerprint:
  assumes "no_collision hasher [lit ''hello world'', lit '' hello world'', lit ''hello  world'']"
  shows "trailing_whitespace_does_not_change_the_fingerprint hasher"
proof -
  have "content_print hasher (lit '' hello world'') \<noteq> content_print hasher (lit ''hello world'')"
    and "content_print hasher (lit ''hello  world'') \<noteq> content_print hasher (lit ''hello world'')"
    using content_print_eq [OF assms, of "lit '' hello world''" "lit ''hello world''"]
      content_print_eq [OF assms, of "lit ''hello  world''" "lit ''hello world''"]
    by (simp_all add: valid_lit) (simp_all add: lit_def text_simps)
  then show ?thesis
    by (simp add: trailing_whitespace_does_not_change_the_fingerprint_def Let_def)
      (simp add: content_print_def lit_def text_simps)
qed

definition different_text_has_different_fingerprint :: "(hash_write list \<Rightarrow> u64) \<Rightarrow> bool" where
  "different_text_has_different_fingerprint hasher \<longleftrightarrow>
     (let a = lit ''hello''; b = lit ''hello!'' in content_print hasher a \<noteq> content_print hasher b)"

lemma different_text_has_different_fingerprint:
  assumes "no_collision hasher [lit ''hello'', lit ''hello!'']"
  shows "different_text_has_different_fingerprint hasher"
  unfolding different_text_has_different_fingerprint_def Let_def
  using content_print_eq [OF assms, of "lit ''hello''" "lit ''hello!''"]
  by (simp add: valid_lit) (simp add: lit_def text_simps)

definition image_requires_exact_pixel_buffer_length :: bool where
  "image_requires_exact_pixel_buffer_length \<longleftrightarrow>
     from_rgba 2 1 (replicate 8 0) \<noteq> None \<and> from_rgba 2 1 (replicate 7 0) = None \<and>
     from_rgba 2 1 (replicate 9 0) = None"

lemma from_rgba_small:
  "length rgba = unat w * unat h * 4 \<Longrightarrow> unat w * unat h * 4 < 2 ^ 64 \<Longrightarrow>
   from_rgba w h rgba = Some \<lparr>img_width = w, img_height = h, img_rgba = rgba\<rparr>"
  by (simp add: from_rgba_Some_iff)

lemma from_rgba_wrong:
  "length rgba \<noteq> unat w * unat h * 4 \<Longrightarrow> from_rgba w h rgba = None"
  using from_rgba_Some_iff [of w h rgba] by (cases "from_rgba w h rgba") auto

lemma image_requires_exact_pixel_buffer_length: "image_requires_exact_pixel_buffer_length"
  by (simp add: image_requires_exact_pixel_buffer_length_def from_rgba_small from_rgba_wrong)

definition images_differing_only_in_shape_have_different_fingerprints :: "(hash_write list \<Rightarrow> u64) \<Rightarrow> bool" where
  "images_differing_only_in_shape_have_different_fingerprints hasher \<longleftrightarrow>
     (let wide = rgba_image 2 1 (replicate 8 0); tall = rgba_image 1 2 (replicate 8 0)
      in content_print hasher wide \<noteq> content_print hasher tall)"

lemma images_differing_only_in_shape_have_different_fingerprints:
  assumes "no_collision hasher [rgba_image 2 1 (replicate 8 0), rgba_image 1 2 (replicate 8 0)]"
  shows "images_differing_only_in_shape_have_different_fingerprints hasher"
  unfolding images_differing_only_in_shape_have_different_fingerprints_def Let_def
  by (subst content_print_eq [OF assms]) (simp_all add: rgba_image_def from_rgba_small)

section \<open>Change detector\<close>

definition text_snapshot :: "string \<Rightarrow> snapshot" where
  "text_snapshot s = Content (lit s)"

definition image_snapshot :: "byte \<Rightarrow> snapshot" where
  "image_snapshot pixel = Content (rgba_image 1 1 (replicate 4 pixel))"

text \<open>What \<open>observe\<close> answers to one snapshot after the other, after a baseline.\<close>

fun answers :: "(hash_write list \<Rightarrow> u64) \<Rightarrow> change_detector \<Rightarrow> snapshot list \<Rightarrow> bool list" where
  "answers hasher d [] = []"
| "answers hasher d (s # ss) = (let (changed, d) = observe hasher d s in changed # answers hasher d ss)"

definition after_baseline :: "(hash_write list \<Rightarrow> u64) \<Rightarrow> snapshot \<Rightarrow> snapshot list \<Rightarrow> bool list" where
  "after_baseline hasher startup ss = answers hasher (baseline hasher detector_default startup) ss"

fun differs :: "snapshot \<Rightarrow> snapshot list \<Rightarrow> bool list" where
  "differs before [] = []"
| "differs before (s # ss) = (s \<noteq> Empty \<and> \<not> same_copy s before) # differs s ss"

lemma answers_differ:
  assumes "\<forall>s\<in>set (before # ss). valid_snapshot s"
    and "inj_on h (snapshot_writes ` set (before # ss))"
    and "det_last d = snapshot_fingerprint h before"
  shows "answers h d ss = differs before ss"
  using assms
proof (induction ss arbitrary: before d)
  case (Cons s ss)
  have "fst (observe h d s) \<longleftrightarrow> s \<noteq> Empty \<and> \<not> same_copy s before"
  proof (rule observe_is_change)
    show "inj_on h {snapshot_writes s, snapshot_writes before}"
      by (rule inj_on_subset [OF Cons.prems(2)]) auto
  qed (use Cons.prems in auto)
  moreover have "answers h (snd (observe h d s)) ss = differs s ss"
  proof (rule Cons.IH)
    show "inj_on h (snapshot_writes ` set (s # ss))"
      by (rule inj_on_subset [OF Cons.prems(2)]) auto
  qed (use Cons.prems in auto)
  ultimately show ?case
    by (cases "observe h d s") simp
qed simp

definition tells_apart :: "(hash_write list \<Rightarrow> u64) \<Rightarrow> snapshot list \<Rightarrow> bool" where
  "tells_apart hasher ss \<longleftrightarrow> inj_on hasher (snapshot_writes ` set ss)"

lemma after_baseline_differs:
  assumes "tells_apart h (startup # ss)" and "\<forall>s\<in>set (startup # ss). valid_snapshot s"
  shows "after_baseline h startup ss = differs startup ss"
  unfolding after_baseline_def
  using assms by (intro answers_differ) (simp_all add: tells_apart_def baseline_def)

lemma valid_test_snapshots: "valid_snapshot (text_snapshot s)" "valid_snapshot (image_snapshot p)"
  by (simp_all add: text_snapshot_def valid_lit image_snapshot_def rgba_image_def from_rgba_small)

lemma same_test_images [simp]: "same_copy (image_snapshot p) (image_snapshot q) \<longleftrightarrow> p = q"
  by (simp add: image_snapshot_def rgba_image_def from_rgba_small)

lemma same_test_kinds [simp]:
  "\<not> same_copy (image_snapshot p) (text_snapshot s)" "\<not> same_copy (text_snapshot s) (image_snapshot p)"
  "\<not> same_copy (text_snapshot s) (Skipped r)" "\<not> same_copy (Skipped r) (text_snapshot s)"
  "\<not> same_copy (text_snapshot s) Empty" "text_snapshot s \<noteq> Empty" "image_snapshot p \<noteq> Empty"
  by (simp_all add: image_snapshot_def rgba_image_def text_snapshot_def lit_def content_text_def)

lemma same_test_texts:
  "same_copy (text_snapshot s) (text_snapshot t) \<longleftrightarrow>
   trim_end (normalize_line_endings (str_lit s)) = trim_end (normalize_line_endings (str_lit t))"
  by (simp add: text_snapshot_def lit_def content_text_def)

definition baseline_is_not_a_change :: "(hash_write list \<Rightarrow> u64) \<Rightarrow> bool" where
  "baseline_is_not_a_change hasher \<longleftrightarrow>
     after_baseline hasher (text_snapshot ''a'') [text_snapshot ''a''] = [False]"

lemma baseline_is_not_a_change: "baseline_is_not_a_change hasher"
  by (simp add: baseline_is_not_a_change_def after_baseline_def observe_def baseline_def)

definition new_content_is_a_change_once :: "(hash_write list \<Rightarrow> u64) \<Rightarrow> bool" where
  "new_content_is_a_change_once hasher \<longleftrightarrow>
     after_baseline hasher Empty [text_snapshot ''a'', text_snapshot ''a'', text_snapshot ''b'']
     = [True, False, True]"

lemma new_content_is_a_change_once:
  assumes "tells_apart hasher [Empty, text_snapshot ''a'', text_snapshot ''a'', text_snapshot ''b'']"
  shows "new_content_is_a_change_once hasher"
  using after_baseline_differs [OF assms]
  by (simp add: new_content_is_a_change_once_def valid_test_snapshots same_test_texts text_simps)

definition empty_clipboard_is_not_a_change :: "(hash_write list \<Rightarrow> u64) \<Rightarrow> bool" where
  "empty_clipboard_is_not_a_change hasher \<longleftrightarrow> after_baseline hasher (text_snapshot ''a'') [Empty] = [False]"

lemma empty_clipboard_is_not_a_change: "empty_clipboard_is_not_a_change hasher"
  by (simp add: empty_clipboard_is_not_a_change_def after_baseline_def observe_def)

definition same_content_after_empty_is_a_change :: "(hash_write list \<Rightarrow> u64) \<Rightarrow> bool" where
  "same_content_after_empty_is_a_change hasher \<longleftrightarrow>
     after_baseline hasher (text_snapshot ''a'') [Empty, text_snapshot ''a''] = [False, True]"

lemma same_content_after_empty_is_a_change: "same_content_after_empty_is_a_change hasher"
  by (simp add: same_content_after_empty_is_a_change_def after_baseline_def observe_def text_snapshot_def)

definition line_ending_only_difference_is_not_a_change :: "(hash_write list \<Rightarrow> u64) \<Rightarrow> bool" where
  "line_ending_only_difference_is_not_a_change hasher \<longleftrightarrow>
     after_baseline hasher (Content (content_text (str_lit ''a'' @ [10] @ str_lit ''b'')))
       [Content (content_text (str_lit ''a'' @ crlf @ str_lit ''b''))] = [False]"

lemma line_ending_only_difference_is_not_a_change: "line_ending_only_difference_is_not_a_change hasher"
  by (simp add: line_ending_only_difference_is_not_a_change_def after_baseline_def observe_def baseline_def text_simps)

definition trailing_whitespace_only_difference_is_not_a_change :: "(hash_write list \<Rightarrow> u64) \<Rightarrow> bool" where
  "trailing_whitespace_only_difference_is_not_a_change hasher \<longleftrightarrow>
     after_baseline hasher (text_snapshot ''kidhr jaa rha hai ladle'')
       [text_snapshot ''kidhr jaa rha hai ladle '', Content (content_text (str_lit ''kidhr jaa rha hai ladle'' @ [10])),
        text_snapshot ''kidhr jaa rha hai ladle mt ja''] = [False, False, True]"

lemma trailing_whitespace_only_difference_is_not_a_change:
  assumes "tells_apart hasher [text_snapshot ''kidhr jaa rha hai ladle'', text_snapshot ''kidhr jaa rha hai ladle '',
      Content (content_text (str_lit ''kidhr jaa rha hai ladle'' @ [10])), text_snapshot ''kidhr jaa rha hai ladle mt ja'']"
  shows "trailing_whitespace_only_difference_is_not_a_change hasher"
  using after_baseline_differs [OF assms]
  by (simp add: trailing_whitespace_only_difference_is_not_a_change_def valid_test_snapshots text_snapshot_def lit_def
      text_simps valid_str_def is_scalar_def)

definition image_changes_are_detected_by_pixels :: "(hash_write list \<Rightarrow> u64) \<Rightarrow> bool" where
  "image_changes_are_detected_by_pixels hasher \<longleftrightarrow>
     after_baseline hasher (image_snapshot 0) [image_snapshot 0, image_snapshot 1] = [False, True]"

lemma image_changes_are_detected_by_pixels:
  assumes "tells_apart hasher [image_snapshot 0, image_snapshot 0, image_snapshot 1]"
  shows "image_changes_are_detected_by_pixels hasher"
  using after_baseline_differs [OF assms]
  by (simp add: image_changes_are_detected_by_pixels_def valid_test_snapshots)

definition text_and_image_are_distinct :: "(hash_write list \<Rightarrow> u64) \<Rightarrow> bool" where
  "text_and_image_are_distinct hasher \<longleftrightarrow>
     after_baseline hasher (text_snapshot ''a'') [image_snapshot 0, text_snapshot ''a''] = [True, True]"

lemma text_and_image_are_distinct:
  assumes "tells_apart hasher [text_snapshot ''a'', image_snapshot 0, text_snapshot ''a'']"
  shows "text_and_image_are_distinct hasher"
  using after_baseline_differs [OF assms]
  by (simp add: text_and_image_are_distinct_def valid_test_snapshots)

definition sensitive_content_is_reported_once_per_run :: "(hash_write list \<Rightarrow> u64) \<Rightarrow> bool" where
  "sensitive_content_is_reported_once_per_run hasher \<longleftrightarrow>
     after_baseline hasher (text_snapshot ''a'')
       [Skipped Sensitive, Skipped Sensitive, text_snapshot ''b'', Skipped Sensitive] = [True, False, True, True]"

lemma sensitive_content_is_reported_once_per_run:
  assumes "tells_apart hasher [text_snapshot ''a'', Skipped Sensitive, Skipped Sensitive, text_snapshot ''b'', Skipped Sensitive]"
  shows "sensitive_content_is_reported_once_per_run hasher"
  using after_baseline_differs [OF assms]
  by (simp add: sensitive_content_is_reported_once_per_run_def valid_test_snapshots)

section \<open>Holder\<close>

definition text_round_trips :: bool where
  "text_round_trips \<longleftrightarrow>
     (let content = content_text (str_lit ''h'' @ [0xE9] @ str_lit ''llo'' @ [10] @ str_lit ''world'')
      in holder_decode (holder_encode content) = Some content)"

lemma text_round_trips: "text_round_trips"
  unfolding text_round_trips_def Let_def
  by (rule holder_decode_encode) (simp add: text_simps valid_str_def is_scalar_def)

definition image_round_trips :: bool where
  "image_round_trips \<longleftrightarrow>
     (let content = rgba_image 2 1 [1, 2, 3, 4, 5, 6, 7, 8]
      in holder_decode (holder_encode content) = Some content)"

lemma image_round_trips: "image_round_trips"
  unfolding image_round_trips_def Let_def
  by (rule holder_decode_encode) (simp add: rgba_image_def from_rgba_small)

definition rejects_malformed_input :: bool where
  "rejects_malformed_input \<longleftrightarrow>
     holder_decode [] = None \<and>
     holder_decode (of_char CHR ''X'' # [0x31, 0x32, 0x33]) = None \<and>
     holder_decode (of_char CHR ''I'' # [1, 0, 0, 0]) = None \<and>
     holder_decode (of_char CHR ''I'' # [1, 0, 0, 0, 1, 0, 0, 0, 0]) = None \<and>
     holder_decode (of_char CHR ''T'' # [0xFF]) = None"

lemma one_le: "le_word [1, 0, 0, 0] = (1 :: u32)"
  by (simp add: le_word_def)

lemma rejects_malformed_input: "rejects_malformed_input"
  by (simp add: rejects_malformed_input_def holder_decode_def get_range_def get_from_def one_le from_rgba_wrong)
    (subst utf8_decode.simps, simp add: utf8_next_def)

section \<open>Schedule\<close>

definition checks_at_the_interval_without_notifications :: "nat \<Rightarrow> bool" where
  "checks_at_the_interval_without_notifications start \<longleftrightarrow>
     (let schedule = schedule_new start safety_check_interval;
          later = start + safety_check_interval
      in next_check schedule = start + safety_check_interval \<and>
         next_check (checked later schedule) = later + safety_check_interval)"

lemma checks_at_the_interval_without_notifications: "checks_at_the_interval_without_notifications start"
  by (simp add: checks_at_the_interval_without_notifications_def schedule_new_def checked_def next_check_def)

definition notification_brings_the_check_forward :: "nat \<Rightarrow> bool" where
  "notification_brings_the_check_forward start \<longleftrightarrow>
     (let schedule = schedule_new start safety_check_interval
      in next_check (notified (start + millis 100) schedule) = start + millis 100 + notify_debounce)"

lemma notification_brings_the_check_forward: "notification_brings_the_check_forward start"
  by (simp add: notification_brings_the_check_forward_def schedule_new_def notified_def next_check_def
      safety_check_interval_def notify_debounce_def secs_def millis_def)

definition burst_of_notifications_collapses_into_one_check :: "nat \<Rightarrow> bool" where
  "burst_of_notifications_collapses_into_one_check start \<longleftrightarrow>
     (let schedule = schedule_new start safety_check_interval;
          schedule = notified start schedule;
          schedule = notified (start + millis 5) schedule;
          schedule = notified (start + millis 10) schedule
      in next_check schedule = start + notify_debounce)"

lemma burst_of_notifications_collapses_into_one_check: "burst_of_notifications_collapses_into_one_check start"
  by (simp add: burst_of_notifications_collapses_into_one_check_def schedule_new_def notified_def next_check_def
      safety_check_interval_def notify_debounce_def secs_def millis_def Let_def)

definition notification_never_delays_an_earlier_check :: "nat \<Rightarrow> bool" where
  "notification_never_delays_an_earlier_check start \<longleftrightarrow>
     (let schedule = schedule_new start (millis 10)
      in next_check (notified (start + millis 5) schedule) = start + millis 10)"

lemma notification_never_delays_an_earlier_check: "notification_never_delays_an_earlier_check start"
  by (simp add: notification_never_delays_an_earlier_check_def schedule_new_def notified_def next_check_def
      notify_debounce_def millis_def)

section \<open>Private markers\<close>

definition detects_password_manager_markers :: bool where
  "detects_password_manager_markers \<longleftrightarrow>
     has_private_marker [str_lit ''text/plain'', str_lit ''x-kde-passwordManagerHint''] \<and>
     has_private_marker [str_lit ''public.utf8-plain-text'', str_lit ''org.nspasteboard.ConcealedType''] \<and>
     has_private_marker [str_lit ''org.nspasteboard.TransientType'']"

lemma detects_password_manager_markers: "detects_password_manager_markers"
  by (simp add: detects_password_manager_markers_def has_private_marker_def private_format_names_def)

lemma str_lit_eq: "str_lit s = str_lit t \<longleftrightarrow> s = t"
  by (simp add: str_lit_def inj_map_eq_map [OF inj_of_char])

definition ordinary_formats_are_not_private :: bool where
  "ordinary_formats_are_not_private \<longleftrightarrow>
     \<not> has_private_marker [str_lit ''text/plain;charset=utf-8'', str_lit ''text/html'', str_lit ''image/png''] \<and>
     \<not> has_private_marker []"

lemma ordinary_formats_are_not_private: "ordinary_formats_are_not_private"
  by (simp add: ordinary_formats_are_not_private_def has_private_marker_def private_format_names_def str_lit_eq)

definition marker_match_is_exact :: bool where
  "marker_match_is_exact \<longleftrightarrow>
     \<not> has_private_marker [str_lit ''x-kde-passwordManagerHint-extra''] \<and>
     \<not> has_private_marker [str_lit ''X-KDE-PASSWORDMANAGERHINT'']"

lemma marker_match_is_exact: "marker_match_is_exact"
  by (simp add: marker_match_is_exact_def has_private_marker_def private_format_names_def str_lit_eq)

end
