(* ===== verification/Sync_Tests.thy ===== *)
theory Sync_Tests
  imports Sync_Network Clipboard_Tests
begin

text \<open>
  The tests of \<open>crates/cled-sync\<close>: the modules \<open>tests\<close> of \<open>ids.rs\<close>, \<open>item.rs\<close>, \<open>recent.rs\<close> and
  \<open>engine.rs\<close>, and those of \<open>tests/simulation.rs\<close>, as definitions of the same names. Identifiers,
  times and BLAKE3 are arguments, so each lemma covers every run of its test: what the test draws
  at random (\<open>DeviceId::new_random\<close>, \<open>ItemId::new\<close>) is any identifier, with the distinctness the
  test relies on as a hypothesis.
\<close>

section \<open>Identifiers\<close>

definition device_id_round_trips_through_text ::
  "(128 word \<Rightarrow> rstr) \<Rightarrow> (rstr \<Rightarrow> 128 word option) \<Rightarrow> device_id \<Rightarrow> bool" where
  "device_id_round_trips_through_text fmt parse i \<longleftrightarrow>
     device_id_from_str parse (device_id_fmt fmt i) = Some i \<and>
     device_id_from_str parse ([32] @ device_id_fmt fmt i @ [10]) = Some i"

text \<open>The text of a UUID has no white space and parses as that UUID.\<close>

lemma trim_surrounded:
  "\<forall>c\<in>set s. \<not> is_whitespace c \<Longrightarrow> trim s = s \<and> trim ([32] @ s @ [10]) = s"
proof -
  assume s: "\<forall>c\<in>set s. \<not> is_whitespace c"
  have drop: "dropWhile is_whitespace t = t" if "set t \<subseteq> set s" for t
    using s that by (cases t) auto
  have "is_whitespace 10" "is_whitespace 32"
    by (simp_all add: is_whitespace_def)
  then show ?thesis
    using drop [of s] drop [of "rev s"]
    by (cases s) (auto simp: trim_def trim_end_def dropWhile_append)
qed

lemma device_id_round_trips_through_text:
  assumes "parse (fmt (device_uuid i)) = Some (device_uuid i)"
    and "\<forall>c\<in>set (fmt (device_uuid i)). \<not> is_whitespace c"
  shows "device_id_round_trips_through_text fmt parse i"
  using assms trim_surrounded [OF assms(2)]
  by (simp add: device_id_round_trips_through_text_def device_id_from_str_def device_id_fmt_def)

definition ids_round_trip_through_bytes :: "device_id \<Rightarrow> item_id \<Rightarrow> bool" where
  "ids_round_trip_through_bytes device item \<longleftrightarrow>
     device_id_from_bytes (device_id_to_bytes device) = device \<and>
     item_id_from_bytes (item_id_to_bytes item) = item"

lemma ids_round_trip_through_bytes: "ids_round_trip_through_bytes device item"
  by (simp add: ids_round_trip_through_bytes_def)

section \<open>Items\<close>

text \<open>BLAKE3 tells contents apart when it does not collide on the bytes they feed to it.\<close>

definition tells_contents :: "(byte list \<Rightarrow> byte list) \<Rightarrow> content list \<Rightarrow> bool" where
  "tells_contents b cs \<longleftrightarrow> inj_on b (hash_input ` set cs)"

lemma content_hash_eq:
  assumes "tells_contents b cs" and "c \<in> set cs" and "d \<in> set cs" and "valid_content c" and "valid_content d"
  shows "content_hash_of b c = content_hash_of b d \<longleftrightarrow> same_copy (Content c) (Content d)"
  using assms inj_on_eq_iff [of b "hash_input ` set cs" "hash_input c" "hash_input d"]
  by (simp add: content_hash_of_def tells_contents_def hash_input_same_copy)

lemma lit_hash_eq:
  assumes "tells_contents b cs" and "lit s \<in> set cs" and "lit t \<in> set cs"
  shows "content_hash_of b (lit s) = content_hash_of b (lit t)
    \<longleftrightarrow> trim_end (normalize_line_endings (str_lit s)) = trim_end (normalize_line_endings (str_lit t))"
  using content_hash_eq [OF assms] by (simp add: valid_lit) (simp add: lit_def content_text_def)

definition hash_ignores_line_ending_style :: "(byte list \<Rightarrow> byte list) \<Rightarrow> bool" where
  "hash_ignores_line_ending_style b \<longleftrightarrow>
     content_hash_of b (content_text (str_lit ''a'' @ crlf @ str_lit ''b''))
     = content_hash_of b (content_text (str_lit ''a'' @ [10] @ str_lit ''b''))"

lemma hash_ignores_line_ending_style: "hash_ignores_line_ending_style b"
  by (simp add: hash_ignores_line_ending_style_def text_simps)

definition hash_ignores_trailing_whitespace :: "(byte list \<Rightarrow> byte list) \<Rightarrow> bool" where
  "hash_ignores_trailing_whitespace b \<longleftrightarrow>
     content_hash_of b (lit ''mt ja'') = content_hash_of b (content_text (str_lit ''mt ja '' @ [10])) \<and>
     content_hash_of b (lit ''mt ja'') \<noteq> content_hash_of b (lit '' mt ja'')"

lemma hash_ignores_trailing_whitespace:
  assumes "tells_contents b [lit ''mt ja'', lit '' mt ja'']"
  shows "hash_ignores_trailing_whitespace b"
proof -
  have "content_hash_of b (lit ''mt ja'') \<noteq> content_hash_of b (lit '' mt ja'')"
    using lit_hash_eq [OF assms, of "''mt ja''" "'' mt ja''"] by (simp add: text_simps)
  then show ?thesis
    by (simp add: hash_ignores_trailing_whitespace_def)
      (simp add: content_hash_of_def lit_def text_simps)
qed

definition hash_distinguishes_content :: "(byte list \<Rightarrow> byte list) \<Rightarrow> bool" where
  "hash_distinguishes_content b \<longleftrightarrow> content_hash_of b (lit ''a'') \<noteq> content_hash_of b (lit ''b'')"

lemma hash_distinguishes_content:
  assumes "tells_contents b [lit ''a'', lit ''b'']"
  shows "hash_distinguishes_content b"
  using lit_hash_eq [OF assms, of "''a''" "''b''"] by (simp add: hash_distinguishes_content_def text_simps)

definition hash_distinguishes_image_shape :: "(byte list \<Rightarrow> byte list) \<Rightarrow> bool" where
  "hash_distinguishes_image_shape b \<longleftrightarrow>
     (let wide = rgba_image 2 1 (replicate 8 0); tall = rgba_image 1 2 (replicate 8 0)
      in content_hash_of b wide \<noteq> content_hash_of b tall)"

lemma hash_distinguishes_image_shape:
  assumes "tells_contents b [rgba_image 2 1 (replicate 8 0), rgba_image 1 2 (replicate 8 0)]"
  shows "hash_distinguishes_image_shape b"
  using content_hash_eq [OF assms, of "rgba_image 2 1 (replicate 8 0)" "rgba_image 1 2 (replicate 8 0)"]
  by (simp add: hash_distinguishes_image_shape_def rgba_image_def from_rgba_small)

definition corrupted_item_is_detected :: "(byte list \<Rightarrow> byte list) \<Rightarrow> item_id \<Rightarrow> int \<Rightarrow> device_id \<Rightarrow> bool" where
  "corrupted_item_is_detected b fresh now device \<longleftrightarrow>
     (let item = item_new b fresh now device (lit ''original'')
      in is_intact b item \<and> \<not> is_intact b (item\<lparr>it_content := lit ''tampered''\<rparr>))"

lemma tampered_hash:
  assumes "tells_contents b [lit ''original'', lit ''tampered'']"
  shows "content_hash_of b (lit ''tampered'') \<noteq> content_hash_of b (lit ''original'')"
  using lit_hash_eq [OF assms, of "''tampered''" "''original''"] by (simp add: text_simps)

lemma corrupted_item_is_detected:
  assumes "tells_contents b [lit ''original'', lit ''tampered'']"
  shows "corrupted_item_is_detected b fresh now device"
  using tampered_hash [OF assms] by (simp add: corrupted_item_is_detected_def is_intact_def)

section \<open>Recent items\<close>

definition reports_repeats :: "'a \<Rightarrow> bool" where
  "reports_repeats one \<longleftrightarrow>
     (let set = recent_new 3; (first, set) = recent_insert one set; (second, set) = recent_insert one set
      in first \<and> \<not> second)"

lemma reports_repeats: "reports_repeats one"
  by (simp add: reports_repeats_def recent_new_def recent_insert_def)

definition forgets_oldest_beyond_capacity :: bool where
  "forgets_oldest_beyond_capacity \<longleftrightarrow>
     (let set = recent_new 2 :: nat recent_set; set = snd (recent_insert 1 set); set = snd (recent_insert 2 set);
          set = snd (recent_insert 3 set); (one, set) = recent_insert 1 set; (three, set) = recent_insert 3 set
      in one \<and> \<not> three)"

lemma forgets_oldest_beyond_capacity: "forgets_oldest_beyond_capacity"
  by (simp add: forgets_oldest_beyond_capacity_def recent_new_def recent_insert_def Let_def)

section \<open>Engine\<close>

text \<open>An item that another device made, and the item of a change that must be a copy.\<close>

definition test_item ::
  "(byte list \<Rightarrow> byte list) \<Rightarrow> item_id \<Rightarrow> int \<Rightarrow> device_id \<Rightarrow> content \<Rightarrow> clipboard_item" where
  "test_item b i t origin content = item_new b i t origin content"

definition copied_of :: "local_change \<Rightarrow> clipboard_item option" where
  "copied_of change = (case change of Copied item \<Rightarrow> Some item | Echo _ \<Rightarrow> None)"

definition local_copy_becomes_an_item_from_this_device ::
  "(byte list \<Rightarrow> byte list) \<Rightarrow> item_id \<Rightarrow> int \<Rightarrow> device_id \<Rightarrow> bool" where
  "local_copy_becomes_an_item_from_this_device b fresh now device \<longleftrightarrow>
     (case copied_of (fst (on_local_change b fresh now (lit ''hello'') (engine_new device))) of
        None \<Rightarrow> False
      | Some item \<Rightarrow> it_origin item = device \<and> it_content item = lit ''hello'')"

lemma local_copy_becomes_an_item_from_this_device: "local_copy_becomes_an_item_from_this_device b fresh now device"
  by (simp add: local_copy_becomes_an_item_from_this_device_def copied_of_def engine_new_def engine_cases)

definition remote_write_comes_back_as_echo_not_copy ::
  "(byte list \<Rightarrow> byte list) \<Rightarrow> item_id \<Rightarrow> int \<Rightarrow> item_id \<Rightarrow> int \<Rightarrow> device_id \<Rightarrow> device_id \<Rightarrow> bool" where
  "remote_write_comes_back_as_echo_not_copy b i t fresh now device other \<longleftrightarrow>
     (let item = test_item b i t other (lit ''from afar'');
          (remote, engine) = on_remote_item b item (engine_new device);
          (change, engine) = on_local_change b fresh now (lit ''from afar'') engine
      in remote = Write (lit ''from afar'') \<and> change = Echo item)"

lemmas engine_test_simps = engine_cases engine_new_def test_item_def recent_new_def recent_insert_def recent_items_def
  copied_of_def

lemma remote_write_comes_back_as_echo_not_copy:
  "other \<noteq> device \<Longrightarrow> remote_write_comes_back_as_echo_not_copy b i t fresh now device other"
  by (simp add: remote_write_comes_back_as_echo_not_copy_def engine_test_simps)

definition echo_expectation_does_not_outlive_the_next_change ::
  "(byte list \<Rightarrow> byte list) \<Rightarrow> item_id \<Rightarrow> int \<Rightarrow> (nat \<Rightarrow> item_id \<times> int) \<Rightarrow> device_id \<Rightarrow> device_id \<Rightarrow> bool" where
  "echo_expectation_does_not_outlive_the_next_change b i t mint device other \<longleftrightarrow>
     (let engine = snd (on_remote_item b (test_item b i t other (lit ''remote'')) (engine_new device));
          (first, engine) = on_local_change b (fst (mint 0)) (snd (mint 0)) (lit ''user copy'') engine;
          (second, engine) = on_local_change b (fst (mint 1)) (snd (mint 1)) (lit ''remote'') engine
      in copied_of first \<noteq> None \<and> copied_of second \<noteq> None)"

lemma echo_expectation_does_not_outlive_the_next_change:
  assumes "other \<noteq> device" and "tells_contents b [lit ''remote'', lit ''user copy'']"
  shows "echo_expectation_does_not_outlive_the_next_change b i t mint device other"
proof -
  have "content_hash_of b (lit ''remote'') \<noteq> content_hash_of b (lit ''user copy'')"
    using lit_hash_eq [OF assms(2), of "''remote''" "''user copy''"] by (simp add: text_simps)
  with assms(1) show ?thesis
    by (simp add: echo_expectation_does_not_outlive_the_next_change_def engine_test_simps)
qed

definition failed_write_clears_the_echo_expectation ::
  "(byte list \<Rightarrow> byte list) \<Rightarrow> item_id \<Rightarrow> int \<Rightarrow> item_id \<Rightarrow> int \<Rightarrow> device_id \<Rightarrow> device_id \<Rightarrow> bool" where
  "failed_write_clears_the_echo_expectation b i t fresh now device other \<longleftrightarrow>
     (let engine = snd (on_remote_item b (test_item b i t other (lit ''remote'')) (engine_new device));
          engine = on_write_failed engine
      in copied_of (fst (on_local_change b fresh now (lit ''remote'') engine)) \<noteq> None)"

lemma failed_write_clears_the_echo_expectation:
  "failed_write_clears_the_echo_expectation b i t fresh now device other"
  by (simp add: failed_write_clears_the_echo_expectation_def on_write_failed_def)
    (simp add: on_local_change_def copied_of_def Let_def)

definition own_items_are_ignored :: "(byte list \<Rightarrow> byte list) \<Rightarrow> item_id \<Rightarrow> int \<Rightarrow> device_id \<Rightarrow> bool" where
  "own_items_are_ignored b fresh now device \<longleftrightarrow>
     (let (change, engine) = on_local_change b fresh now (lit ''mine'') (engine_new device)
      in case copied_of change of
           None \<Rightarrow> False
         | Some item \<Rightarrow> fst (on_remote_item b item engine) = Ignore OwnItem)"

lemma own_items_are_ignored: "own_items_are_ignored b fresh now device"
  by (simp add: own_items_are_ignored_def engine_test_simps)

definition duplicates_are_ignored ::
  "(byte list \<Rightarrow> byte list) \<Rightarrow> item_id \<Rightarrow> int \<Rightarrow> device_id \<Rightarrow> device_id \<Rightarrow> bool" where
  "duplicates_are_ignored b i t device other \<longleftrightarrow>
     (let item = test_item b i t other (lit ''once'');
          (first, engine) = on_remote_item b item (engine_new device);
          (second, engine) = on_remote_item b item engine
      in (\<exists>c. first = Write c) \<and> second = Ignore Duplicate)"

lemma duplicates_are_ignored: "other \<noteq> device \<Longrightarrow> duplicates_are_ignored b i t device other"
  by (simp add: duplicates_are_ignored_def engine_test_simps)

definition corrupt_items_are_ignored ::
  "(byte list \<Rightarrow> byte list) \<Rightarrow> item_id \<Rightarrow> int \<Rightarrow> device_id \<Rightarrow> device_id \<Rightarrow> bool" where
  "corrupt_items_are_ignored b i t device other \<longleftrightarrow>
     (let item = (test_item b i t other (lit ''original''))\<lparr>it_content := lit ''tampered''\<rparr>
      in fst (on_remote_item b item (engine_new device)) = Ignore Corrupt)"

lemma corrupt_items_are_ignored:
  assumes "other \<noteq> device" and "tells_contents b [lit ''original'', lit ''tampered'']"
  shows "corrupt_items_are_ignored b i t device other"
  using assms(1) tampered_hash [OF assms(2)]
  by (simp add: corrupt_items_are_ignored_def engine_test_simps is_intact_def)

definition content_already_on_clipboard_is_not_rewritten ::
  "(byte list \<Rightarrow> byte list) \<Rightarrow> item_id \<Rightarrow> int \<Rightarrow> item_id \<Rightarrow> int \<Rightarrow> device_id \<Rightarrow> device_id \<Rightarrow> bool" where
  "content_already_on_clipboard_is_not_rewritten b fresh now i t device other \<longleftrightarrow>
     (let (change, engine) = on_local_change b fresh now (lit ''same'') (engine_new device);
          item = test_item b i t other (lit ''same'')
      in copied_of change \<noteq> None \<and> fst (on_remote_item b item engine) = Ignore AlreadyOnClipboard)"

text \<open>The second item is made after the first one.\<close>

lemma content_already_on_clipboard_is_not_rewritten:
  "other \<noteq> device \<Longrightarrow> (now, fresh) < (t, i) \<Longrightarrow> i \<noteq> fresh \<Longrightarrow>
   content_already_on_clipboard_is_not_rewritten b fresh now i t device other"
  by (auto simp: content_already_on_clipboard_is_not_rewritten_def engine_test_simps is_newer_than_def current_of_def)

definition echo_is_recognized_when_the_os_adds_a_trailing_newline ::
  "(byte list \<Rightarrow> byte list) \<Rightarrow> item_id \<Rightarrow> int \<Rightarrow> item_id \<Rightarrow> int \<Rightarrow> device_id \<Rightarrow> device_id \<Rightarrow> bool" where
  "echo_is_recognized_when_the_os_adds_a_trailing_newline b i t fresh now device other \<longleftrightarrow>
     (let item = test_item b i t other (lit ''from afar'');
          engine = snd (on_remote_item b item (engine_new device))
      in fst (on_local_change b fresh now (content_text (str_lit ''from afar'' @ [10])) engine) = Echo item)"

lemma trailing_newline_hash:
  "content_hash_of b (content_text (str_lit ''from afar'' @ [10])) = content_hash_of b (lit ''from afar'')"
  by (simp add: content_hash_of_def lit_def text_simps)

lemma echo_is_recognized_when_the_os_adds_a_trailing_newline:
  "other \<noteq> device \<Longrightarrow> echo_is_recognized_when_the_os_adds_a_trailing_newline b i t fresh now device other"
  by (simp add: echo_is_recognized_when_the_os_adds_a_trailing_newline_def engine_test_simps trailing_newline_hash)

definition older_items_lose_to_the_clipboard ::
  "(byte list \<Rightarrow> byte list) \<Rightarrow> item_id \<Rightarrow> int \<Rightarrow> item_id \<Rightarrow> int \<Rightarrow> device_id \<Rightarrow> device_id \<Rightarrow> bool" where
  "older_items_lose_to_the_clipboard b i t fresh now device other \<longleftrightarrow>
     (let item = test_item b i t other (lit ''old'');
          old = item\<lparr>it_created := it_created item - int (secs 10)\<rparr>;
          (change, engine) = on_local_change b fresh now (lit ''new'') (engine_new device)
      in copied_of change \<noteq> None \<and> fst (on_remote_item b old engine) = Ignore Stale)"

lemma older_items_lose_to_the_clipboard:
  "other \<noteq> device \<Longrightarrow> t < now + int (secs 10) \<Longrightarrow> i \<noteq> fresh \<Longrightarrow>
   older_items_lose_to_the_clipboard b i t fresh now device other"
  by (simp add: older_items_lose_to_the_clipboard_def engine_test_simps is_newer_than_def current_of_def is_intact_def)

end
