(* ===== verification/Sim_Tests.thy ===== *)
theory Sim_Tests
  imports Sync_Tests
begin

text \<open>
  The tests of \<open>crates/cled-sync/tests/simulation.rs\<close> on the network of theory \<open>Sync_Network\<close>, as
  definitions of the same names. Device identifiers, the identifiers and times of items (\<open>mint\<close>) and
  BLAKE3 are arguments; the devices differ, items are minted in order, and BLAKE3 does not collide on
  the texts of a test.
\<close>

section \<open>What the tests do\<close>

definition copy :: "(byte list \<Rightarrow> byte list) \<Rightarrow> (nat \<Rightarrow> item_id \<times> int) \<Rightarrow> nat \<Rightarrow> string \<Rightarrow> network \<Rightarrow> network" where
  "copy b mint at s net = set_clipboard b mint at (lit s) net"

text \<open>\<open>assert_all\<close>, after \<open>settle\<close>.\<close>

definition assert_all :: "string \<Rightarrow> network \<Rightarrow> bool" where
  "assert_all s net \<longleftrightarrow> (\<forall>d\<in>set (net_devices net). sim_clipboard d = Some (lit s))"

definition settled :: "(byte list \<Rightarrow> byte list) \<Rightarrow> (nat \<Rightarrow> item_id \<times> int) \<Rightarrow> (network \<Rightarrow> bool) \<Rightarrow> network \<Rightarrow> bool" where
  "settled b mint P net = (case settle b mint 0 net of None \<Rightarrow> False | Some net \<Rightarrow> P net)"

definition copy_reaches_the_other_device_and_is_not_sent_back ::
  "(byte list \<Rightarrow> byte list) \<Rightarrow> (nat \<Rightarrow> item_id \<times> int) \<Rightarrow> device_id list \<Rightarrow> bool" where
  "copy_reaches_the_other_device_and_is_not_sent_back b mint ids \<longleftrightarrow>
     settled b mint (\<lambda>net. assert_all ''hello'' net \<and> net_sent net = 1) (copy b mint 0 ''hello'' (net_new ids))"

definition three_devices_do_not_cycle ::
  "(byte list \<Rightarrow> byte list) \<Rightarrow> (nat \<Rightarrow> item_id \<times> int) \<Rightarrow> device_id list \<Rightarrow> bool" where
  "three_devices_do_not_cycle b mint ids \<longleftrightarrow>
     settled b mint (\<lambda>net. assert_all ''hello'' net \<and> net_sent net = 2) (copy b mint 0 ''hello'' (net_new ids))"

definition windows_line_endings_do_not_cause_an_echo ::
  "(byte list \<Rightarrow> byte list) \<Rightarrow> (nat \<Rightarrow> item_id \<times> int) \<Rightarrow> device_id list \<Rightarrow> bool" where
  "windows_line_endings_do_not_cause_an_echo b mint ids \<longleftrightarrow>
     (let one = str_lit ''line one''; two = str_lit ''line two'';
          net = set_clipboard b mint 0 (content_text (one @ [10] @ two)) (net_new ids);
          net = snd (deliver_one b mint net);
          net = set_clipboard b mint 1 (content_text (one @ crlf @ two)) net
      in settled b mint (\<lambda>net. net_sent net = 1) net)"

definition duplicate_delivery_is_applied_once ::
  "(byte list \<Rightarrow> byte list) \<Rightarrow> (nat \<Rightarrow> item_id \<times> int) \<Rightarrow> device_id list \<Rightarrow> bool" where
  "duplicate_delivery_is_applied_once b mint ids \<longleftrightarrow>
     (let net = copy b mint 0 ''once'' (net_new ids); (to, item) = hd (net_in_flight net)
      in settled b mint (\<lambda>net. let net = net_receive b mint to item net
                               in sim_writes (net_devices net ! 1) = 1 \<and> assert_all ''once'' net) net)"

definition simultaneous_copies_converge_on_the_newer_one ::
  "(byte list \<Rightarrow> byte list) \<Rightarrow> (nat \<Rightarrow> item_id \<times> int) \<Rightarrow> device_id list \<Rightarrow> bool" where
  "simultaneous_copies_converge_on_the_newer_one b mint ids \<longleftrightarrow>
     settled b mint (assert_all ''newer'') (copy b mint 1 ''newer'' (copy b mint 0 ''older'' (net_new ids)))"

definition receiving_what_is_already_there_does_not_rewrite_the_clipboard ::
  "(byte list \<Rightarrow> byte list) \<Rightarrow> (nat \<Rightarrow> item_id \<times> int) \<Rightarrow> device_id list \<Rightarrow> bool" where
  "receiving_what_is_already_there_does_not_rewrite_the_clipboard b mint ids \<longleftrightarrow>
     (let net = copy b mint 1 ''same'' (net_new ids); net = net\<lparr>net_in_flight := []\<rparr>
      in settled b mint (\<lambda>net. sim_writes (net_devices net ! 1) = 0 \<and> assert_all ''same'' net)
           (copy b mint 0 ''same'' net))"

section \<open>They pass\<close>

lemma settle_done: "net_in_flight net = [] \<Longrightarrow> settle b mint k net = Some net"
  by (subst settle.simps) (simp add: deliver_one_def)

lemma settle_next:
  "net_in_flight net = (to, item) # rest \<Longrightarrow> Suc k < max_deliveries \<Longrightarrow>
   settle b mint k net = settle b mint (Suc k) (net_receive b mint to item (net\<lparr>net_in_flight := rest\<rparr>))"
  by (subst settle.simps) (simp add: deliver_one_def)

lemmas run_simps = settled_def settle_done settle_next max_deliveries_def copy_def set_clipboard_def net_new_def
  broadcast_def net_receive_def deliver_one_def assert_all_def Let_def upt_rec [of 0] upt_rec [of "Suc 0"]
  upt_rec [of "Suc (Suc 0)"] upt_rec [of "Suc (Suc (Suc 0))"] case_prod_beta

lemmas device_simps = engine_cases engine_new_def recent_new_def recent_insert_def recent_items_def is_newer_than_def
  current_of_def item_new_def is_intact_def

lemma copy_reaches_the_other_device_and_is_not_sent_back:
  "a \<noteq> d \<Longrightarrow> copy_reaches_the_other_device_and_is_not_sent_back b mint [a, d]"
  unfolding copy_reaches_the_other_device_and_is_not_sent_back_def
  by (simp add: run_simps device_simps)

lemma three_devices_do_not_cycle:
  "distinct [a, d, e] \<Longrightarrow> three_devices_do_not_cycle b mint [a, d, e]"
  unfolding three_devices_do_not_cycle_def
  by (simp add: run_simps device_simps)

lemma crlf_same: "content_text (str_lit ''line one'' @ crlf @ str_lit ''line two'')
  = content_text (str_lit ''line one'' @ [10] @ str_lit ''line two'')"
  by (simp add: text_simps)

lemma windows_line_endings_do_not_cause_an_echo:
  "a \<noteq> d \<Longrightarrow> windows_line_endings_do_not_cause_an_echo b mint [a, d]"
  unfolding windows_line_endings_do_not_cause_an_echo_def Let_def crlf_same
  by (simp add: run_simps device_simps)

lemma duplicate_delivery_is_applied_once:
  "a \<noteq> d \<Longrightarrow> duplicate_delivery_is_applied_once b mint [a, d]"
  unfolding duplicate_delivery_is_applied_once_def
  by (simp add: run_simps device_simps)

lemma simultaneous_copies_converge_on_the_newer_one:
  assumes "a \<noteq> d" and "good_mint mint 2" and "tells_contents b [lit ''older'', lit ''newer'']"
  shows "simultaneous_copies_converge_on_the_newer_one b mint [a, d]"
proof -
  have "content_hash_of b (lit ''older'') \<noteq> content_hash_of b (lit ''newer'')"
    using lit_hash_eq [OF assms(3), of "''older''" "''newer''"] by (simp add: text_simps)
  moreover have "(snd (mint 0), fst (mint 0)) < (snd (mint 1), fst (mint 1))"
    using good_mint_less [of mint 1 0] assms(2) by (simp add: mint_key_def numeral_2_eq_2)
  moreover have "fst (mint 0) \<noteq> fst (mint 1)"
    using good_mint_id [of mint 1 0] assms(2) by (simp add: numeral_2_eq_2)
  ultimately show ?thesis
    using assms(1) unfolding simultaneous_copies_converge_on_the_newer_one_def
    by (simp add: run_simps device_simps less_not_sym) (auto simp: lit_def text_simps)
qed

lemma receiving_what_is_already_there_does_not_rewrite_the_clipboard:
  assumes "a \<noteq> d" and "good_mint mint 2"
  shows "receiving_what_is_already_there_does_not_rewrite_the_clipboard b mint [a, d]"
proof -
  have "(snd (mint 0), fst (mint 0)) < (snd (mint 1), fst (mint 1))"
    using good_mint_less [of mint 1 0] assms(2) by (simp add: mint_key_def numeral_2_eq_2)
  moreover have "fst (mint 0) \<noteq> fst (mint 1)"
    using good_mint_id [of mint 1 0] assms(2) by (simp add: numeral_2_eq_2)
  ultimately show ?thesis
    using assms(1) unfolding receiving_what_is_already_there_does_not_rewrite_the_clipboard_def
    by (simp add: run_simps device_simps less_not_sym)
qed

end
