(* ===== verification/Lan_Tests.thy ===== *)
theory Lan_Tests
  imports Node_Protocol Sync_Tests
begin

text \<open>
  The modules \<open>tests\<close> of \<open>addr.rs\<close>, \<open>code.rs\<close>, \<open>keys.rs\<close>, \<open>wire.rs\<close> and \<open>node.rs\<close> of
  \<open>crates/cled-lan\<close>, as definitions of the same names; those of \<open>peers.rs\<close> are in \<open>Peers_Tests\<close>.
  Random bytes, keys, identifiers and the codecs are arguments.
\<close>

section \<open>Addresses\<close>

definition wifi :: "u32 \<times> u32" where
  "wifi = (v4_addr 192 168 1 20, v4_addr 255 255 255 0)"

definition test_v4 :: "nat \<Rightarrow> nat \<Rightarrow> nat \<Rightarrow> nat \<Rightarrow> socket_addr" where
  "test_v4 a b c d = V4 (v4_addr a b c d) 4000"

definition link_local_v6 :: "u32 \<Rightarrow> socket_addr" where
  "link_local_v6 scope = V6 0xFE80000000000000085A3E9C172E87A3 4000 0 scope"

definition same_subnet_ipv4_beats_docker_bridges :: bool where
  "same_subnet_ipv4_beats_docker_bridges \<longleftrightarrow>
     hd (rank_with [test_v4 172 17 0 1, test_v4 172 20 0 1, test_v4 192 168 1 34] [wifi]) = test_v4 192 168 1 34"

definition ipv4_beats_link_local_ipv6 :: bool where
  "ipv4_beats_link_local_ipv6 \<longleftrightarrow>
     rank_with [link_local_v6 3, test_v4 192 168 1 40] [wifi] = [test_v4 192 168 1 40, link_local_v6 3]"

definition link_local_ipv6_without_scope_is_tried_last :: bool where
  "link_local_ipv6_without_scope_is_tried_last \<longleftrightarrow>
     rank_with [link_local_v6 0, link_local_v6 3] [] = [link_local_v6 3, link_local_v6 0]"

definition duplicates_are_removed :: bool where
  "duplicates_are_removed \<longleftrightarrow>
     length (rank_with [test_v4 192 168 1 40, test_v4 192 168 1 40] [wifi]) = 1"

definition subnet_math :: bool where
  "subnet_math \<longleftrightarrow>
     (let netmask = v4_addr 255 255 255 0
      in same_subnet (v4_addr 192 168 1 9) (fst wifi) netmask \<and>
         \<not> same_subnet (v4_addr 192 168 2 9) (fst wifi) netmask \<and>
         \<not> same_subnet (v4_addr 10 0 0 1) (fst wifi) 0)"

lemmas addr_simps = rank_with_def wifi_def test_v4_def link_local_v6_def v4_addr_def v4_octet1_def v4_octet2_def
  v4_is_loopback_def v4_is_link_local_def v4_is_private_def v6_is_loopback_def v6_is_unicast_link_local_def
  same_subnet_def

lemma same_subnet_ipv4_beats_docker_bridges: "same_subnet_ipv4_beats_docker_bridges"
  by (simp add: same_subnet_ipv4_beats_docker_bridges_def addr_simps)

lemma ipv4_beats_link_local_ipv6: "ipv4_beats_link_local_ipv6"
  by (simp add: ipv4_beats_link_local_ipv6_def addr_simps)

lemma link_local_ipv6_without_scope_is_tried_last: "link_local_ipv6_without_scope_is_tried_last"
  by (simp add: link_local_ipv6_without_scope_is_tried_last_def addr_simps)

lemma duplicates_are_removed: "duplicates_are_removed"
  by (simp add: duplicates_are_removed_def addr_simps)

lemma subnet_math: "subnet_math"
  by (simp add: subnet_math_def addr_simps)

section \<open>Pairing codes\<close>

definition generated_codes_are_well_formed_and_vary :: "byte list \<Rightarrow> byte list \<Rightarrow> bool" where
  "generated_codes_are_well_formed_and_vary random1 random2 \<longleftrightarrow>
     (case (code_generate (Ok random1), code_generate (Ok random2)) of
        (Inr a, Inr b) \<Rightarrow> a \<noteq> b \<and> length (code_fmt a) = 9 \<and> code_parse (code_fmt a) = Ok a
      | _ \<Rightarrow> False)"

lemma generated_codes_are_well_formed_and_vary:
  assumes "length r1 = 5" and "length r2 = 5" and "r1 \<noteq> r2"
  shows "generated_codes_are_well_formed_and_vary r1 r2"
  using assms valid_code_of_bytes [of r1] code_parse_fmt [of "code_of_bytes r1"] code_of_bytes_inject [of r1 r2]
  by (auto simp: generated_codes_are_well_formed_and_vary_def code_generate_bytes code_fmt_def valid_code_def
      code_len_def)

definition parse_is_forgiving_about_formatting :: bool where
  "parse_is_forgiving_about_formatting \<longleftrightarrow>
     (case code_parse (str_lit ''k7m2-9qxd'') of
        Inl _ \<Rightarrow> False
      | Inr code \<Rightarrow>
          code_fmt code = str_lit ''K7M2-9QXD'' \<and> code_parse (str_lit '' K7M2 9QXD '') = Ok code) \<and>
     map_sum id code_fmt (code_parse (str_lit ''IO000000'')) = Ok (str_lit ''1000-0000'')"

definition parse_rejects_bad_codes :: bool where
  "parse_rejects_bad_codes \<longleftrightarrow>
     isl (code_parse (str_lit ''K7M2-9QX'')) \<and> isl (code_parse (str_lit ''K7M2-9QXDZ'')) \<and>
     isl (code_parse (str_lit ''K7M2-9QX!'')) \<and> isl (code_parse (str_lit ''K7M2-9QXU''))"

lemmas code_simps = code_parse_def code_fmt_def code_char_def to_ascii_uppercase_def is_whitespace_def str_lit_def
  utf8_def utf8_char_def code_alphabet_def code_len_def

lemma parse_is_forgiving_about_formatting: "parse_is_forgiving_about_formatting"
  by (simp add: parse_is_forgiving_about_formatting_def code_simps)

lemma parse_rejects_bad_codes: "parse_rejects_bad_codes"
  by (simp add: parse_rejects_bad_codes_def code_simps)

section \<open>Keys\<close>

text \<open>The second load finds the file the first one left.\<close>

definition keys_persist_across_loads :: "byte list \<times> byte list \<Rightarrow> byte list \<times> byte list \<Rightarrow> bool" where
  "keys_persist_across_loads generated1 generated2 \<longleftrightarrow>
     (let (first, left) = load_or_create ReadNotFound (Ok generated1) None;
          (second, _) = load_or_create (case left of None \<Rightarrow> ReadNotFound | Some bytes \<Rightarrow> ReadOk bytes)
                          (Ok generated2) None
      in \<not> isl first \<and> map_sum id key_public first = map_sum id key_public second \<and>
         map_sum id key_private first = map_sum id key_private second)"

lemma keys_persist_across_loads:
  "length private = key_len \<Longrightarrow> length public = key_len \<Longrightarrow>
   keys_persist_across_loads (private, public) generated2"
  by (simp add: keys_persist_across_loads_def load_or_create_def keys_generate_def to_key_def)

definition hex_round_trips :: bool where
  "hex_round_trips \<longleftrightarrow>
     from_hex (hex [0, 1, 0xAB, 0xFF]) = Some [0, 1, 0xAB, 0xFF] \<and>
     from_hex (str_lit ''abc'') = None \<and> from_hex (str_lit ''zz'') = None"

lemma hex_round_trips: "hex_round_trips"
  by (simp add: hex_round_trips_def from_hex_hex)
    (simp add: from_hex_def str_lit_def utf8_def utf8_char_def from_str_radix16_def hex_value_def)

section \<open>Messages\<close>

text \<open>An item of a new engine's local change.\<close>

definition local_item ::
  "(byte list \<Rightarrow> byte list) \<Rightarrow> item_id \<Rightarrow> int \<Rightarrow> device_id \<Rightarrow> content \<Rightarrow> clipboard_item option" where
  "local_item b fresh now device c = copied_of (fst (on_local_change b fresh now c (engine_new device)))"

lemma local_item_new: "local_item b fresh now device c = Some (item_new b fresh now device c)"
  by (simp add: local_item_def copied_of_def on_local_change_def engine_new_def Let_def)

text \<open>\<open>decode(&encode(message))\<close>, for the postcard codec given.\<close>

definition over_the_wire ::
  "(message \<Rightarrow> byte list lan_result) \<Rightarrow> (byte list \<Rightarrow> message option) \<Rightarrow> message \<Rightarrow> message lan_result" where
  "over_the_wire postcard postcard_from m = bind_ok (message_encode postcard m) (message_decode postcard_from)"

definition text_item_round_trips ::
  "(message \<Rightarrow> byte list lan_result) \<Rightarrow> (byte list \<Rightarrow> message option) \<Rightarrow> (byte list \<Rightarrow> byte list)
   \<Rightarrow> item_id \<Rightarrow> int \<Rightarrow> device_id \<Rightarrow> bool" where
  "text_item_round_trips postcard postcard_from b fresh now device \<longleftrightarrow>
     (case local_item b fresh now device (content_text (str_lit ''h'' @ [0xE9] @ str_lit ''llo'')) of
        None \<Rightarrow> False
      | Some item \<Rightarrow>
          (case from_item (\<lambda>_ _ _. None) item of
             Inl _ \<Rightarrow> False
           | Inr wire \<Rightarrow>
               (case over_the_wire postcard postcard_from (Item wire) of
                  Inr (Item wire) \<Rightarrow>
                    (case into_item (\<lambda>_. None) wire of
                       Inl _ \<Rightarrow> False
                     | Inr received \<Rightarrow>
                         is_intact b received \<and> it_id received = it_id item \<and>
                         it_content received = it_content item)
                | _ \<Rightarrow> False)))"

lemma text_item_round_trips:
  assumes "\<forall>wire. from_item (\<lambda>_ _ _. None) (item_new b fresh now device
      (content_text (str_lit ''h'' @ [0xE9] @ str_lit ''llo''))) = Ok wire
    \<longrightarrow> over_the_wire postcard postcard_from (Item wire) = Ok (Item wire)"
  shows "text_item_round_trips postcard postcard_from b fresh now device"
  using assms
  by (simp add: text_item_round_trips_def local_item_new from_item_def into_item_def content_text_def is_intact_def)

definition test_pixels :: "byte list" where
  "test_pixels = map (\<lambda>i. of_nat (i * 17)) [0..<3 * 2 * 4]"

definition image_item_round_trips_through_png_with_intact_hash ::
  "(u32 \<Rightarrow> u32 \<Rightarrow> byte list \<Rightarrow> byte list option) \<Rightarrow> (byte list \<Rightarrow> (u32 \<times> u32 \<times> byte list) option)
   \<Rightarrow> (byte list \<Rightarrow> byte list) \<Rightarrow> item_id \<Rightarrow> int \<Rightarrow> device_id \<Rightarrow> bool" where
  "image_item_round_trips_through_png_with_intact_hash png_write png_read b fresh now device \<longleftrightarrow>
     (case local_item b fresh now device (rgba_image 3 2 test_pixels) of
        None \<Rightarrow> False
      | Some item \<Rightarrow>
          (case bind_ok (from_item png_write item) (into_item png_read) of
             Inl _ \<Rightarrow> False
           | Inr received \<Rightarrow> is_intact b received \<and> it_content received = it_content item))"

lemma image_item_round_trips_through_png_with_intact_hash:
  assumes "png_codec png_write png_read \<lparr>img_width = 3, img_height = 2, img_rgba = test_pixels\<rparr>"
  shows "image_item_round_trips_through_png_with_intact_hash png_write png_read b fresh now device"
proof -
  let ?item = "item_new b fresh now device (rgba_image 3 2 test_pixels)"
  have pixels: "from_rgba 3 2 test_pixels = Some \<lparr>img_width = 3, img_height = 2, img_rgba = test_pixels\<rparr>"
    by (rule from_rgba_small) (simp_all add: test_pixels_def)
  have "bind_ok (from_item png_write ?item) (into_item png_read)
      = Ok (?item\<lparr>it_created := from_ms (to_ms (it_created ?item))\<rparr>)"
    using assms by (intro wire_round_trip) (auto simp: rgba_image_def pixels)
  then show ?thesis
    by (simp add: image_item_round_trips_through_png_with_intact_hash_def local_item_new)
qed

definition image_with_mismatched_size_is_rejected ::
  "(u32 \<Rightarrow> u32 \<Rightarrow> byte list \<Rightarrow> byte list option) \<Rightarrow> (byte list \<Rightarrow> (u32 \<times> u32 \<times> byte list) option)
   \<Rightarrow> (byte list \<Rightarrow> byte list) \<Rightarrow> item_id \<Rightarrow> int \<Rightarrow> device_id \<Rightarrow> bool" where
  "image_with_mismatched_size_is_rejected png_write png_read b fresh now device \<longleftrightarrow>
     (case local_item b fresh now device (rgba_image 2 2 (replicate 16 9)) of
        None \<Rightarrow> False
      | Some item \<Rightarrow>
          (case from_item png_write item of
             Inl _ \<Rightarrow> False
           | Inr wire \<Rightarrow>
               (let wire = (case w_content wire of
                              WireImage _ height png \<Rightarrow> wire\<lparr>w_content := WireImage 3 height png\<rparr>
                            | WireText _ \<Rightarrow> wire)
                in isl (into_item png_read wire))))"

lemma image_with_mismatched_size_is_rejected:
  assumes "png_codec png_write png_read \<lparr>img_width = 2, img_height = 2, img_rgba = replicate 16 9\<rparr>"
  shows "image_with_mismatched_size_is_rejected png_write png_read b fresh now device"
proof -
  have image: "rgba_image 2 2 (replicate 16 9) = Image \<lparr>img_width = 2, img_height = 2, img_rgba = replicate 16 9\<rparr>"
    by (simp add: rgba_image_def from_rgba_small)
  from assms obtain png where "png_write 2 2 (replicate 16 9) = Some png" "png_read png = Some (2, 2, replicate 16 9)"
    by (auto simp: png_codec_def)
  then show ?thesis
    by (simp add: image_with_mismatched_size_is_rejected_def local_item_new image from_item_def encode_png_def
        into_item_def decode_png_def)
qed

definition oversized_messages_are_refused ::
  "(message \<Rightarrow> byte list lan_result) \<Rightarrow> (byte list \<Rightarrow> byte list) \<Rightarrow> item_id \<Rightarrow> int \<Rightarrow> device_id \<Rightarrow> bool" where
  "oversized_messages_are_refused postcard b fresh now device \<longleftrightarrow>
     (case local_item b fresh now device (content_text (replicate (Suc max_message_bytes) (of_char CHR ''x''))) of
        None \<Rightarrow> False
      | Some item \<Rightarrow>
          (case from_item (\<lambda>_ _ _. None) item of
             Inl _ \<Rightarrow> False
           | Inr wire \<Rightarrow> (case message_encode postcard (Item wire) of Inl (LanTooLarge _) \<Rightarrow> True | _ \<Rightarrow> False)))"

text \<open>What the encoding writes is at least as long as the text it holds.\<close>

lemma oversized_messages_are_refused:
  assumes "\<forall>wire text. w_content wire = WireText text \<longrightarrow>
      (\<exists>bytes. postcard (Item wire) = Ok bytes \<and> length text \<le> length bytes)"
  shows "oversized_messages_are_refused postcard b fresh now device"
proof -
  let ?text = "replicate (Suc max_message_bytes) (of_char CHR ''x'' :: nat)"
  let ?item = "item_new b fresh now device (content_text ?text)"
  have "content_text ?text = Text ?text"
    unfolding content_text_def by (subst normalize_id) (auto simp: in_set_replicate)
  then obtain wire where wire: "from_item (\<lambda>_ _ _. None) ?item = Ok wire" "w_content wire = WireText ?text"
    by (simp add: from_item_def del: replicate_Suc)
  with assms obtain bytes where "postcard (Item wire) = Ok bytes" "length ?text \<le> length bytes"
    by blast
  then have "message_encode postcard (Item wire) = Err (LanTooLarge (length bytes))"
    by (simp add: message_encode_def)
  with wire(1) show ?thesis
    unfolding oversized_messages_are_refused_def local_item_new by simp
qed

definition test_roster_message :: message where
  "test_roster_message =
     (let peer = \<lparr>rp_device_id = replicate 16 1, rp_name = str_lit ''laptop'', rp_public_key = replicate 32 2,
                  rp_paired_at_ms = 3, rp_address = Some (V6 0x20010DB8000000000000000000000001 4000 0 0)\<rparr>
      in RosterMsg \<lparr>ro_members = [peer], ro_removed = [\<lparr>rr_peer = peer, rr_removed_at_ms = 4\<rparr>]\<rparr>)"

definition roster_round_trips ::
  "(message \<Rightarrow> byte list lan_result) \<Rightarrow> (byte list \<Rightarrow> message option) \<Rightarrow> bool" where
  "roster_round_trips postcard postcard_from \<longleftrightarrow>
     over_the_wire postcard postcard_from test_roster_message = Ok test_roster_message"

text \<open>\<open>postcard\<close> reads back what it wrote, in fewer bytes than a message may have.\<close>

lemma roster_round_trips:
  "postcard test_roster_message = Ok bytes \<Longrightarrow> length bytes \<le> max_message_bytes \<Longrightarrow>
   postcard_from bytes = Some test_roster_message \<Longrightarrow> roster_round_trips postcard postcard_from"
  by (simp add: roster_round_trips_def over_the_wire_def message_encode_def message_decode_def)

definition garbage_is_rejected :: "(byte list \<Rightarrow> message option) \<Rightarrow> bool" where
  "garbage_is_rejected postcard_from \<longleftrightarrow> isl (message_decode postcard_from [0xFF, 0xFF, 0xFF])"

text \<open>No message starts with these bytes.\<close>

lemma garbage_is_rejected: "postcard_from [0xFF, 0xFF, 0xFF] = None \<Longrightarrow> garbage_is_rejected postcard_from"
  by (simp add: garbage_is_rejected_def message_decode_def)

section \<open>Connecting\<close>

text \<open>Nothing listens on the address \<open>dead\<close>; \<open>stream\<close> is the connection to \<open>good\<close>.\<close>

definition connect_any_skips_unreachable_addresses ::
  "(socket_addr \<Rightarrow> 's lan_result) \<Rightarrow> socket_addr \<Rightarrow> socket_addr \<Rightarrow> bool" where
  "connect_any_skips_unreachable_addresses connect dead good \<longleftrightarrow>
     map_sum id snd (connect_any connect [dead, good]) = Ok good"

lemma connect_any_skips_unreachable_addresses:
  "isl (connect dead) \<Longrightarrow> \<not> isl (connect good) \<Longrightarrow> connect_any_skips_unreachable_addresses connect dead good"
  by (cases "connect dead"; cases "connect good")
    (simp_all add: connect_any_skips_unreachable_addresses_def connect_any_def)

definition connect_any_reports_failure_when_nothing_answers ::
  "(socket_addr \<Rightarrow> 's lan_result) \<Rightarrow> socket_addr \<Rightarrow> bool" where
  "connect_any_reports_failure_when_nothing_answers connect dead \<longleftrightarrow>
     isl (connect_any connect [dead]) \<and> isl (connect_any connect [])"

lemma connect_any_reports_failure_when_nothing_answers:
  "isl (connect dead) \<Longrightarrow> connect_any_reports_failure_when_nothing_answers connect dead"
  by (cases "connect dead") (simp_all add: connect_any_reports_failure_when_nothing_answers_def connect_any_def)

definition with_port_keeps_ipv6_scope :: bool where
  "with_port_keeps_ipv6_scope \<longleftrightarrow>
     (case with_port (V6 0xFE800000000000000000000000000001 1 0 3) 4000 of
        V6 _ port _ scope \<Rightarrow> (port, scope) = (4000, 3)
      | V4 _ _ \<Rightarrow> False)"

lemma with_port_keeps_ipv6_scope: "with_port_keeps_ipv6_scope"
  by (simp add: with_port_keeps_ipv6_scope_def)

end
