(* ===== verification/Peers_Tests.thy ===== *)
theory Peers_Tests
  imports Peers
begin

text \<open>
  The module \<open>tests\<close> of \<open>crates/cled-lan/src/peers.rs\<close> as definitions of the same names: a test is
  true when every call it unwraps succeeds and every assertion holds. The device identifiers it draws
  at random are arguments, different where the test needs it; the temporary directory is the file
  kept in the store, so loading again is \<open>reload\<close>.
\<close>

section \<open>Helpers of the tests\<close>

definition test_peer :: "device_id \<Rightarrow> rstr \<Rightarrow> peer" where
  "test_peer d name =
     \<lparr>p_id = d, p_name = name, p_key = replicate key_len 7, p_paired = 1,
      p_addr = Some (V4 (v4_addr 192 168 1 5) 4000)\<rparr>"

abbreviation laptop_of :: "device_id \<Rightarrow> peer" where
  "laptop_of d \<equiv> test_peer d (str_lit ''laptop'')"

definition empty_store :: peer_store where
  "empty_store = \<lparr>ps_peers = [], ps_removed = [], ps_file = None\<rparr>"

lemma load_missing: "store_load parse PeerFileMissing = Ok empty_store"
  by (simp add: store_load_def empty_store_def)

definition reload :: "(rstr \<Rightarrow> 128 word option) \<Rightarrow> peer_store \<Rightarrow> peer_store lan_result" where
  "reload parse st =
     store_load parse (case ps_file st of None \<Rightarrow> PeerFileMissing | Some file \<Rightarrow> PeerFileRead file)"

text \<open>A store of a device that is paired with \<open>sender\<close>.\<close>

definition member_of_group :: "(128 word \<Rightarrow> rstr) \<Rightarrow> device_id \<Rightarrow> peer_store" where
  "member_of_group fmt sender = snd (upsert fmt None (test_peer sender (str_lit ''desk'')) empty_store)"

definition test_roster :: "peer list \<Rightarrow> (peer \<times> u64) list \<Rightarrow> roster" where
  "test_roster members removed =
     \<lparr>ro_members = map to_roster members,
      ro_removed = map (\<lambda>(p, at). \<lparr>rr_peer = to_roster p, rr_removed_at_ms = at\<rparr>) removed\<rparr>"

section \<open>The tests\<close>

definition peers_persist :: "(128 word \<Rightarrow> rstr) \<Rightarrow> (rstr \<Rightarrow> 128 word option) \<Rightarrow> device_id \<Rightarrow> bool" where
  "peers_persist fmt parse d \<longleftrightarrow>
     (let laptop = laptop_of d; (r, store) = upsert fmt None laptop empty_store
      in r = Ok () \<and> map_sum id ps_peers (reload parse store) = Ok [laptop])"

definition remove_and_repair :: "(128 word \<Rightarrow> rstr) \<Rightarrow> device_id \<Rightarrow> bool" where
  "remove_and_repair fmt d \<longleftrightarrow>
     (let laptop = laptop_of d;
          (r1, store) = upsert fmt None laptop empty_store;
          (r2, store) = upsert fmt None (laptop\<lparr>p_name := str_lit ''renamed''\<rparr>) store;
          (r3, after) = remove fmt None d 5 store
      in r1 = Ok () \<and> r2 = Ok () \<and> length (ps_peers store) = 1 \<and>
         map_sum id (map_option p_name) r3 = Ok (Some (str_lit ''renamed'')) \<and> ps_peers after = [])"

definition removed_peers_are_remembered_until_told ::
  "(128 word \<Rightarrow> rstr) \<Rightarrow> (rstr \<Rightarrow> 128 word option) \<Rightarrow> device_id \<Rightarrow> bool" where
  "removed_peers_are_remembered_until_told fmt parse d \<longleftrightarrow>
     (let laptop = laptop_of d;
          (r1, store) = upsert fmt None laptop empty_store;
          (r2, store) = remove fmt None d 5 store
      in r1 = Ok () \<and> r2 = Ok (Some laptop) \<and>
         (case reload parse store of
            Inl _ \<Rightarrow> False
          | Inr store \<Rightarrow>
              (let (r3, told) = mark_notified fmt None d store
               in get store d = None \<and> get_removed store d = Some laptop \<and> r3 = Ok () \<and>
                  (case reload parse told of
                     Inl _ \<Rightarrow> False
                   | Inr store \<Rightarrow> get_removed store d = None \<and> length (ro_removed (roster_of store)) = 1))))"

definition repairing_undoes_a_removal :: "(128 word \<Rightarrow> rstr) \<Rightarrow> device_id \<Rightarrow> bool" where
  "repairing_undoes_a_removal fmt d \<longleftrightarrow>
     (let laptop = laptop_of d;
          (r1, store) = upsert fmt None laptop empty_store;
          (r2, store) = remove fmt None d 5 store;
          (r3, store) = upsert fmt None laptop store
      in r1 = Ok () \<and> \<not> isl r2 \<and> r3 = Ok () \<and> get_removed store d = None \<and>
         ro_removed (roster_of store) = [] \<and> get store d = Some laptop)"

definition being_removed_forgets_everyone_without_spreading_removals ::
  "(128 word \<Rightarrow> rstr) \<Rightarrow> device_id \<Rightarrow> device_id \<Rightarrow> bool" where
  "being_removed_forgets_everyone_without_spreading_removals fmt d1 d2 \<longleftrightarrow>
     (let (r1, store) = upsert fmt None (test_peer d1 (str_lit ''desk'')) empty_store;
          (r2, store) = upsert fmt None (laptop_of d2) store;
          (r3, store) = clear fmt None store
      in r1 = Ok () \<and> r2 = Ok () \<and> r3 = Ok () \<and> ps_peers store = [] \<and>
         roster_of store = \<lparr>ro_members = [], ro_removed = []\<rparr>)"

definition a_member_paired_elsewhere_is_trusted ::
  "(128 word \<Rightarrow> rstr) \<Rightarrow> device_id \<Rightarrow> device_id \<Rightarrow> device_id \<Rightarrow> bool" where
  "a_member_paired_elsewhere_is_trusted fmt me sender d \<longleftrightarrow>
     (let laptop = laptop_of d;
          (r1, store) = merge fmt None me sender (test_roster [laptop] []) (member_of_group fmt sender);
          (r2, again) = merge fmt None me sender (test_roster [laptop] []) store
      in map_sum id rc_added r1 = Ok [d] \<and> get store d = Some laptop \<and>
         map_sum id change_is_empty r2 = Ok True)"

definition a_removal_elsewhere_removes_here_and_is_not_undone_by_an_older_roster ::
  "(128 word \<Rightarrow> rstr) \<Rightarrow> device_id \<Rightarrow> device_id \<Rightarrow> device_id \<Rightarrow> bool" where
  "a_removal_elsewhere_removes_here_and_is_not_undone_by_an_older_roster fmt me sender d \<longleftrightarrow>
     (let laptop = laptop_of d;
          (r1, store) = upsert fmt None laptop (member_of_group fmt sender);
          (r2, store) = merge fmt None me sender (test_roster [] [(laptop, 10)]) store;
          (r3, later) = merge fmt None me sender (test_roster [laptop] []) store
      in r1 = Ok () \<and> map_sum id rc_removed r2 = Ok [d] \<and> get store d = None \<and>
         get_removed store d = Some laptop \<and> map_sum id change_is_empty r3 = Ok True \<and> get later d = None)"

definition pairing_again_after_a_removal_wins ::
  "(128 word \<Rightarrow> rstr) \<Rightarrow> device_id \<Rightarrow> device_id \<Rightarrow> device_id \<Rightarrow> bool" where
  "pairing_again_after_a_removal_wins fmt me sender d \<longleftrightarrow>
     (let laptop = laptop_of d;
          (r1, store) = upsert fmt None laptop (member_of_group fmt sender);
          (r2, store) = remove fmt None d 10 store;
          repaired = laptop\<lparr>p_key := replicate key_len 8, p_paired := 20\<rparr>;
          (r3, store) = merge fmt None me sender (test_roster [repaired] [(laptop, 10)]) store
      in r1 = Ok () \<and> \<not> isl r2 \<and> map_sum id rc_added r3 = Ok [d] \<and> get store d = Some repaired)"

definition a_newer_key_replaces_an_older_one_but_not_the_reverse ::
  "(128 word \<Rightarrow> rstr) \<Rightarrow> device_id \<Rightarrow> device_id \<Rightarrow> device_id \<Rightarrow> bool" where
  "a_newer_key_replaces_an_older_one_but_not_the_reverse fmt me sender d \<longleftrightarrow>
     (let laptop = laptop_of d;
          (r1, store) = upsert fmt None laptop (member_of_group fmt sender);
          older = laptop\<lparr>p_key := replicate key_len 9, p_paired := 0\<rparr>;
          (r2, store) = merge fmt None me sender (test_roster [older] []) store
      in r1 = Ok () \<and> map_sum id change_is_empty r2 = Ok True \<and> get store d = Some laptop)"

definition removals_of_unknown_devices_are_remembered_and_passed_on ::
  "(128 word \<Rightarrow> rstr) \<Rightarrow> device_id \<Rightarrow> device_id \<Rightarrow> device_id \<Rightarrow> bool" where
  "removals_of_unknown_devices_are_remembered_and_passed_on fmt me sender d \<longleftrightarrow>
     (let laptop = laptop_of d;
          (r1, store) = merge fmt None me sender (test_roster [] [(laptop, 10)]) (member_of_group fmt sender);
          (r2, later) = merge fmt None me sender (test_roster [laptop] []) store
      in map_sum id rc_learned r1 = Ok True \<and> length (ro_removed (roster_of store)) = 1 \<and>
         \<not> isl r2 \<and> get later d = None)"

definition a_roster_cannot_add_or_remove_this_device_or_its_sender ::
  "(128 word \<Rightarrow> rstr) \<Rightarrow> device_id \<Rightarrow> device_id \<Rightarrow> bool" where
  "a_roster_cannot_add_or_remove_this_device_or_its_sender fmt me sender \<longleftrightarrow>
     (let desk = test_peer sender (str_lit ''desk'');
          myself = (test_peer me (str_lit ''me''))\<lparr>p_id := me\<rparr>;
          (r, store) = merge fmt None me sender (test_roster [myself] [(desk, - 1), (myself, - 1)])
                         (member_of_group fmt sender)
      in map_sum id change_is_empty r = Ok True \<and> ps_peers store = [desk])"

definition scoped_addresses_are_not_shared :: "device_id \<Rightarrow> device_id \<Rightarrow> bool" where
  "scoped_addresses_are_not_shared d1 d2 \<longleftrightarrow>
     (let laptop = (laptop_of d1)\<lparr>p_addr := Some (V6 0xFE800000000000000000000000000001 4000 0 3)\<rparr>
      in rp_address (to_roster laptop) = None \<and>
         rp_address (to_roster (test_peer d2 (str_lit ''desk''))) \<noteq> None)"

text \<open>
  The JSON of the test has a removal without the two newer fields; \<open>serde\<close> fills in their defaults.
\<close>

definition removals_from_older_files_load ::
  "(128 word \<Rightarrow> rstr) \<Rightarrow> (rstr \<Rightarrow> 128 word option) \<Rightarrow> device_id \<Rightarrow> bool" where
  "removals_from_older_files_load fmt parse d \<longleftrightarrow>
     (let laptop = laptop_of d;
          file = \<lparr>pf_version = 1, pf_peers = [],
                  pf_removed = [\<lparr>rr_record = record_of fmt laptop, rr_at = 0, rr_notified = False\<rparr>]\<rparr>
      in map_sum id (\<lambda>store. get_removed store d) (store_load parse (PeerFileRead file)) = Ok (Some laptop))"

definition malformed_file_starts_empty :: "(rstr \<Rightarrow> 128 word option) \<Rightarrow> bool" where
  "malformed_file_starts_empty parse \<longleftrightarrow> map_sum id ps_peers (store_load parse PeerFileMalformed) = Ok []"

section \<open>They pass\<close>

lemma roster_peer_back:
  "p_key p \<noteq> replicate key_len 0 \<Longrightarrow> length (p_name p) \<le> max_name_chars \<Longrightarrow>
   (\<forall>a. p_addr p = Some a \<longrightarrow> shareable a) \<Longrightarrow> from_roster (to_roster p) = Some p"
  by (auto simp: from_roster_def to_roster_def split: option.split)

lemmas store_simps = upsert_def upsert_mem_def remove_def remove_mem_def clear_def mark_notified_def save_def
  get_def get_removed_def remember_removal_def max_removed_def empty_store_def roster_of_def

lemmas merge_simps = merge_def merge_mem_def merge_member_def merge_removal_def merge_peer_def merge_removed_def
  about_others_def test_roster_def max_roster_entries_def roster_change_default_def change_is_empty_def
  member_of_group_def

lemma test_peer_simps [simp]:
  "p_id (test_peer d n) = d" "p_name (test_peer d n) = n" "p_paired (test_peer d n) = 1"
  "p_key (test_peer d n) = replicate key_len 7" "p_addr (test_peer d n) = Some (V4 (v4_addr 192 168 1 5) 4000)"
  by (simp_all add: test_peer_def)

lemma key_len_pos [simp]: "0 < key_len"
  by (simp add: key_len_def)

lemma key_sevens: "replicate key_len k = replicate key_len j \<longleftrightarrow> k = j"
  using key_len_pos by (simp add: key_len_def)

lemma test_peer_back [simp]:
  "length n \<le> max_name_chars \<Longrightarrow> from_roster (to_roster (test_peer d n)) = Some (test_peer d n)"
  by (rule roster_peer_back) (simp_all add: key_sevens shareable_def)

lemma laptop_name [simp]: "length (str_lit s) = length s"
  by (simp add: str_lit_def)

lemma peers_persist: "uuid_text fmt parse d \<Longrightarrow> peers_persist fmt parse d"
  by (simp add: peers_persist_def store_simps reload_def store_load_def parse_file_def from_record_of)

lemma remove_and_repair: "remove_and_repair fmt d"
  by (simp add: remove_and_repair_def store_simps)

lemma removed_peers_are_remembered_until_told:
  "uuid_text fmt parse d \<Longrightarrow> removed_peers_are_remembered_until_told fmt parse d"
  by (simp add: removed_peers_are_remembered_until_told_def store_simps reload_def store_load_def parse_file_def
      from_record_of Let_def)

lemma repairing_undoes_a_removal: "repairing_undoes_a_removal fmt d"
  by (simp add: repairing_undoes_a_removal_def store_simps Let_def)

lemma being_removed_forgets_everyone_without_spreading_removals:
  "being_removed_forgets_everyone_without_spreading_removals fmt d1 d2"
  by (simp add: being_removed_forgets_everyone_without_spreading_removals_def store_simps Let_def)

lemma a_member_paired_elsewhere_is_trusted:
  "d \<noteq> me \<Longrightarrow> d \<noteq> sender \<Longrightarrow> a_member_paired_elsewhere_is_trusted fmt me sender d"
  by (simp add: a_member_paired_elsewhere_is_trusted_def store_simps merge_simps max_name_chars_def Let_def)

lemma a_removal_elsewhere_removes_here_and_is_not_undone_by_an_older_roster:
  "d \<noteq> me \<Longrightarrow> d \<noteq> sender \<Longrightarrow>
   a_removal_elsewhere_removes_here_and_is_not_undone_by_an_older_roster fmt me sender d"
  by (simp add: a_removal_elsewhere_removes_here_and_is_not_undone_by_an_older_roster_def store_simps merge_simps
      max_name_chars_def Let_def)

lemma repaired_back:
  "from_roster (to_roster ((laptop_of d)\<lparr>p_key := replicate key_len k, p_paired := t\<rparr>))
     = (if k = 0 then None else Some ((laptop_of d)\<lparr>p_key := replicate key_len k, p_paired := t\<rparr>))"
  by (simp add: from_roster_def to_roster_def max_name_chars_def shareable_def key_len_def)

lemma pairing_again_after_a_removal_wins:
  "d \<noteq> me \<Longrightarrow> d \<noteq> sender \<Longrightarrow> pairing_again_after_a_removal_wins fmt me sender d"
  by (simp add: pairing_again_after_a_removal_wins_def store_simps merge_simps repaired_back max_name_chars_def
      Let_def)

lemma a_newer_key_replaces_an_older_one_but_not_the_reverse:
  "d \<noteq> me \<Longrightarrow> d \<noteq> sender \<Longrightarrow> a_newer_key_replaces_an_older_one_but_not_the_reverse fmt me sender d"
  by (simp add: a_newer_key_replaces_an_older_one_but_not_the_reverse_def store_simps merge_simps repaired_back
      key_sevens Let_def)

lemma removals_of_unknown_devices_are_remembered_and_passed_on:
  "d \<noteq> me \<Longrightarrow> d \<noteq> sender \<Longrightarrow> removals_of_unknown_devices_are_remembered_and_passed_on fmt me sender d"
  by (simp add: removals_of_unknown_devices_are_remembered_and_passed_on_def store_simps merge_simps
      max_name_chars_def Let_def)

lemma same_id: "(test_peer d n)\<lparr>p_id := d\<rparr> = test_peer d n"
  by (simp add: test_peer_def)

lemma a_roster_cannot_add_or_remove_this_device_or_its_sender:
  "me \<noteq> sender \<Longrightarrow> a_roster_cannot_add_or_remove_this_device_or_its_sender fmt me sender"
  by (simp add: a_roster_cannot_add_or_remove_this_device_or_its_sender_def store_simps merge_simps
      max_name_chars_def same_id Let_def)

lemma scoped_addresses_are_not_shared: "scoped_addresses_are_not_shared d1 d2"
  by (simp add: scoped_addresses_are_not_shared_def to_roster_def shareable_def)

lemma removals_from_older_files_load: "uuid_text fmt parse d \<Longrightarrow> removals_from_older_files_load fmt parse d"
  by (simp add: removals_from_older_files_load_def store_load_def parse_file_def from_record_of get_removed_def)

lemma malformed_file_starts_empty: "malformed_file_starts_empty parse"
  by (simp add: malformed_file_starts_empty_def store_load_def)

end
