(* ===== verification/Desktop_Tests.thy ===== *)
theory Desktop_Tests
  imports Relay Desktop Clipboard_Tests
begin

text \<open>
  The modules \<open>tests\<close> of \<open>settings.rs\<close>, \<open>auth.rs\<close>, \<open>relay.rs\<close>, \<open>tunnel.rs\<close> and \<open>preview.rs\<close> of the
  desktop app, as definitions of the same names. The \<open>url\<close>, \<open>uuid\<close> and JSON crates are arguments:
  where a test depends on how such a crate reads a text, the lemma says what it must read.
\<close>

section \<open>Settings\<close>

text \<open>The state over the files of a directory, and what a restart finds there.\<close>

definition state_in :: "(rstr \<Rightarrow> url option) \<Rightarrow> settings_files \<Rightarrow> settings_state" where
  "state_in url_parse fs = settings_state_load url_parse True fs"

definition no_files :: settings_files where
  "no_files = \<lparr>sf_file = SettingsMissing, sf_tmp = SettingsMissing\<rparr>"

definition defaults_to_lan_and_local_relay :: "(rstr \<Rightarrow> url option) \<Rightarrow> bool" where
  "defaults_to_lan_and_local_relay url_parse \<longleftrightarrow>
     (let settings = ss_current (state_in url_parse no_files)
      in se_mode settings = LanMode \<and> se_relay settings = default_relay_url)"

lemma defaults_to_lan_and_local_relay: "defaults_to_lan_and_local_relay url_parse"
  by (simp add: defaults_to_lan_and_local_relay_def state_in_def no_files_def settings_state_load_def
      settings_load_def settings_default_def Let_def)

text \<open>How the \<open>url\<close> crate reads a text: its scheme and a host that is not empty.\<close>

definition reads_as :: "(rstr \<Rightarrow> url option) \<Rightarrow> rstr \<Rightarrow> string \<Rightarrow> bool" where
  "reads_as url_parse text scheme \<longleftrightarrow>
     (\<exists>u h. url_parse text = Some u \<and> url_scheme u = str_lit scheme \<and> url_host u = Some h \<and> h \<noteq> [])"

definition default_relay_url_is_valid :: "(rstr \<Rightarrow> url option) \<Rightarrow> bool" where
  "default_relay_url_is_valid url_parse \<longleftrightarrow> validate_relay_url url_parse default_relay_url = Ok default_relay_url"

lemma validate_reads:
  "trim text = t \<Longrightarrow> t \<noteq> [] \<Longrightarrow> reads_as url_parse t scheme \<Longrightarrow> scheme \<in> {''http'', ''https''} \<Longrightarrow>
   validate_relay_url url_parse text = Ok t"
  by (auto simp: validate_relay_url_def reads_as_def)

lemma default_relay_url_is_valid:
  "reads_as url_parse default_relay_url ''https'' \<Longrightarrow> default_relay_url_is_valid url_parse"
  unfolding default_relay_url_is_valid_def
  by (rule validate_reads [where scheme = "''https''"]) (simp_all add: default_relay_url_def text_simps)

definition accepts_http_and_https_urls :: "(rstr \<Rightarrow> url option) \<Rightarrow> bool" where
  "accepts_http_and_https_urls url_parse \<longleftrightarrow>
     (\<forall>url\<in>set [''http://localhost:8787'', ''http://192.168.1.10:8787'', ''https://relay.example.com'',
                 ''http://[::1]:8787''].
        validate_relay_url url_parse (str_lit url) = Ok (str_lit url)) \<and>
     validate_relay_url url_parse (str_lit ''  https://relay.example.com '' @ [10])
       = Ok (str_lit ''https://relay.example.com'')"

lemma accepts_http_and_https_urls:
  assumes "reads_as url_parse (str_lit ''http://localhost:8787'') ''http''"
    and "reads_as url_parse (str_lit ''http://192.168.1.10:8787'') ''http''"
    and "reads_as url_parse (str_lit ''https://relay.example.com'') ''https''"
    and "reads_as url_parse (str_lit ''http://[::1]:8787'') ''http''"
  shows "accepts_http_and_https_urls url_parse"
  using validate_reads [OF _ _ assms(1)] validate_reads [OF _ _ assms(2)] validate_reads [OF _ _ assms(3)]
    validate_reads [OF _ _ assms(4)]
  by (simp add: accepts_http_and_https_urls_def text_simps)

definition rejects_everything_else :: "(rstr \<Rightarrow> url option) \<Rightarrow> bool" where
  "rejects_everything_else url_parse \<longleftrightarrow>
     (\<forall>url\<in>set ['''', ''   '', ''relay.example.com'', ''localhost:8787'', ''not a url'', ''ftp://relay.example.com'',
                 ''ws://relay.example.com'', ''file:///etc/passwd'', ''http://''].
        isl (validate_relay_url url_parse (str_lit url)))"

text \<open>None of these texts is a URL with a host over HTTP.\<close>

lemma rejects_everything_else:
  assumes "\<forall>url\<in>set [''relay.example.com'', ''localhost:8787'', ''not a url'', ''ftp://relay.example.com'',
      ''ws://relay.example.com'', ''file:///etc/passwd'', ''http://''].
    \<not> reads_as url_parse (str_lit url) ''http'' \<and> \<not> reads_as url_parse (str_lit url) ''https''"
  shows "rejects_everything_else url_parse"
proof -
  have blank: "trim (str_lit '''') = []" "trim (str_lit ''   '') = []"
    by (simp_all add: text_simps)
  have trimmed: "trim (str_lit url) = str_lit url" if "url \<in> set [''relay.example.com'', ''localhost:8787'', ''not a url'',
      ''ftp://relay.example.com'', ''ws://relay.example.com'', ''file:///etc/passwd'', ''http://'']" for url
    using that by (auto simp: text_simps)
  have "isl (validate_relay_url url_parse (str_lit url))" if "trim (str_lit url) = str_lit url"
    "\<not> reads_as url_parse (str_lit url) ''http''" "\<not> reads_as url_parse (str_lit url) ''https''" for url
    using that by (auto simp: validate_relay_url_def reads_as_def Let_def split: option.splits)
  with assms trimmed blank show ?thesis
    by (simp add: rejects_everything_else_def) (simp add: validate_relay_url_def)
qed

definition switches_modes_and_restores_them_after_restart :: "(rstr \<Rightarrow> url option) \<Rightarrow> bool" where
  "switches_modes_and_restores_them_after_restart url_parse \<longleftrightarrow>
     (let state = state_in url_parse no_files;
          (r1, state) = settings_update None (\<lambda>s. s\<lparr>se_mode := RelayMode\<rparr>) state;
          first = state_in url_parse (ss_files state);
          (r2, state) = settings_update None (\<lambda>s. s\<lparr>se_mode := LanMode\<rparr>) state;
          second = state_in url_parse (ss_files state)
      in \<not> isl r1 \<and> se_mode (ss_current first) = RelayMode \<and> \<not> isl r2 \<and> se_mode (ss_current second) = LanMode)"

lemmas settings_simps = state_in_def no_files_def settings_state_load_def settings_load_def settings_default_def
  settings_update_def settings_save_def Let_def

lemma switches_modes_and_restores_them_after_restart: "switches_modes_and_restores_them_after_restart url_parse"
  by (simp add: switches_modes_and_restores_them_after_restart_def settings_simps)

definition saved_relay_url_is_restored_after_restart :: "(rstr \<Rightarrow> url option) \<Rightarrow> bool" where
  "saved_relay_url_is_restored_after_restart url_parse \<longleftrightarrow>
     (case validate_relay_url url_parse (str_lit ''https://relay.example.com'') of
        Inl _ \<Rightarrow> False
      | Inr url \<Rightarrow>
          (let (r, state) = settings_update None (\<lambda>s. s\<lparr>se_relay := url\<rparr>) (state_in url_parse no_files)
           in \<not> isl r \<and> se_relay (ss_current (state_in url_parse (ss_files state))) = str_lit ''https://relay.example.com''))"

lemma saved_relay_url_is_restored_after_restart:
  assumes "reads_as url_parse (str_lit ''https://relay.example.com'') ''https''"
  shows "saved_relay_url_is_restored_after_restart url_parse"
proof -
  have "validate_relay_url url_parse (str_lit ''https://relay.example.com'') = Ok (str_lit ''https://relay.example.com'')"
    by (rule validate_reads [OF _ _ assms]) (simp_all add: text_simps)
  then show ?thesis
    by (simp add: saved_relay_url_is_restored_after_restart_def settings_simps)
qed

text \<open>
  The files of the test are read by \<open>serde\<close>: missing fields are the defaults, unknown ones are
  dropped.
\<close>

definition older_or_damaged_files_fall_back_to_defaults :: "(rstr \<Rightarrow> url option) \<Rightarrow> bool" where
  "older_or_damaged_files_fall_back_to_defaults url_parse \<longleftrightarrow>
     settings_load url_parse (SettingsText settings_default) = settings_default \<and>
     settings_load url_parse SettingsInvalid = settings_default \<and>
     (let settings = settings_load url_parse (SettingsText \<lparr>se_mode = RelayMode, se_relay = str_lit ''nonsense''\<rparr>)
      in se_mode settings = RelayMode \<and> se_relay settings = default_relay_url) \<and>
     se_mode (settings_load url_parse (SettingsText (settings_default\<lparr>se_mode := RelayMode\<rparr>))) = RelayMode"

lemma older_or_damaged_files_fall_back_to_defaults:
  assumes "url_parse (str_lit ''nonsense'') = None"
  shows "older_or_damaged_files_fall_back_to_defaults url_parse"
proof -
  have "trim (str_lit ''nonsense'') = str_lit ''nonsense''"
    by (simp add: text_simps)
  with assms have "isl (validate_relay_url url_parse (str_lit ''nonsense''))"
    by (simp add: validate_relay_url_def Let_def)
  then show ?thesis
    by (simp add: older_or_damaged_files_fall_back_to_defaults_def settings_simps)
qed

section \<open>Signing in\<close>

text \<open>A token: header, payload and signature; only the payload is read.\<close>

definition jwt :: "rstr \<Rightarrow> rstr \<Rightarrow> rstr" where
  "jwt header payload = header @ [of_char CHR ''.''] @ payload @ str_lit ''.sig''"

definition account_comes_from_the_id_token ::
  "(rstr \<Rightarrow> id_claims option) \<Rightarrow> rstr \<Rightarrow> rstr \<Rightarrow> rstr \<Rightarrow> bool" where
  "account_comes_from_the_id_token claims_of header short long \<longleftrightarrow>
     (let tokens = \<lparr>tr_access = jwt header short, tr_refresh = None, tr_expires = None,
                    tr_id = Some (jwt header long)\<rparr>
      in account_from claims_of tokens
           = Some \<lparr>ac_user = str_lit ''user_1'', ac_email = Some (str_lit ''a@example.com''),
                   ac_name = Some (str_lit ''Ada L'')\<rparr> \<and>
         map_option ac_user (account_from claims_of (tokens\<lparr>tr_id := None\<rparr>)) = Some (str_lit ''user_1''))"

lemma split_on_plain: "sep \<notin> set s \<Longrightarrow> split_on sep s = [s]"
  by (induction s) auto

lemma split_on_first: "sep \<notin> set s \<Longrightarrow> split_on sep (s @ sep # rest) = s # split_on sep rest"
  by (induction s) auto

lemma jwt_parts:
  "46 \<notin> set header \<Longrightarrow> 46 \<notin> set payload \<Longrightarrow> split_on 46 (jwt header payload) = [header, payload, str_lit ''sig'']"
  by (simp add: jwt_def str_lit_def split_on_first)

text \<open>Base64 has no dots; \<open>short\<close> and \<open>long\<close> are the payloads with the claims of the test.\<close>

lemma account_comes_from_the_id_token:
  assumes "46 \<notin> set header" and "46 \<notin> set short" and "46 \<notin> set long"
    and "claims_of short = Some \<lparr>ic_sub = str_lit ''user_1'', ic_email = None, ic_name = None, ic_given = None, ic_family = None\<rparr>"
    and "claims_of long = Some \<lparr>ic_sub = str_lit ''user_1'', ic_email = Some (str_lit ''a@example.com''), ic_name = None,
                               ic_given = Some (str_lit ''Ada''), ic_family = Some (str_lit ''L'')\<rparr>"
  shows "account_comes_from_the_id_token claims_of header short long"
  using assms by (simp add: account_comes_from_the_id_token_def account_from_def jwt_parts join_space_def map_filter_simps)
    (simp add: str_lit_def)

definition loopback_falls_back_to_the_next_free_port :: "u16 \<Rightarrow> u16 \<Rightarrow> bool" where
  "loopback_falls_back_to_the_next_free_port taken_port free_port \<longleftrightarrow>
     bind_loopback (\<lambda>p. p \<noteq> taken_port) [taken_port, free_port] = Ok free_port \<and>
     isl (bind_loopback (\<lambda>p. p \<noteq> taken_port) [taken_port])"

lemma loopback_falls_back_to_the_next_free_port:
  "taken \<noteq> free \<Longrightarrow> loopback_falls_back_to_the_next_free_port taken free"
  by (simp add: loopback_falls_back_to_the_next_free_port_def)

text \<open>The \<open>url\<close> crate on a request target: its path, and its query pairs.\<close>

definition target_of :: "(rstr \<Rightarrow> (rstr \<times> (rstr \<times> rstr) list) option) \<Rightarrow> string \<Rightarrow> string \<Rightarrow> (string \<times> string) list \<Rightarrow> bool" where
  "target_of url_target target path pairs \<longleftrightarrow>
     url_target (str_lit target) = Some (str_lit path, map (\<lambda>(k, v). (str_lit k, str_lit v)) pairs)"

text \<open>A \<open>GET\<close> request with headers, each ended by CRLF, as it arrives in one chunk.\<close>

definition get_request :: "rstr \<Rightarrow> string \<Rightarrow> byte list" where
  "get_request headers path =
     utf8 (str_lit ''GET '' @ str_lit path @ str_lit '' HTTP/1.1'' @ crlf @ headers @ crlf)"

definition host_header :: rstr where
  "host_header = str_lit ''Host: 127.0.0.1'' @ crlf"

definition conn_of :: "(byte list \<Rightarrow> rstr) \<Rightarrow> byte list \<Rightarrow> loopback_conn" where
  "conn_of lossy bytes = (case read_request_target lossy [bytes] of None \<Rightarrow> NoTarget | Some t \<Rightarrow> Target t)"

definition loopback_listener_returns_the_code_for_the_right_state ::
  "(byte list \<Rightarrow> rstr) \<Rightarrow> (rstr \<Rightarrow> (rstr \<times> (rstr \<times> rstr) list) option) \<Rightarrow> bool" where
  "loopback_listener_returns_the_code_for_the_right_state lossy url_target \<longleftrightarrow>
     receive_code url_target (str_lit ''expected'')
       (map (conn_of lossy \<circ> get_request host_header)
          [''/favicon.ico'', ''/callback?code=stolen&state=wrong'', ''/callback?code=the-code&state=expected''])
     = ([404, 400, 200], Some (Ok (str_lit ''the-code'')))"

lemma str_lit_append: "str_lit (s @ t) = str_lit s @ str_lit t"
  by (simp add: str_lit_def)

lemma str_lit_ascii: "\<forall>c\<in>set s. of_char c < (128 :: nat) \<Longrightarrow> \<forall>c\<in>set (str_lit s). c < 128"
  by (simp add: str_lit_def)

text \<open>\<open>from_utf8_lossy\<close> reads back valid UTF-8.\<close>

definition reads_utf8 :: "(byte list \<Rightarrow> rstr) \<Rightarrow> bool" where
  "reads_utf8 lossy \<longleftrightarrow> (\<forall>s. valid_str s \<longrightarrow> lossy (utf8 s) = s)"

lemma conn_of_get:
  assumes "reads_utf8 lossy" and "headers \<in> {host_header, []}"
    and "path \<in> {''/favicon.ico'', ''/callback?code=stolen&state=wrong'',
      ''/callback?code=the-code&state=expected'', ''/callback?error=access_denied&state=s''}"
  shows "conn_of lossy (get_request headers path) = Target (str_lit path)"
proof -
  let ?line = "str_lit ''GET '' @ str_lit path @ str_lit '' HTTP/1.1''"
  let ?text = "?line @ crlf @ headers @ crlf"
  have small: "\<forall>c\<in>set ?text. c < 128"
    using assms(2,3) by (auto simp: str_lit_def crlf_def host_header_def)
  then have ascii: "utf8 ?text = map of_nat ?text"
    by (rule utf8_ascii)
  have "is_scalar c" if "c < 128" for c
    using that by (simp add: is_scalar_def)
  then have valid: "valid_str ?text"
    using small by (auto simp: valid_str_def)
  obtain front where "?text = front @ [13, 10, 13, 10]"
    using assms(2) by (auto simp: crlf_def host_header_def)
  then have "utf8 ?text = map of_nat front @ [13, 10, 13, 10]"
    unfolding ascii by simp
  then have "sublist [13, 10, 13, 10] (utf8 ?text)"
    by (simp add: sublist_append_leftI)
  then have "read_head [] [utf8 ?text] = Some (utf8 ?text)"
    by (auto simp: head_ended_def utf8_def str_lit_def utf8_char_def)
  moreover have "lossy (utf8 ?text) = ?text"
    using assms(1) valid by (simp add: reads_utf8_def)
  moreover have "words_of [] ?line = [str_lit ''GET'', str_lit path, str_lit ''HTTP/1.1'']"
    and "first_line ?text = Some ?line"
    using assms(3) by (auto simp: str_lit_def is_whitespace_def first_line_def crlf_def)
  ultimately show ?thesis
    by (simp add: conn_of_def get_request_def read_request_target_def)
qed

lemma loopback_listener_returns_the_code_for_the_right_state:
  assumes "reads_utf8 lossy"
    and "target_of url_target ''/favicon.ico'' ''/favicon.ico'' []"
    and "target_of url_target ''/callback?code=stolen&state=wrong'' ''/callback'' [(''code'', ''stolen''), (''state'', ''wrong'')]"
    and "target_of url_target ''/callback?code=the-code&state=expected'' ''/callback''
      [(''code'', ''the-code''), (''state'', ''expected'')]"
  shows "loopback_listener_returns_the_code_for_the_right_state lossy url_target"
  using assms
  by (simp add: loopback_listener_returns_the_code_for_the_right_state_def conn_of_get target_of_def callback_path_def str_lit_eq)

definition loopback_listener_reports_a_denied_sign_in ::
  "(byte list \<Rightarrow> rstr) \<Rightarrow> (rstr \<Rightarrow> (rstr \<times> (rstr \<times> rstr) list) option) \<Rightarrow> bool" where
  "loopback_listener_reports_a_denied_sign_in lossy url_target \<longleftrightarrow>
     (case snd (receive_code url_target (str_lit ''s'') [conn_of lossy (get_request [] ''/callback?error=access_denied&state=s'')]) of
        Some (Inl error) \<Rightarrow> sublist ''cancelled'' error
      | _ \<Rightarrow> False)"

lemma loopback_listener_reports_a_denied_sign_in:
  assumes "reads_utf8 lossy"
    and "target_of url_target ''/callback?error=access_denied&state=s'' ''/callback'' [(''error'', ''access_denied''), (''state'', ''s'')]"
  shows "loopback_listener_reports_a_denied_sign_in lossy url_target"
proof -
  have "''Sign-in was cancelled in the browser.'' = ''Sign-in was '' @ ''cancelled'' @ '' in the browser.''"
    by simp
  then have "sublist ''cancelled'' ''Sign-in was cancelled in the browser.''"
    unfolding sublist_def by blast
  with assms show ?thesis
    by (simp add: loopback_listener_reports_a_denied_sign_in_def conn_of_get target_of_def callback_path_def str_lit_eq)
qed

section \<open>Relay\<close>

definition desired_state_follows_settings_and_sign_in :: "url_lib \<Rightarrow> bool" where
  "desired_state_follows_settings_and_sign_in lib \<longleftrightarrow>
     (let inputs = \<lparr>ri_mode = LanMode, ri_url = str_lit ''http://127.0.0.1:8787'', ri_signed_in = True\<rparr>;
          relay = inputs\<lparr>ri_mode := RelayMode\<rparr>;
          signed_out = relay\<lparr>ri_signed_in := False\<rparr>
      in desired_from_inputs lib inputs = DesiredOff \<and>
         desired_from_inputs lib relay = DesiredConnect (str_lit ''ws://127.0.0.1:8787/relay'') \<and>
         desired_from_inputs lib signed_out = DesiredSignIn)"

lemma desired_state_follows_settings_and_sign_in:
  "socket_url lib (str_lit ''http://127.0.0.1:8787'') = Some (str_lit ''ws://127.0.0.1:8787/relay'') \<Longrightarrow>
   desired_state_follows_settings_and_sign_in lib"
  by (simp add: desired_state_follows_settings_and_sign_in_def desired_from_inputs_def)

definition of_two_unpaired_devices_the_lower_id_shows_the_code :: "device_id \<Rightarrow> device_id \<Rightarrow> device_id \<Rightarrow> bool" where
  "of_two_unpaired_devices_the_lower_id_shows_the_code low middle high \<longleftrightarrow>
     (let status = (\<lambda>show_code enter_code. \<lparr>rj_show = show_code, rj_enter = enter_code\<rparr>)
      in join_new low [high] [] = status True False \<and>
         join_new high [low] [] = status False True \<and>
         join_new middle [low, high] [] = status True True \<and>
         join_new low [high] [high] = status False False \<and>
         join_new low [] [] = status False False)"

lemma of_two_unpaired_devices_the_lower_id_shows_the_code:
  "low < middle \<Longrightarrow> middle < high \<Longrightarrow> of_two_unpaired_devices_the_lower_id_shows_the_code low middle high"
  by (auto simp: of_two_unpaired_devices_the_lower_id_shows_the_code_def join_new_def join_default_def)

section \<open>Tunnels\<close>

text \<open>A frame as the relay delivers it: the sender's flag and the source device.\<close>

definition delivered_frame ::
  "(128 word \<Rightarrow> rstr) \<Rightarrow> byte \<Rightarrow> device_id \<Rightarrow> u32 \<Rightarrow> bool \<Rightarrow> byte list \<Rightarrow> byte list" where
  "delivered_frame fmt kind sender i sender_opened data =
     tunnel_encode fmt kind \<lparr>tk_peer = sender, tk_id = i, tk_here = sender_opened\<rparr> data"

definition example_uuid_text :: rstr where
  "example_uuid_text = str_lit ''0f8fad5b-d9cb-469f-a165-70867728950e''"

definition frames_match_the_relay_format :: "(128 word \<Rightarrow> rstr) \<Rightarrow> (rstr \<Rightarrow> 128 word option) \<Rightarrow> bool" where
  "frames_match_the_relay_format fmt parse \<longleftrightarrow>
     (case device_id_from_str parse example_uuid_text of
        None \<Rightarrow> False
      | Some peer \<Rightarrow>
          (let key = \<lparr>tk_peer = peer, tk_id = 0x01020304, tk_here = True\<rparr>;
               frame = tunnel_encode fmt kind_data key (utf8 (str_lit ''xyz''))
           in frame = [2, 1, 1, 2, 3, 4, 36] @ utf8 example_uuid_text @ utf8 (str_lit ''xyz'') \<and>
              tunnel_decode parse frame = Some (kind_data, key\<lparr>tk_here := False\<rparr>, utf8 (str_lit ''xyz''))))"

lemma utf8_lit: "\<forall>c\<in>set s. of_char c < (128 :: nat) \<Longrightarrow> utf8 (str_lit s) = map of_char s"
  by (subst utf8_ascii) (auto simp: str_lit_def of_nat_of_char)

lemma example_uuid_bytes: "utf8 example_uuid_text = map of_char ''0f8fad5b-d9cb-469f-a165-70867728950e''"
  unfolding example_uuid_text_def by (rule utf8_lit) simp

lemma frames_match_the_relay_format:
  assumes "uuid_codec fmt parse" and "parse example_uuid_text = Some u" and "fmt u = example_uuid_text"
  shows "frames_match_the_relay_format fmt parse"
proof -
  have "trim example_uuid_text = example_uuid_text"
    by (simp add: example_uuid_text_def text_simps)
  then have peer: "device_id_from_str parse example_uuid_text = Some (DeviceId u)"
    using assms(2) by (simp add: device_id_from_str_def)
  have word: "(be_word [1, 2, 3, 4] :: u32) = 0x01020304"
    by (simp add: be_word_def le_word_def)
  have "be_bytes (be_word [1, 2, 3, 4] :: u32) = [1, 2, 3, 4]"
    by (rule be_bytes_be_word) simp
  then have "be_bytes (0x01020304 :: u32) = [1, 2, 3, 4]"
    unfolding word .
  then have "tunnel_encode fmt kind_data \<lparr>tk_peer = DeviceId u, tk_id = 0x01020304, tk_here = True\<rparr> (utf8 (str_lit ''xyz''))
      = [2, 1, 1, 2, 3, 4, 36] @ utf8 example_uuid_text @ utf8 (str_lit ''xyz'')"
    using assms(3) by (simp add: tunnel_encode_def device_id_fmt_def example_uuid_bytes kind_data_def flag_opener_def)
  moreover have "length (utf8 (str_lit ''xyz'')) = 3"
    by (simp add: utf8_lit)
  ultimately show ?thesis
    using tunnel_decode_encode [OF assms(1), of kind_data "utf8 (str_lit ''xyz'')"
        "\<lparr>tk_peer = DeviceId u, tk_id = 0x01020304, tk_here = True\<rparr>"]
    by (simp add: frames_match_the_relay_format_def peer max_data_bytes_def)
qed

definition invalid_frames_are_refused ::
  "(128 word \<Rightarrow> rstr) \<Rightarrow> (rstr \<Rightarrow> 128 word option) \<Rightarrow> device_id \<Rightarrow> bool" where
  "invalid_frames_are_refused fmt parse peer \<longleftrightarrow>
     (let key = \<lparr>tk_peer = peer, tk_id = 1, tk_here = True\<rparr>;
          x = utf8 (str_lit ''x'');
          valid = tunnel_encode fmt kind_data key x;
          bad_kind = valid[0 := 9];
          bad_flags = valid[1 := 0x81];
          long_id = valid[6 := 200];
          not_a_uuid = take 7 valid @ replicate 36 (of_char CHR ''z'') @ x
      in tunnel_decode parse valid \<noteq> None \<and>
         (\<forall>frame\<in>set [take 5 valid, bad_kind, bad_flags, long_id, not_a_uuid, tunnel_encode fmt kind_data key [],
                       tunnel_encode fmt kind_open key x,
                       tunnel_encode fmt kind_data key (replicate (Suc max_data_bytes) 0)].
            tunnel_decode parse frame = None))"

lemma tunnel_decode_bad_data:
  assumes "uuid_codec fmt parse" and "kind \<in> {kind_open, kind_data, kind_close}"
    and "\<not> (if kind = kind_data then 1 \<le> length data \<and> length data \<le> max_data_bytes else data = [])"
  shows "tunnel_decode parse (tunnel_encode fmt kind key data) = None"
proof -
  obtain a b c d where i: "be_bytes (tk_id key) = [a, b, c, d]" by (rule be_bytes_u32)
  show ?thesis
    using assms(2,3) uuid_codec_unat [OF assms(1), of "tk_peer key"]
    by (auto simp: tunnel_encode_def tunnel_decode_def Let_def i simp del: of_nat_numeral
        split: option.split if_splits)
qed

text \<open>The text of the identifier has its 36 bytes, and a text of letters \<open>z\<close> is none.\<close>

lemma invalid_frames_are_refused:
  assumes "uuid_codec fmt parse" and "length (utf8 (fmt (device_uuid peer))) = 36"
    and "parse (replicate 36 122) = None"
  shows "invalid_frames_are_refused fmt parse peer"
proof -
  let ?key = "\<lparr>tk_peer = peer, tk_id = 1, tk_here = True\<rparr>" and ?x = "utf8 (str_lit ''x'')"
  let ?valid = "tunnel_encode fmt kind_data ?key ?x"
  obtain a b c d where i: "be_bytes (1 :: u32) = [a, b, c, d]" by (rule be_bytes_u32)
  have x: "?x = [of_char CHR ''x'']"
    by (simp add: utf8_lit)
  let ?device = "utf8 (device_id_fmt fmt peer)"
  have len: "length ?device = 36"
    using assms(2) by (simp add: device_id_fmt_def)
  have valid: "?valid = [2, 1, a, b, c, d, 36] @ ?device @ [of_char CHR ''x'']"
    by (simp add: tunnel_encode_def i x len kind_data_def flag_opener_def)
  have "tunnel_decode parse ?valid \<noteq> None"
    by (subst tunnel_decode_encode [OF assms(1)]) (simp_all add: x max_data_bytes_def)
  moreover have "tunnel_decode parse (tunnel_encode fmt kind_data ?key []) = None"
    "tunnel_decode parse (tunnel_encode fmt kind_open ?key ?x) = None"
    "tunnel_decode parse (tunnel_encode fmt kind_data ?key (replicate (Suc max_data_bytes) 0)) = None"
    by (rule tunnel_decode_bad_data [OF assms(1)]; simp add: x)+
  moreover have "tunnel_decode parse (take 5 ?valid) = None" "tunnel_decode parse (?valid[0 := 9]) = None"
    "tunnel_decode parse (?valid[1 := 0x81]) = None" "tunnel_decode parse (?valid[6 := 200]) = None"
    unfolding valid
    by (simp_all add: tunnel_decode_def kind_open_def kind_data_def kind_close_def flag_opener_def len)
  moreover have "tunnel_decode parse (take 7 ?valid @ replicate 36 (of_char CHR ''z'') @ ?x) = None"
  proof -
    have "(replicate 36 (of_char CHR ''z'') :: byte list) = utf8 (replicate 36 122)"
      by (simp add: utf8_def utf8_char_def)
    then have "utf8_decode (replicate 36 (of_char CHR ''z'')) = Some (replicate 36 122)"
      using utf8_decode_utf8 [of "replicate 36 122"] by (simp add: valid_str_def is_scalar_def)
    moreover have "trim (replicate 36 122) = replicate 36 122"
      by (simp add: text_simps)
    ultimately show ?thesis
      using assms(3) unfolding valid
      by (simp add: x tunnel_decode_def kind_data_def flag_opener_def device_id_from_str_def)
  qed
  ultimately show ?thesis
    by (simp add: invalid_frames_are_refused_def Let_def del: list_update.simps)
qed

section \<open>Tunnels of a connection\<close>

lemmas tunnel_test_ops = tunnels_new_def open_tunnel_def create_tunnel_def remove_tunnel_def on_pumped_def
  on_frame_def has_tunnel_def tunnel_after_def tunnels_receive_def

text \<open>The session's end of a tunnel is its key: it writes and closes it with the events of a run.\<close>

definition bytes_flow_both_ways_through_a_tunnel ::
  "(128 word \<Rightarrow> rstr) \<Rightarrow> (rstr \<Rightarrow> 128 word option) \<Rightarrow> device_id \<Rightarrow> bool" where
  "bytes_flow_both_ways_through_a_tunnel fmt parse peer \<longleftrightarrow>
     (let (open_frame, ts) = open_tunnel fmt peer tunnels_new;
          key = \<lparr>tk_peer = peer, tk_id = 1, tk_here = True\<rparr>;
          has = has_tunnel peer ts;
          ciphertext = utf8 (str_lit ''ciphertext'');
          answer = utf8 (str_lit ''answer'');
          ts = snd (tunnel_step fmt parse ts (TWrote key ciphertext));
          (sent, ts) = tunnel_step fmt parse ts THandle;
          (got, ts) = on_frame fmt parse (delivered_frame fmt kind_data peer 1 False answer) ts;
          inbox = map_option tn_inbox (map_of (ts_open ts) key);
          (closed, ts) = on_frame fmt parse (delivered_frame fmt kind_close peer 1 False []) ts
      in hd open_frame = kind_open \<and> has
         \<and> (case sent of
              [frame] \<Rightarrow> (case tunnel_decode parse frame of
                            Some (kind, _, data) \<Rightarrow> kind = kind_data \<and> data = ciphertext
                          | None \<Rightarrow> False)
            | _ \<Rightarrow> False)
         \<and> got = FNothing \<and> inbox = Some [answer]
         \<and> closed = FNothing \<and> \<not> has_tunnel peer ts)"

lemma bytes_flow_both_ways_through_a_tunnel:
  assumes "uuid_codec fmt parse"
  shows "bytes_flow_both_ways_through_a_tunnel fmt parse peer"
  by (simp add: bytes_flow_both_ways_through_a_tunnel_def delivered_frame_def tunnel_test_ops Let_def
      tunnel_decode_encode [OF assms] utf8_lit max_data_bytes_def)
    (simp add: tunnel_encode_def Let_def)

definition a_session_closing_its_end_closes_the_tunnel ::
  "(128 word \<Rightarrow> rstr) \<Rightarrow> (rstr \<Rightarrow> 128 word option) \<Rightarrow> device_id \<Rightarrow> bool" where
  "a_session_closing_its_end_closes_the_tunnel fmt parse peer \<longleftrightarrow>
     (let (incoming, ts) = on_frame fmt parse (delivered_frame fmt kind_open peer 7 True []) tunnels_new;
          ts = snd (tunnel_step fmt parse ts (TEnded \<lparr>tk_peer = peer, tk_id = 7, tk_here = False\<rparr>));
          (sent, ts) = tunnel_step fmt parse ts THandle
      in incoming = FOpened peer
         \<and> (case sent of
              [frame] \<Rightarrow> (case tunnel_decode parse frame of
                            Some (kind, key, _) \<Rightarrow> kind = kind_close \<and> tk_id key = 7
                          | None \<Rightarrow> False)
            | _ \<Rightarrow> False)
         \<and> \<not> has_tunnel peer ts)"

lemma a_session_closing_its_end_closes_the_tunnel:
  assumes "uuid_codec fmt parse"
  shows "a_session_closing_its_end_closes_the_tunnel fmt parse peer"
  by (simp add: a_session_closing_its_end_closes_the_tunnel_def delivered_frame_def tunnel_test_ops Let_def
      tunnel_decode_encode [OF assms])

text \<open>The close goes back as the side that did not open it, so the peer finds its tunnel.\<close>

definition data_for_an_unknown_tunnel_is_answered_with_a_close ::
  "(128 word \<Rightarrow> rstr) \<Rightarrow> (rstr \<Rightarrow> 128 word option) \<Rightarrow> device_id \<Rightarrow> bool" where
  "data_for_an_unknown_tunnel_is_answered_with_a_close fmt parse peer \<longleftrightarrow>
     (let stale = delivered_frame fmt kind_data peer 3 True (utf8 (str_lit ''old session''));
          (incoming, ts) = on_frame fmt parse stale tunnels_new
      in incoming = FReply (delivered_frame fmt kind_close peer 3 False [])
         \<and> fst (on_frame fmt parse (delivered_frame fmt kind_close peer 3 True []) ts) = FNothing)"

lemma data_for_an_unknown_tunnel_is_answered_with_a_close:
  assumes "uuid_codec fmt parse"
  shows "data_for_an_unknown_tunnel_is_answered_with_a_close fmt parse peer"
  by (simp add: data_for_an_unknown_tunnel_is_answered_with_a_close_def delivered_frame_def tunnel_test_ops
      Let_def tunnel_decode_encode [OF assms] utf8_lit max_data_bytes_def)

definition only_the_opener_may_send_open ::
  "(128 word \<Rightarrow> rstr) \<Rightarrow> (rstr \<Rightarrow> 128 word option) \<Rightarrow> device_id \<Rightarrow> bool" where
  "only_the_opener_may_send_open fmt parse peer \<longleftrightarrow>
     fst (on_frame fmt parse (delivered_frame fmt kind_open peer 1 False []) tunnels_new) = FInvalid"

lemma only_the_opener_may_send_open:
  assumes "uuid_codec fmt parse"
  shows "only_the_opener_may_send_open fmt parse peer"
  by (simp add: only_the_opener_may_send_open_def delivered_frame_def tunnel_test_ops
      tunnel_decode_encode [OF assms])

definition garbage_is_invalid :: "(128 word \<Rightarrow> rstr) \<Rightarrow> (rstr \<Rightarrow> 128 word option) \<Rightarrow> bool" where
  "garbage_is_invalid fmt parse \<longleftrightarrow> fst (on_frame fmt parse [1, 2, 3] tunnels_new) = FInvalid"

lemma garbage_is_invalid: "garbage_is_invalid fmt parse"
  by (simp add: garbage_is_invalid_def tunnel_test_ops tunnel_decode_def)

section \<open>Thumbnails\<close>

definition small_images_keep_their_size :: bool where
  "small_images_keep_their_size \<longleftrightarrow>
     thumbnail_size 100 50 = (100, 50) \<and> thumbnail_size 480 480 = (480, 480)"

definition large_images_scale_by_longest_edge :: bool where
  "large_images_scale_by_longest_edge \<longleftrightarrow>
     thumbnail_size 2560 1440 = (480, 270) \<and> thumbnail_size 1000 4000 = (120, 480)"

definition extreme_aspect_ratios_never_hit_zero :: bool where
  "extreme_aspect_ratios_never_hit_zero \<longleftrightarrow> thumbnail_size 10000 1 = (480, 1)"

lemma small_images_keep_their_size: small_images_keep_their_size
  by code_simp

lemma large_images_scale_by_longest_edge: large_images_scale_by_longest_edge
  by code_simp

lemma extreme_aspect_ratios_never_hit_zero: extreme_aspect_ratios_never_hit_zero
  by code_simp

definition encodes_a_png_data_url ::
  "(u32 \<Rightarrow> u32 \<Rightarrow> byte list \<Rightarrow> 'img option) \<Rightarrow> ('img \<Rightarrow> u32 \<Rightarrow> u32 \<Rightarrow> 'img)
   \<Rightarrow> ('img \<Rightarrow> u32 \<Rightarrow> u32 \<Rightarrow> byte list option) \<Rightarrow> (byte list \<Rightarrow> rstr) \<Rightarrow> bool" where
  "encodes_a_png_data_url from_raw shrink png_write base64 \<longleftrightarrow>
     (case from_rgba 2 2 (replicate 16 255) of
        Some img \<Rightarrow>
          (case data_url from_raw shrink png_write base64 img of
             Some url \<Rightarrow> prefix (str_lit ''data:image/png;base64,'') url
           | None \<Rightarrow> False)
      | None \<Rightarrow> False)"

text \<open>The \<open>image\<close> crate accepts four bytes per pixel and writes the PNG into memory.\<close>

lemma encodes_a_png_data_url:
  assumes "from_raw 2 2 (replicate 16 255) = Some source"
    and "png_write (shrink source 2 2) 2 2 = Some png"
  shows "encodes_a_png_data_url from_raw shrink png_write base64"
proof -
  have "thumbnail_size 2 2 = (2, 2)" by code_simp
  with assms show ?thesis
    by (simp add: encodes_a_png_data_url_def from_rgba_small data_url_def)
qed

end
