(* ===== verification/Spec2Isabelle.thy ===== *)
theory Spec2Isabelle
  imports Sync_Network Sessions Shell Sim_Tests Lan_Tests Peers_Tests Desktop_Tests
begin

text \<open>
  A model of Cled, a clipboard that several devices share (\<open>README.md\<close>): the Rust crates
  \<open>crates/cled-clipboard\<close>, \<open>crates/cled-sync\<close> and \<open>crates/cled-lan\<close> and the Rust side of the desktop
  app, \<open>apps/desktop/src-tauri\<close>. Every definition is a translation of the function or type its name
  says; records are the source's structs, datatypes its enums, words its machine integers, sums
  (\<open>Ok\<close>, \<open>Err\<close>) its results, and strings are lists of code points (\<open>rstr\<close>) with UTF-8 made explicit.

  \<^bold>\<open>The program.\<close> A clipboard thread watches the clipboard of the operating system and reports
  changes. The app hands each change to the sync engine, which tells a new copy from the echo of a
  write of its own; a new copy becomes an item that the node sends to every connected paired device.
  There the node hands the item to the engine, which decides whether it is newer than what the
  clipboard holds, and the app writes it. Devices find each other by mDNS, pair with a short code
  (SPAKE2, then Noise), remember each other in a peers file, and exchange rosters so that every
  device of the group knows the same members. A relay connection, for which the user signs in,
  carries the same sessions through tunnels when the devices are not on one network.

  \<^bold>\<open>Theories and sources.\<close>

  \<^item> \<open>Cled_Prelude\<close> (words, bytes, results, times in nanoseconds), \<open>Rust_Text\<close> (UTF-8, trimming,
    line endings of the standard library), \<open>Interfaces\<close> (the locales: state machines with an
    invariant, merge lattices, stream codecs, doubling delays, memories of what was seen,
    directories; each is interpreted by the component that provides it).
  \<^item> \<open>Clipboard_Content\<close>: \<open>content.rs\<close>, \<open>snapshot.rs\<close>, \<open>detector.rs\<close>. Content, its identity, and the
    change detector, which refines the list of real changes.
  \<^item> \<open>Clipboard_Access\<close>, \<open>Platform\<close>: \<open>lib.rs\<close>, \<open>error.rs\<close>, \<open>backend.rs\<close>, \<open>platform/\<close>. Reading and
    writing through \<open>arboard\<close>, and what each operating system adds; marked copies are skipped.
  \<^item> \<open>Watchers\<close>: the watcher threads and the X11 query of \<open>platform/\<close>, with the contract of a watcher
    as the locale \<open>watch_loop\<close>.
  \<^item> \<open>Holder\<close>, \<open>Clipboard_Service\<close>, \<open>Clipboard_Threads\<close>: \<open>holder.rs\<close> and \<open>service.rs\<close>. First the loop of
    the clipboard thread as a function of the requests it receives; then callers, watcher and thread
    as a step relation (\<open>clip_step\<close>) that interleaves them in any order, with invariants over the
    reachable states: calls are answered once and in order, changes are not forgotten, snapshots
    are well formed.
  \<^item> \<open>Sync_Item\<close>, \<open>Recent\<close>, \<open>Engine\<close>: \<open>ids.rs\<close>, \<open>item.rs\<close>, \<open>recent.rs\<close>, \<open>engine.rs\<close> of \<open>cled-sync\<close>.
    \<open>Sync_Network\<close> is the network of \<open>tests/simulation.rs\<close>, any number of devices and any order of
    deliveries: no loops, and all devices end with the newest copy.
  \<^item> \<open>Lan_Error\<close>, \<open>Addr\<close>, \<open>Pairing_Code\<close>, \<open>Keys\<close>, \<open>Wire\<close>, \<open>Noise_Channel\<close>: the files of \<open>cled-lan\<close> of
    those names (\<open>error.rs\<close>, \<open>addr.rs\<close>, \<open>code.rs\<close>, \<open>keys.rs\<close>, \<open>wire.rs\<close>, \<open>noise.rs\<close>): ranking of
    addresses, codes, the key file, messages and items on the wire, frames and chunked messages.
  \<^item> \<open>Peers\<close>: \<open>peers.rs\<close>, the lists of paired and removed devices, the peers file, and the merge of
    rosters, which is a join in the lattice of the newest word about each device.
  \<^item> \<open>Node_Protocol\<close>, \<open>Node\<close>, \<open>Node_Correct\<close>, \<open>Node_Api\<close>, \<open>Sessions\<close>: \<open>node.rs\<close>. The parts without
    state; the state with one function per handler, from the node to the node and its effects in
    order; what every run of handlers keeps; the handle of the app; and what takes time: timeouts,
    the read loop, the listener. \<open>Discovery\<close>: \<open>discovery.rs\<close>.
  \<^item> \<open>Tunnel\<close>, \<open>Settings\<close>, \<open>Auth\<close>, \<open>Relay\<close>: \<open>tunnel.rs\<close>, \<open>settings.rs\<close>, \<open>auth.rs\<close>, \<open>relay.rs\<close> of the
    app: tunnel frames and tunnels, the settings file, signing in and its tokens, and the relay
    connection as a task whose events may come in any order.
  \<^item> \<open>Desktop\<close>, \<open>App\<close>, \<open>Shell\<close>: \<open>preview.rs\<close>, \<open>device.rs\<close>, \<open>clipboard.rs\<close>, \<open>sync.rs\<close>, \<open>main.rs\<close>,
    \<open>lib.rs\<close>, \<open>background.rs\<close>: the glue, what a start sets up, the window and tray, the exit.
  \<^item> \<open>Clipboard_Tests\<close>, \<open>Sync_Tests\<close>, \<open>Sim_Tests\<close>, \<open>Lan_Tests\<close>, \<open>Peers_Tests\<close>, \<open>Desktop_Tests\<close>: the unit
    tests of the sources and the tests of \<open>tests/simulation.rs\<close>, on the model. Each is a definition
    with the name of its test, true when all its assertions hold, and a lemma that it passes: for every
    identifier, time and code the test draws at random, and for every codec and hash that does what the
    lemma says. They tie the model to the expectations the repository states for the code.
  \<^item> This theory: a copy that travels from one device to another, through the clipboard, the engine,
    the wire format, the node and the glue; and two devices from a pairing code to a session.

  \<^bold>\<open>What is outside.\<close> Code that is not in the repository enters as arguments: \<open>arboard\<close> and the window
  systems (\<open>os_answers\<close>, \<open>native_answers\<close>), the hash functions, the PNG and postcard codecs
  (\<open>png_codec\<close> and the decoding of what was encoded are hypotheses), UUID text (\<open>uuid_text\<close>,
  \<open>uuid_codec\<close>), Noise and SPAKE2 (the outcome of a handshake; \<open>noise_pair\<close> says that the two ciphers
  of a session open what the other sealed), sockets, HTTP, WebSocket, JSON and URL parsing, clocks,
  random numbers and the file system (the outcome of each operation, failures included). Events of
  the outside world, their order and the time between them are universally quantified.

  \<^bold>\<open>Bounds and fuel.\<close> No function of the model is partial. \<open>settle\<close> of the simulation gives up after
  \<open>max_deliveries\<close> = 10000 deliveries, as the test does; the theorems on it state the size of network
  for which this is enough. Loops over the network are recursion over the list of what arrives.
  Where the code may wait for ever the model says so: an operation of theory \<open>Sessions\<close> that never
  ends is \<open>None\<close>, and that connecting, reading a preamble and a pairing attempt do end is proved;
  \<open>await_targets\<close> gives \<open>None\<close> while polls are missing, and 126 empty polls, 2 ms apart, are proved
  to suffice for its 250 ms. Bounds of the code kept at their values: 3 guesses per pairing code,
  256 entries per roster, 100 remembered removals, 16 MiB messages, retries from 1 s to 30 s, idle
  timeouts of 45 s (sessions) and 50 s (relay), \<open>2 ^ 32\<close> tunnel numbers on a connection.

  \<^bold>\<open>Groups of properties.\<close> Safety: no sync loops, no trust without a code or a roster of a trusted
  device, no session with an unpaired device, marked copies are skipped, a code for signing in is taken
  from the own redirect only. Refinement and equivalence: change detection, merging rosters.
  Liveness: a right code leads to a session, devices converge, changes are on their way to a check,
  silent sessions and relays are dropped while quiet ones are kept. Persistence: identity, peers, settings and sign-in survive a
  restart, which resumes the connection. Several theorems state what the code does where it does not
  do what it is meant to: a read that finds the clipboard busy loses the copy, an exchange of hellos
  that stalls blocks dialing, a removed device is still heard, copies within one millisecond never
  converge, and, beside these, late sign-ins, replaced tunnels and pending writes in \<open>Auth\<close>, \<open>Tunnel\<close>
  and \<open>Engine\<close>.

  \<^bold>\<open>Not modelled.\<close> The relay server and the user interface (TypeScript, \<open>apps/relay\<close>, \<open>apps/desktop/src\<close>,
  \<open>web\<close>); the integration tests over real sockets, relays and clipboards and the examples; unit tests
  of formatting, JSON, TLS, permissions and hash values; the Tauri builder, plugins and icons, of which only the events
  count; the \<open>tokio\<close> runtime and the mutexes, since each handler of the source runs under its locks and
  is one step here; log lines, except where a component logs each distinct error once; panics of
  poisoned locks, which the source ignores too.
\<close>

section \<open>A copy travels from one device to another\<close>

text \<open>
  The event thread of \<open>sync.rs\<close>: it hands the events of the node to \<open>handle_event\<close> one after the
  other. The first result lists the writes to the clipboard.
\<close>

fun handle_events ::
  "app_lib \<Rightarrow> (content \<Rightarrow> rstr + unit) \<Rightarrow> node \<Rightarrow> event list \<Rightarrow> sync_engine \<Rightarrow> content list \<times> sync_engine" where
  "handle_events lib state_write nd [] engine = ([], engine)"
| "handle_events lib state_write nd (ev # evs) engine =
     (let (written, engine, ui) = handle_event lib True state_write nd ev engine;
          (more, engine) = handle_events lib state_write nd evs engine
      in ((case written of Some c \<Rightarrow> [c] | None \<Rightarrow> []) @ more, engine))"

fun emitted :: "node_effect list \<Rightarrow> event list" where
  "emitted [] = []"
| "emitted (Emit ev # eff) = ev # emitted eff"
| "emitted (_ # eff) = emitted eff"

text \<open>A message that arrives over a session, up to the clipboard.\<close>

definition deliver ::
  "app_lib \<Rightarrow> node_env \<Rightarrow> (content \<Rightarrow> rstr + unit) \<Rightarrow> device_id \<Rightarrow> u64 \<Rightarrow> byte list \<Rightarrow> node \<Rightarrow> sync_engine
   \<Rightarrow> content list \<times> node \<times> sync_engine" where
  "deliver lib env state_write sender cid bytes nd engine =
     (let (nd, eff) = on_message (al_node lib) env sender cid bytes nd;
          (written, engine) = handle_events lib state_write nd (emitted eff) engine
      in (written, nd, engine))"

lemma kept_clean: "kept_content c \<Longrightarrow> clean_content c"
  by (cases c) (auto simp: kept_content_def from_rgba_Some_iff max_image_bytes_def mult.commute)

text \<open>
  C1: A copy reaches the other device and comes back as an echo. What one device reads from its
  clipboard and takes for a new copy is sent over its connection; when the other device receives
  those bytes on its session, knows nothing newer and can write, exactly that content is written to
  its clipboard, and when its clipboard then reports the content, the user interface is told the
  item of the first device and nothing is sent.
\<close>

theorem copies_travel_between_devices:
  fixes lib fresh now nda ndb ea eb c
  defines "item \<equiv> item_new (al_blake3 lib) fresh now (eng_device ea) c"
  defines "arrived \<equiv> item\<lparr>it_created := now div 1000000 * 1000000\<rparr>"
  assumes "clipboard_read msg os = Ok (Content c)"
    and "fst (on_local_change (al_blake3 lib) fresh now c ea) = Copied item"
    and "\<forall>img. c = Image img \<longrightarrow> png_codec (al_png_write lib) (nl_png_read (al_node lib)) img"
    and "\<forall>w. from_item (al_png_write lib) item = Ok w \<longrightarrow>
        (\<exists>bytes. nl_postcard (al_node lib) (Item w) = Ok bytes \<and> length bytes \<le> max_message_bytes \<and>
           nl_postcard_from (al_node lib) bytes = Some (Item w))"
    and "0 \<le> now" and "now < 2 ^ 64 * 1000000"
    and "(other, link) \<in> set (nd_conns nda)" and "(sender, cid) \<in> set (nd_reading ndb)"
    and "eng_device ea \<noteq> eng_device eb" and "fst (recent_insert fresh (eng_seen eb))"
    and "\<forall>cur. eng_current eb = Some cur \<longrightarrow> \<not> is_newer_than cur arrived \<and> cur_hash cur \<noteq> it_hash item"
    and "state_write c = Ok ()"
  shows "\<exists>bytes eb' payload eb''.
     SendTo (cn_id link) (OutMessage bytes) \<in> set (snd (snd (process_change lib fresh now (Some nda) (Content c) ea))) \<and>
     deliver lib env state_write sender cid bytes ndb eb = ([c], ndb, eb') \<and>
     process_change lib fresh' now' (Some ndb) (Content c) eb' =
       (Some \<lparr>cc_item = Some (item_info_new (nl_uuid_fmt (al_node lib)) arrived (eng_device eb) (Some ndb)),
              cc_content = payload\<rparr>, eb'', []) \<and>
     eng_current eb'' = Some (current_of arrived)"
proof -
  have clean: "clean_content c"
    using clipboard_read_kept [OF assms(3)] by (rule kept_clean)
  have item: "it_content item = c" "it_created item = now" "it_id item = fresh" "it_origin item = eng_device ea"
    by (simp_all add: item_def item_new_def)
  have "bind_ok (from_item (al_png_write lib) item) (into_item (nl_png_read (al_node lib))) = Ok arrived"
    unfolding arrived_def
    using clean assms(5) item from_ms_to_ms [OF assms(7,8)] by (intro wire_round_trip) auto
  then obtain w where w: "from_item (al_png_write lib) item = Ok w" "into_item (nl_png_read (al_node lib)) w = Ok arrived"
    by (auto simp: bind_ok_Ok)
  obtain bytes where bytes: "nl_postcard (al_node lib) (Item w) = Ok bytes" "length bytes \<le> max_message_bytes"
    "nl_postcard_from (al_node lib) bytes = Some (Item w)"
    using assms(6) w(1) by blast
  have encoded: "message_encode (nl_postcard (al_node lib)) (Item w) = Ok bytes"
    using bytes by (simp add: message_encode_def)
  obtain ea' where local: "on_local_change (al_blake3 lib) fresh now c ea = (Copied item, ea')"
    using assms(4) by (metis prod.collapse)
  have "SendTo (cn_id link) (OutMessage bytes) \<in> set (broadcast_item (al_node lib) (al_png_write lib) item nda)"
    using w encoded assms(9) by (force simp: broadcast_item_def send_to_all_def)
  then have sent: "SendTo (cn_id link) (OutMessage bytes)
      \<in> set (snd (snd (process_change lib fresh now (Some nda) (Content c) ea)))"
    using local by (simp add: process_change_def)
  have received: "on_message (al_node lib) env sender cid bytes ndb = (ndb, [Emit (ItemReceived arrived sender)])"
    using assms(10) bytes w by (simp add: on_message_def message_decode_def)
  obtain seen where seen: "recent_insert fresh (eng_seen eb) = (True, seen)"
    using assms(12) by (metis prod.collapse)
  have arrived: "it_origin arrived \<noteq> eng_device eb" "is_intact (al_blake3 lib) arrived" "it_id arrived = fresh"
    "it_content arrived = c" "it_hash arrived = it_hash item"
    using assms(11) item by (simp_all add: arrived_def is_intact_def item_def item_new_def)
  let ?eb = "eb\<lparr>eng_seen := seen, eng_pending := Some arrived\<rparr>"
  have remote: "on_remote_item (al_blake3 lib) arrived eb = (Write c, ?eb)"
    using arrived seen assms(13) by (auto simp: on_remote_item_def Let_def split: option.split)
  have delivered: "deliver lib env state_write sender cid bytes ndb eb = ([c], ndb, ?eb)"
    using received remote assms(14) by (simp add: deliver_def handle_event_def)
  have "content_hash_of (al_blake3 lib) c = it_hash arrived"
    using arrived by (simp add: is_intact_def)
  then have "on_local_change (al_blake3 lib) fresh' now' c ?eb =
      (Echo arrived, ?eb\<lparr>eng_pending := None, eng_current := Some (current_of arrived)\<rparr>)"
    by (simp add: on_local_change_def Let_def)
  then have "\<exists>payload eb''. process_change lib fresh' now' (Some ndb) (Content c) ?eb =
       (Some \<lparr>cc_item = Some (item_info_new (nl_uuid_fmt (al_node lib)) arrived (eng_device eb) (Some ndb)),
              cc_content = payload\<rparr>, eb'', []) \<and> eng_current eb'' = Some (current_of arrived)"
    by (cases c) (simp_all add: process_change_def payload_from_snapshot_def Let_def)
  with sent delivered show ?thesis by blast
qed

definition travel_item :: clipboard_item where
  "travel_item = item_new id (ItemId 7) 5000000 (DeviceId 1) (Text [97])"

definition travel_wire :: wire_item where
  "travel_wire =
     \<lparr>w_id = item_id_to_bytes (ItemId 7), w_origin = device_id_to_bytes (DeviceId 1), w_created_at_ms = to_ms 5000000,
      w_content_hash = hash_bytes (it_hash travel_item), w_content = WireText [97]\<rparr>"

definition travel_lib :: app_lib where
  "travel_lib =
     \<lparr>al_node = \<lparr>nl_uuid_fmt = bits_fmt, nl_postcard = (\<lambda>_. Ok [9]), nl_postcard_from = (\<lambda>_. Some (Item travel_wire)),
                nl_png_read = (\<lambda>_. None)\<rparr>,
      al_blake3 = id, al_png_write = (\<lambda>_ _ _. None), al_preview = (\<lambda>_. None)\<rparr>"

lemma travel_from_item: "from_item png travel_item = Ok travel_wire"
  by (simp add: from_item_def travel_item_def travel_wire_def item_new_def)

theorem copies_travel_between_devices_witness:
  "\<exists>bytes eb'. deliver travel_lib example_now (\<lambda>_. Ok ()) (DeviceId 1) 4 bytes
     (example_node\<lparr>nd_device := DeviceId 2, nd_reading := [(DeviceId 1, 4)]\<rparr>) (engine_new (DeviceId 2))
   = ([Text [97]], example_node\<lparr>nd_device := DeviceId 2, nd_reading := [(DeviceId 1, 4)]\<rparr>, eb')"
proof -
  let ?link = "\<lparr>cn_id = 1, cn_initiator = DeviceId 1\<rparr>"
  let ?nda = "example_node\<lparr>nd_conns := [(DeviceId 2, ?link)]\<rparr>"
  let ?ndb = "example_node\<lparr>nd_device := DeviceId 2, nd_reading := [(DeviceId 1, 4)]\<rparr>"
  have read: "clipboard_read (\<lambda>_. []) (example_answers None [97]) = Ok (Content (Text [97]))"
    by (simp add: content_text_def normalize_line_endings_def)
  have copy: "fst (on_local_change (al_blake3 travel_lib) (ItemId 7) 5000000 (Text [97]) (engine_new (DeviceId 1)))
      = Copied (item_new (al_blake3 travel_lib) (ItemId 7) 5000000 (eng_device (engine_new (DeviceId 1))) (Text [97]))"
    by (simp add: on_local_change_def engine_new_def Let_def)
  have item: "item_new (al_blake3 travel_lib) (ItemId 7) 5000000 (eng_device (engine_new (DeviceId 1))) (Text [97])
      = travel_item"
    by (simp add: travel_item_def travel_lib_def engine_new_def)
  have new: "fst (recent_insert (ItemId 7) (eng_seen (engine_new (DeviceId 2))))"
    by (simp add: engine_new_def recent_insert_def recent_new_def recent_items_def)
  have wire: "\<forall>w. from_item (al_png_write travel_lib) travel_item = Ok w \<longrightarrow>
      (\<exists>bytes. nl_postcard (al_node travel_lib) (Item w) = Ok bytes \<and> length bytes \<le> max_message_bytes \<and>
         nl_postcard_from (al_node travel_lib) bytes = Some (Item w))"
    using travel_from_item by (auto simp: travel_lib_def max_message_bytes_def)
  have devices: "eng_device (engine_new (DeviceId 1)) \<noteq> eng_device (engine_new (DeviceId 2))"
    and current: "eng_current (engine_new (DeviceId 2)) = None"
    by (simp_all add: engine_new_def)
  obtain bytes eb' where
    "deliver travel_lib example_now (\<lambda>_. Ok ()) (DeviceId 1) 4 bytes ?ndb (engine_new (DeviceId 2)) = ([Text [97]], ?ndb, eb')"
    using copies_travel_between_devices [of "\<lambda>_. []" "example_answers None [97]" "Text [97]" travel_lib "ItemId 7"
        5000000 "engine_new (DeviceId 1)" "DeviceId 2" ?link ?nda "DeviceId 1" 4 ?ndb "engine_new (DeviceId 2)"
        "\<lambda>_. Ok ()" example_now "ItemId 8" 6]
    unfolding item using read copy new wire devices current item by auto
  then show ?thesis by blast
qed

section \<open>From a code to a session\<close>

text \<open>
  What the two ends of a Noise handshake find: each succeeds when the key it was given for the other
  side is the one the other side really has (\<open>theirs\<close>), and then receives its hello.
\<close>

definition shakes_with :: "byte list \<Rightarrow> hello \<Rightarrow> byte list \<Rightarrow> hello lan_result" where
  "shakes_with theirs h key = (if key = theirs then Ok h else Err (LanNoise ''decrypt''))"

text \<open>The pairing exchange of a device that knows the code, and finds the key of the other.\<close>

definition exchange_with :: "pairing_code \<Rightarrow> byte list \<Rightarrow> hello \<Rightarrow> pairing_code \<Rightarrow> (hello \<times> byte list) lan_result" where
  "exchange_with typed theirs h code = (if code = typed then Ok (h, theirs) else Err WrongCode)"

lemma store_peer_ok: "ne_io env = None \<Longrightarrow> fst (store_peer lib env d h key a nd) = Ok ()"
  by (simp add: store_peer_def upsert_def save_def Let_def case_prod_beta)

lemma store_peer_other [simp]:
  "nd_device (snd (store_peer lib env d h key a nd)) = nd_device nd"
  "nd_conns (snd (store_peer lib env d h key a nd)) = nd_conns nd"
  "nd_pairing (snd (store_peer lib env d h key a nd)) = nd_pairing nd"
  by (simp_all add: store_peer_def Let_def case_prod_beta)

lemma end_pairing_fields [simp]:
  "nd_device (fst (end_pairing nd)) = nd_device nd" "nd_conns (fst (end_pairing nd)) = nd_conns nd"
  "nd_peers (fst (end_pairing nd)) = nd_peers nd" "nd_pairing (fst (end_pairing nd)) = None"
  by (simp_all add: end_pairing_def)

lemma trigger_dial_fields [simp]:
  "nd_device (fst (trigger_dial d nd)) = nd_device nd" "nd_conns (fst (trigger_dial d nd)) = nd_conns nd"
  "nd_peers (fst (trigger_dial d nd)) = nd_peers nd" "nd_pairing (fst (trigger_dial d nd)) = nd_pairing nd"
  "snd (trigger_dial d nd) = [SpawnDial d]"
  by (simp_all add: trigger_dial_def)

lemma accept_pairing_right_code:
  assumes "nd_pairing nd = Some s" and "ne_now env \<le> pg_expires s" and "ne_io env = None"
    and "exchange (pg_code s) = Ok (h, key)" and "map_of (nd_conns nd) d = None"
  obtains nd' eff p where "accept_pairing lib env later d a exchange nd = (Ok (), nd', eff)"
    and "get (nd_peers nd') d = Some p" and "p_key p = key" and "p_id p = d" and "nd_pairing nd' = None"
    and "map_of (nd_conns nd') d = None" and "nd_device nd' = nd_device nd" and "SpawnDial d \<in> set eff"
proof -
  let ?nd = "snd (store_peer lib env d h key a (fst (end_pairing nd)))"
  have "accept_pairing lib env later d a exchange nd =
     (Ok (), fst (trigger_dial d ?nd),
      snd (end_pairing nd) @ send_roster_to_all lib ?nd @ [Emit (Paired d (h_name h)), Emit PeersChanged]
      @ [SpawnDial d])"
    using assms store_peer_ok [OF assms(3), of lib d h key a "fst (end_pairing nd)"]
    by (simp add: accept_pairing_def Let_def case_prod_beta)
  then show ?thesis
    by (rule that) ((use assms in \<open>simp_all add: get_store_peer\<close>), simp_all)
qed

lemma join_pairing_right_code:
  assumes "ne_io env = None" and "exchange l = Ok (h, key)" and "map_of (nd_conns nd) l = None"
    and "expected = None \<or> expected = Some l"
  obtains nd' eff st p where
    "join_pairing_over lib env a expected (Ok ()) (Some (device_id_to_bytes l)) exchange nd = (Ok st, nd', eff)"
    and "get (nd_peers nd') l = Some p" and "p_key p = key" and "p_id p = l"
    and "map_of (nd_conns nd') l = None" and "nd_device nd' = nd_device nd" and "SpawnDial l \<in> set eff"
proof -
  let ?nd = "snd (store_peer lib env l h key a nd)"
  obtain st eff where
    "join_pairing_over lib env a expected (Ok ()) (Some (device_id_to_bytes l)) exchange nd
       = (Ok st, fst (trigger_dial l ?nd), eff @ [SpawnDial l])"
    using assms store_peer_ok [OF assms(1), of lib l h key a nd]
    by (auto simp: join_pairing_over_def Let_def case_prod_beta)
  then show ?thesis
    by (rule that) ((use assms in \<open>simp_all add: get_store_peer\<close>), simp_all)
qed

lemma start_session_connects:
  assumes "get (nd_peers nd) d \<noteq> None" and "map_of (nd_conns nd) d = None"
  shows "is_connected d (fst (start_session lib env d i h a nd)) \<and>
     (\<exists>cid. (d, cid) \<in> set (nd_reading (fst (start_session lib env d i h a nd))))"
  using assms
  by (auto simp: start_session_def register_def is_connected_def Let_def update_conv' get_seen)

text \<open>
  C13: The right code leads to a session. When a device shows a code that has not expired and another
  device joins with it, the two are not connected yet and their peers files can be written, each
  stores the other with the key the other really has, the code is withdrawn, and each starts to dial
  the other; and when either of them then opens a session, the handshake succeeds with the stored
  keys at both ends and both are connected.
\<close>

theorem right_code_leads_to_session:
  fixes key_a key_b lib env later addr_a addr_b hello_a hello_b s nda ndb
  defines "a \<equiv> nd_device nda" and "b \<equiv> nd_device ndb"
  assumes "nd_pairing nda = Some s" and "ne_now env \<le> pg_expires s" and "ne_io env = None"
    and "map_of (nd_conns nda) b = None" and "map_of (nd_conns ndb) a = None"
  defines "listener \<equiv> accept_pairing lib env later b addr_b (exchange_with (pg_code s) key_b hello_b) nda"
    and "joiner \<equiv> join_pairing_over lib env addr_a None (Ok ()) (Some (device_id_to_bytes a))
      (\<lambda>l. if l = a then exchange_with (pg_code s) key_a hello_a (pg_code s) else Err WrongCode) ndb"
  defines "nda' \<equiv> fst (snd listener)" and "ndb' \<equiv> fst (snd joiner)"
  shows "fst listener = Ok () \<and> \<not> isl (fst joiner) \<and> nd_pairing nda' = None \<and>
    SpawnDial b \<in> set (snd (snd listener)) \<and> SpawnDial a \<in> set (snd (snd joiner)) \<and>
    (\<exists>p. get (nd_peers nda') b = Some p \<and> p_key p = key_b \<and>
      is_connected b (fst (snd (connect_over lib env p (shakes_with key_b hello_b) addr nda'))) \<and>
      is_connected a (fst (snd (accept_session lib env a addr' (shakes_with key_a hello_a) sent ndb')))) \<and>
    (\<exists>p. get (nd_peers ndb') a = Some p \<and> p_key p = key_a \<and>
      is_connected a (fst (snd (connect_over lib env p (shakes_with key_a hello_a) addr' ndb'))) \<and>
      is_connected b (fst (snd (accept_session lib env b addr (shakes_with key_b hello_b) sent nda'))))"
proof -
  obtain nd1 eff1 p where l: "listener = (Ok (), nd1, eff1)" "get (nd_peers nd1) b = Some p" "p_key p = key_b"
    "p_id p = b" "nd_pairing nd1 = None" "map_of (nd_conns nd1) b = None" "SpawnDial b \<in> set eff1"
    unfolding listener_def
    by (rule accept_pairing_right_code [OF assms(3,4,5) _ assms(6), of "exchange_with (pg_code s) key_b hello_b" hello_b key_b])
      (auto simp: exchange_with_def)
  obtain nd2 eff2 st q where j: "joiner = (Ok st, nd2, eff2)" "get (nd_peers nd2) a = Some q" "p_key q = key_a"
    "p_id q = a" "map_of (nd_conns nd2) a = None" "SpawnDial a \<in> set eff2"
    unfolding joiner_def
    by (rule join_pairing_right_code [OF assms(5) _ assms(7), where expected = None and h = hello_a and key = key_a
          and exchange = "\<lambda>l. if l = a then exchange_with (pg_code s) key_a hello_a (pg_code s) else Err WrongCode"])
      (auto simp: exchange_with_def)
  have "is_connected b (fst (snd (connect_over lib env p (shakes_with key_b hello_b) addr nd1)))"
    and "is_connected b (fst (snd (accept_session lib env b addr (shakes_with key_b hello_b) sent nd1)))"
    using l start_session_connects [of nd1 b]
    by (simp_all add: connect_over_def accept_session_def session_peer_def shakes_with_def case_prod_beta Let_def)
  moreover have "is_connected a (fst (snd (connect_over lib env q (shakes_with key_a hello_a) addr' nd2)))"
    and "is_connected a (fst (snd (accept_session lib env a addr' (shakes_with key_a hello_a) sent nd2)))"
    using j start_session_connects [of nd2 a]
    by (simp_all add: connect_over_def accept_session_def session_peer_def shakes_with_def case_prod_beta Let_def)
  ultimately show ?thesis
    using l j by (simp add: nda'_def ndb'_def)
qed

theorem right_code_leads_to_session_witness:
  "\<exists>p. get (nd_peers (fst (snd (accept_pairing example_lib example_now 11 (DeviceId 5) None
      (exchange_with (PairingCode [48]) [7] example_hello) pairing_node)))) (DeviceId 5) = Some p \<and> p_key p = [7]"
proof -
  let ?ndb = "example_node\<lparr>nd_device := DeviceId 5\<rparr>"
  have "nd_pairing pairing_node = Some \<lparr>pg_code = PairingCode [48], pg_expires = 20, pg_failures = 0\<rparr>"
    "ne_now example_now \<le> pg_expires \<lparr>pg_code = PairingCode [48], pg_expires = 20, pg_failures = 0\<rparr>"
    "ne_io example_now = None" "map_of (nd_conns pairing_node) (nd_device ?ndb) = None"
    "map_of (nd_conns ?ndb) (nd_device pairing_node) = None"
    by (simp_all add: pairing_node_def example_node_def example_now_def)
  from right_code_leads_to_session [OF this, where lib = example_lib and later = 11
      and addr_a = None and addr_b = None and key_a = "[]" and key_b = "[7]" and hello_a = example_hello
      and hello_b = example_hello and addr = None and addr' = None and sent = "Ok ()"]
  show ?thesis by auto
qed

end
